(* ===== verification/Prelude.thy ===== *)
theory Prelude
  imports Main "HOL-Library.Word"
begin

text \<open>
  Shared vocabulary of the development: the machine integers and the 32-byte keys of the
  program, Rust's fallible results (\<open>require!\<close>, the question mark, \<open>ok_or\<close>) with the
  inversion rules every handler proof uses, the checked and saturating arithmetic of the
  Rust standard library, byte encodings, and sums over all addresses under an update at one
  address (the book-keeping lemmas).
\<close>

section \<open>Types\<close>

type_synonym u8 = "8 word"
type_synonym u16 = "16 word"
type_synonym u64 = "64 word"
type_synonym u128 = "128 word"

text \<open>A signed 64-bit integer is a 64-bit word compared with \<open><s\<close> and \<open>\<le>s\<close>.\<close>

type_synonym i64 = "64 word"

text \<open>
  A \<open>Pubkey\<close> and a SHA-256 hash are 32 bytes, read as one 256-bit number;
  \<open>Pubkey::default()\<close> and \<open>[0u8; 32]\<close> are 0.
\<close>

type_synonym pubkey = "256 word"
type_synonym hash32 = "256 word"
type_synonym bytes = "u8 list"

abbreviation default_key :: pubkey where
  "default_key \<equiv> 0"

section \<open>Fallible results\<close>

named_theorems result_simps \<open>when a fallible computation succeeds\<close>
named_theorems result_errors \<open>when a fallible computation fails\<close>

text \<open>\<open>require!(c, e); k\<close>: the early return of Anchor's macro.\<close>

definition require :: "bool \<Rightarrow> 'e \<Rightarrow> 'e + 'a \<Rightarrow> 'e + 'a" where
  "require c e k = (if c then k else Inl e)"

text \<open>\<open>let x = m?; f(x)\<close>: the question mark operator.\<close>

definition try_bind :: "'e + 'a \<Rightarrow> ('a \<Rightarrow> 'e + 'b) \<Rightarrow> 'e + 'b" where
  "try_bind m f = (case m of Inl e \<Rightarrow> Inl e | Inr x \<Rightarrow> f x)"

definition ok_or :: "'a option \<Rightarrow> 'e \<Rightarrow> 'e + 'a" where
  "ok_or x e = (case x of None \<Rightarrow> Inl e | Some y \<Rightarrow> Inr y)"

definition map_err :: "('d \<Rightarrow> 'e) \<Rightarrow> 'd + 'a \<Rightarrow> 'e + 'a" where
  "map_err f m = (case m of Inl e \<Rightarrow> Inl (f e) | Inr x \<Rightarrow> Inr x)"

definition succeeds :: "'e + 'a \<Rightarrow> bool" where
  "succeeds m = (case m of Inl _ \<Rightarrow> False | Inr _ \<Rightarrow> True)"

lemma require_simps [simp]:
  "require True e k = k"
  "require False e k = Inl e"
  by (simp_all add: require_def)

lemma try_bind_simps [simp]:
  "try_bind (Inr x) f = f x"
  "try_bind (Inl e) f = Inl e"
  by (simp_all add: try_bind_def)

lemma ok_or_simps [simp]:
  "ok_or (Some x) e = Inr x"
  "ok_or None e = Inl e"
  by (simp_all add: ok_or_def)

lemma map_err_simps [simp]:
  "map_err g (Inr x) = Inr x"
  "map_err g (Inl e) = Inl (g e)"
  by (simp_all add: map_err_def)

lemma succeeds_simps [simp]:
  "succeeds (Inr x)"
  "\<not> succeeds (Inl e)"
  by (simp_all add: succeeds_def)

lemma succeeds_iff: "succeeds m \<longleftrightarrow> (\<exists>x. m = Inr x)"
  by (cases m) simp_all

lemma require_Inr [result_simps]: "require c e k = Inr x \<longleftrightarrow> c \<and> k = Inr x"
  by (simp add: require_def)

lemma try_bind_Inr [result_simps]: "try_bind m f = Inr y \<longleftrightarrow> (\<exists>x. m = Inr x \<and> f x = Inr y)"
  by (cases m) simp_all

lemma ok_or_Inr [result_simps]: "ok_or m e = Inr x \<longleftrightarrow> m = Some x"
  by (cases m) simp_all

lemma map_err_Inr [result_simps]: "map_err g m = Inr x \<longleftrightarrow> m = Inr x"
  by (cases m) simp_all

lemma require_Inl [result_errors]:
  "require c e k = Inl d \<longleftrightarrow> (\<not> c \<and> d = e) \<or> (c \<and> k = Inl d)"
  by (auto simp: require_def)

lemma try_bind_Inl [result_errors]:
  "try_bind m f = Inl d \<longleftrightarrow> m = Inl d \<or> (\<exists>x. m = Inr x \<and> f x = Inl d)"
  by (cases m) simp_all

section \<open>Checked and saturating arithmetic\<close>

definition checked_add :: "'a::len word \<Rightarrow> 'a word \<Rightarrow> 'a word option" where
  "checked_add x y = (if unat x + unat y < 2 ^ LENGTH('a) then Some (x + y) else None)"

definition checked_sub :: "'a::len word \<Rightarrow> 'a word \<Rightarrow> 'a word option" where
  "checked_sub x y = (if y \<le> x then Some (x - y) else None)"

definition checked_mul :: "'a::len word \<Rightarrow> 'a word \<Rightarrow> 'a word option" where
  "checked_mul x y = (if unat x * unat y < 2 ^ LENGTH('a) then Some (x * y) else None)"

definition saturating_sub :: "'a::len word \<Rightarrow> 'a word \<Rightarrow> 'a word" where
  "saturating_sub x y = (if y \<le> x then x - y else 0)"

definition saturating_mul :: "'a::len word \<Rightarrow> 'a word \<Rightarrow> 'a word" where
  "saturating_mul x y = (if unat x * unat y < 2 ^ LENGTH('a) then x * y else - 1)"

text \<open>
  Signed subtraction with the release profile's overflow checks: \<open>None\<close> is the panic.
\<close>

definition signed_sub :: "'a::len word \<Rightarrow> 'a word \<Rightarrow> 'a word option" where
  "signed_sub x y = (if sint (x - y) = sint x - sint y then Some (x - y) else None)"

text \<open>\<open>u64::try_from\<close> of a \<open>u128\<close>.\<close>

definition u64_try_from :: "u128 \<Rightarrow> u64 option" where
  "u64_try_from x = (if unat x < 2 ^ 64 then Some (ucast x) else None)"

lemma u64_try_from_Some: "u64_try_from x = Some y \<longleftrightarrow> unat x < 2 ^ 64 \<and> y = ucast x"
  by (auto simp: u64_try_from_def)

lemma checked_add_Some:
  "checked_add x y = Some z \<longleftrightarrow> unat (x :: 'a::len word) + unat y < 2 ^ LENGTH('a) \<and> z = x + y"
  by (auto simp: checked_add_def)

lemma unat_add_no_wrap:
  "unat (x :: 'a::len word) + unat y < 2 ^ LENGTH('a) \<Longrightarrow> unat (x + y) = unat x + unat y"
  by (simp add: unat_word_ariths)

lemma checked_add_unat: "checked_add x y = Some z \<Longrightarrow> unat z = unat x + unat y"
  by (simp add: checked_add_Some unat_add_no_wrap)

lemma checked_sub_Some: "checked_sub x y = Some z \<longleftrightarrow> y \<le> x \<and> z = x - y"
  by (auto simp: checked_sub_def)

lemma unat_sub_no_wrap: "y \<le> (x :: 'a::len word) \<Longrightarrow> unat (x - y) = unat x - unat y"
  by (simp add: unat_sub)

lemma checked_mul_Some:
  "checked_mul x y = Some z \<longleftrightarrow> unat (x :: 'a::len word) * unat y < 2 ^ LENGTH('a) \<and> z = x * y"
  by (auto simp: checked_mul_def)

lemma unat_mul_no_wrap:
  "unat (x :: 'a::len word) * unat y < 2 ^ LENGTH('a) \<Longrightarrow> unat (x * y) = unat x * unat y"
  by (simp add: unat_word_ariths)

lemma unat_saturating_sub: "unat (saturating_sub x y) = unat x - unat y"
  by (auto simp: saturating_sub_def unat_sub word_le_nat_alt)

lemma unat_saturating_mul:
  "unat (saturating_mul x y) = min (unat x * unat y) (2 ^ LENGTH('a) - 1)"
  for x y :: "'a::len word"
  by (simp add: saturating_mul_def unat_mul_no_wrap unsigned_minus_1_eq_mask mask_eq_exp_minus_1)

lemma signed_sub_Some:
  "signed_sub x y = Some z \<longleftrightarrow> sint (x - y) = sint x - sint y \<and> z = x - y"
  by (auto simp: signed_sub_def)

lemma unat_word_bound [simp]: "unat (x :: 'a::len word) < 2 ^ LENGTH('a)"
  by (rule unsigned_less)

lemma unat_ucast_widen:
  "LENGTH('a) \<le> LENGTH('b) \<Longrightarrow> unat (ucast (x :: 'a::len word) :: 'b::len word) = unat x"
  by (simp add: unsigned_ucast_eq take_bit_nat_eq_self_iff)
    (meson less_le_trans one_le_numeral power_increasing unsigned_less)

lemma unat_ucast_fits:
  "unat (x :: 'a::len word) < 2 ^ LENGTH('b) \<Longrightarrow> unat (ucast x :: 'b::len word) = unat x"
  by (simp add: unsigned_ucast_eq take_bit_nat_eq_self_iff)

lemma unat_of_nat_fits: "n < 2 ^ LENGTH('a) \<Longrightarrow> unat (of_nat n :: 'a::len word) = n"
  by (simp add: unat_of_nat take_bit_nat_eq_self_iff)

lemma word_of_unat:
  assumes "n < 2 ^ LENGTH('a)"
  obtains x :: "'a::len word" where "unat x = n"
  using unat_of_nat_fits [OF assms] by blast

section \<open>Bytes\<close>

text \<open>A byte string literal \<open>b"..."\<close>.\<close>

definition byte_string :: "string \<Rightarrow> bytes" where
  "byte_string s = map of_char s"

text \<open>\<open>u64::to_le_bytes\<close>.\<close>

definition to_le_bytes :: "u64 \<Rightarrow> bytes" where
  "to_le_bytes n = map (\<lambda>i. ucast (drop_bit (8 * i) n)) [0..<8]"

text \<open>\<open>Pubkey::as_ref\<close>: the 32 bytes of the key, most significant first.\<close>

definition key_bytes :: "pubkey \<Rightarrow> bytes" where
  "key_bytes k = map (\<lambda>i. ucast (drop_bit (8 * (31 - i)) k)) [0..<32]"

lemma length_to_le_bytes [simp]: "length (to_le_bytes n) = 8"
  by (simp add: to_le_bytes_def)

lemma length_key_bytes [simp]: "length (key_bytes k) = 32"
  by (simp add: key_bytes_def)

lemma length_byte_string [simp]: "length (byte_string s) = length s"
  by (simp add: byte_string_def)

lemma word_eq_bytesI:
  fixes x y :: "'a::len word"
  assumes "\<And>i. i < b \<Longrightarrow> (ucast (drop_bit (8 * i) x) :: u8) = ucast (drop_bit (8 * i) y)"
    and "LENGTH('a) \<le> 8 * b"
  shows "x = y"
proof (rule bit_word_eqI)
  fix n assume n: "n < LENGTH('a)"
  then have "n div 8 < b" using assms(2) by linarith
  then have "bit (ucast (drop_bit (8 * (n div 8)) x) :: u8) (n mod 8) =
      bit (ucast (drop_bit (8 * (n div 8)) y) :: u8) (n mod 8)"
    using assms(1) by simp
  then show "bit x n \<longleftrightarrow> bit y n"
    by (simp add: bit_ucast_iff bit_drop_bit_eq)
qed

lemma to_le_bytes_inj: "to_le_bytes m = to_le_bytes n \<longleftrightarrow> m = n"
proof
  assume eq: "to_le_bytes m = to_le_bytes n"
  show "m = n"
  proof (rule word_eq_bytesI [where b = 8])
    fix i :: nat assume "i < 8"
    with eq show "(ucast (drop_bit (8 * i) m) :: u8) = ucast (drop_bit (8 * i) n)"
      by (simp add: to_le_bytes_def list_eq_iff_nth_eq)
  qed simp
qed simp

lemma key_bytes_inj: "key_bytes j = key_bytes k \<longleftrightarrow> j = k"
proof
  assume eq: "key_bytes j = key_bytes k"
  show "j = k"
  proof (rule word_eq_bytesI [where b = 32])
    fix i :: nat assume i: "i < 32"
    then have "key_bytes j ! (31 - i) = key_bytes k ! (31 - i)" using eq by simp
    moreover have "[0..<32] ! (31 - i) = 31 - i" using nth_upt [of 0 "31 - i" 32] by simp
    ultimately show "(ucast (drop_bit (8 * i) j) :: u8) = ucast (drop_bit (8 * i) k)"
      using i by (simp add: key_bytes_def)
  qed simp
qed simp

section \<open>Sums over all addresses\<close>

text \<open>
  The books of the program are sums over every address. An instruction changes one or two
  addresses, and these lemmas move such a change through the sum.
\<close>

lemma sum_fun_upd:
  fixes f :: "'k::finite \<Rightarrow> nat"
  shows "(\<Sum>k\<in>UNIV. (f(a := x)) k) + f a = (\<Sum>k\<in>UNIV. f k) + x"
proof -
  have "(\<Sum>k\<in>UNIV. (f(a := x)) k) = x + (\<Sum>k\<in>UNIV - {a}. f k)"
    by (subst sum.remove [of UNIV a]) (auto intro!: sum.cong)
  moreover have "(\<Sum>k\<in>UNIV. f k) = f a + (\<Sum>k\<in>UNIV - {a}. f k)"
    by (rule sum.remove) auto
  ultimately show ?thesis by simp
qed

lemma sum_update_at:
  fixes f g :: "'k::finite \<Rightarrow> nat"
  assumes "\<And>k. k \<noteq> a \<Longrightarrow> g k = f k"
  shows "(\<Sum>k\<in>UNIV. g k) + f a = (\<Sum>k\<in>UNIV. f k) + g a"
proof -
  have "g = f(a := g a)" using assms by auto
  with sum_fun_upd [of f a "g a"] show ?thesis by metis
qed

lemma sum_ge_at: "f a \<le> (\<Sum>k\<in>UNIV. f k)" for f :: "'k::finite \<Rightarrow> nat"
  by (rule member_le_sum) auto

end
