(* ===== verification/Shake_Error.thy ===== *)
theory Shake_Error
  imports Prelude
begin

text \<open>
  The program's errors (\<^verbatim>\<open>error.rs\<close>): the enumeration in the source's order, and the
  numbers Anchor gives it by position. The other ways an instruction can fail, in the
  framework, in a called program, at a missing signature or by a panic, are the remaining
  constructors of \<open>error\<close>.
\<close>

datatype shake_error =
    NotUpgradeAuthority
  | FeeTooHigh
  | BadStakeBounds
  | BadResolverList
  | BadWindow
  | NotAdmin
  | Paused
  | StakeTooSmall
  | StakeTooLarge
  | ResolverNotAllowed
  | ResolverIsParticipant
  | SelfWager
  | OpenSideNotAllowed
  | BadDeadlines
  | WindowTooLong
  | EmptyTermsHash
  | NotFunding
  | FundingClosed
  | AlreadyFunded
  | NotAParticipant
  | WalletCapExceeded
  | GlobalCapExceeded
  | SideNotFunded
  | NotActive
  | ResolveExpired
  | WinnerNotParticipant
  | NotResolver
  | RefundNotDue
  | AlreadyExited
  | NotFullyExited
  | CloseNotDue
  | CancelWindowClosed
  | CancelAlreadyOpen
  | CancelNotOpen
  | CannotAcceptOwnProposal
  | WrongTokenOwner
  | WrongMint
  | WrongFeeDestination
  | WrongRentCollector
  | DuplicateAccounts
  | MathOverflow
  | DefaultAddress
  | BadExposureCaps
  | BadNewAdmin
  | NotProposedAdmin
  | NotCounterparty

text \<open>The variants in declaration order.\<close>

definition shake_errors :: "shake_error list" where
  "shake_errors =
    [NotUpgradeAuthority, FeeTooHigh, BadStakeBounds, BadResolverList, BadWindow, NotAdmin,
     Paused, StakeTooSmall, StakeTooLarge, ResolverNotAllowed, ResolverIsParticipant,
     SelfWager, OpenSideNotAllowed, BadDeadlines, WindowTooLong, EmptyTermsHash,
     NotFunding, FundingClosed, AlreadyFunded, NotAParticipant, WalletCapExceeded,
     GlobalCapExceeded, SideNotFunded,
     NotActive, ResolveExpired, WinnerNotParticipant, NotResolver,
     RefundNotDue, AlreadyExited, NotFullyExited, CloseNotDue,
     CancelWindowClosed, CancelAlreadyOpen, CancelNotOpen, CannotAcceptOwnProposal,
     WrongTokenOwner, WrongMint, WrongFeeDestination, WrongRentCollector, DuplicateAccounts,
     MathOverflow, DefaultAddress,
     BadExposureCaps, BadNewAdmin, NotProposedAdmin, NotCounterparty]"

definition error_position :: "shake_error \<Rightarrow> nat" where
  "error_position e = length (takeWhile (\<lambda>x. x \<noteq> e) shake_errors)"

text \<open>Anchor numbers a program's error codes from 6000, by position.\<close>

definition error_number :: "shake_error \<Rightarrow> nat" where
  "error_number e = 6000 + error_position e"

lemma shake_errors_distinct: "distinct shake_errors"
  by (simp add: shake_errors_def)

lemma shake_errors_nth: "shake_errors ! error_position e = e"
  by (cases e) (simp_all add: error_position_def shake_errors_def)

lemma error_position_inj: "error_position d = error_position e \<Longrightarrow> d = e"
  by (metis shake_errors_nth)

lemma error_number_inj: "error_number d = error_number e \<longleftrightarrow> d = e"
  by (auto simp: error_number_def dest: error_position_inj)

text \<open>The errors are ordered by their numbers, as clients that map codes to names see them.\<close>

instantiation shake_error :: linorder
begin

definition less_eq_shake_error :: "shake_error \<Rightarrow> shake_error \<Rightarrow> bool" where
  "less_eq_shake_error d e = (error_number d \<le> error_number e)"

definition less_shake_error :: "shake_error \<Rightarrow> shake_error \<Rightarrow> bool" where
  "less_shake_error d e = (error_number d < error_number e)"

instance
  by standard (auto simp: less_eq_shake_error_def less_shake_error_def error_number_inj)

end

text \<open>Failures of the framework's account validation that the source's attributes can raise.\<close>

datatype anchor_error =
    AccountNotSigner
  | AccountNotInitialized
  | AccountDiscriminatorMismatch
  | AccountOwnedByWrongProgram
  | InvalidProgramId
  | ConstraintSeeds
  | ConstraintTokenOwner
  | ConstraintTokenMint
  | ConstraintAssociated
  | ConstraintClose
  | ConstraintDuplicateMutableAccount

datatype panic = ArithmeticOverflow | IndexOutOfBounds

datatype error =
    Shake shake_error
  | Anchor anchor_error
  | Cpi nat
  | MissingSignature
  | Panic panic

end
