(* ===== verification/Shake_State.thy ===== *)
theory Shake_State
  imports Shake_Error
begin

text \<open>
  The on-chain data of the program (\<^verbatim>\<open>state.rs\<close>, \<^verbatim>\<open>constants.rs\<close>, \<^verbatim>\<open>events.rs\<close>): the four
  account types with the source's fields in the source's order, the methods of their
  \<^verbatim>\<open>impl\<close> blocks, the PDA seeds, and the events. A field \<^verbatim>\<open>f\<close> of \<^verbatim>\<open>Config\<close> is \<open>c_f\<close> here, one
  of \<^verbatim>\<open>Wager\<close> is \<open>w_f\<close>, one of \<^verbatim>\<open>AdminTransfer\<close> is \<open>at_f\<close>, one of \<^verbatim>\<open>ExposureCounter\<close> is \<open>x_f\<close>.
\<close>

section \<open>Constants\<close>

definition CONFIG_SEED :: bytes where
  "CONFIG_SEED = byte_string ''config''"

definition WAGER_SEED :: bytes where
  "WAGER_SEED = byte_string ''wager''"

definition COUNTER_SEED :: bytes where
  "COUNTER_SEED = byte_string ''counter''"

definition ADMIN_TRANSFER_SEED :: bytes where
  "ADMIN_TRANSFER_SEED = byte_string ''admin_transfer''"

definition MAX_FEE_BPS :: u16 where
  "MAX_FEE_BPS = 1000"

definition RESOLVER_ALLOWLIST_LEN :: nat where
  "RESOLVER_ALLOWLIST_LEN = 4"

definition MAX_WINDOW_CAP :: i64 where
  "MAX_WINDOW_CAP = 180 * 86400"

section \<open>Accounts\<close>

record config =
  c_admin :: pubkey
  c_mint :: pubkey
  c_fee_bps :: u16
  c_fee_destination :: pubkey
  c_rent_collector :: pubkey
  c_min_stake :: u64
  c_max_stake :: u64
  c_max_open_per_wallet :: u8
  c_resolver_allowlist :: "pubkey list"
  c_resolver_count :: u8
  c_paused :: bool
  c_max_window :: i64
  c_max_total_open :: u64
  c_total_open_value :: u64
  c_bump :: u8

text \<open>
  \<^verbatim>\<open>self.resolver_allowlist[..self.resolver_count as usize]\<close>: the slice panics when the count
  exceeds the array.
\<close>

definition allowlist_slice :: "config \<Rightarrow> error + pubkey list" where
  "allowlist_slice c =
    require (unat (c_resolver_count c) \<le> length (c_resolver_allowlist c)) (Panic IndexOutOfBounds)
      (Inr (take (unat (c_resolver_count c)) (c_resolver_allowlist c)))"

definition resolver_allowed :: "config \<Rightarrow> pubkey \<Rightarrow> error + bool" where
  "resolver_allowed c key = try_bind (allowlist_slice c) (\<lambda>rs. Inr (key \<in> set rs))"

datatype wager_state = Funding | Active | Resolved | Cancelled

record wager =
  w_state :: wager_state
  w_side_a :: pubkey
  w_side_b :: pubkey
  w_stake :: u64
  w_mint :: pubkey
  w_funded_a :: bool
  w_funded_b :: bool
  w_refunded_a :: bool
  w_refunded_b :: bool
  w_resolver :: pubkey
  w_terms_hash :: hash32
  w_deadline_fund :: i64
  w_deadline_resolve :: i64
  w_fee_bps :: u16
  w_fee_destination :: pubkey
  w_rent_collector :: pubkey
  w_nonce :: u64
  w_cancel_proposed_by :: pubkey
  w_bump :: u8

definition is_participant :: "wager \<Rightarrow> pubkey \<Rightarrow> bool" where
  "is_participant w key \<longleftrightarrow> key = w_side_a w \<or> key = w_side_b w"

text \<open>The participant on the other side.\<close>

definition counterparty :: "wager \<Rightarrow> pubkey \<Rightarrow> pubkey" where
  "counterparty w s = (if s = w_side_a w then w_side_b w else w_side_a w)"

definition fully_exited :: "wager \<Rightarrow> bool" where
  "fully_exited w \<longleftrightarrow>
    (\<not> w_funded_a w \<or> w_refunded_a w) \<and> (\<not> w_funded_b w \<or> w_refunded_b w)"

record admin_transfer =
  at_proposed :: pubkey
  at_bump :: u8

record exposure_counter =
  x_count :: u8
  x_bump :: u8

text \<open>
  The states in the order of a wager's life, which is the order of their declaration.
\<close>

fun state_rank :: "wager_state \<Rightarrow> nat" where
  "state_rank Funding = 0"
| "state_rank Active = 1"
| "state_rank Resolved = 2"
| "state_rank Cancelled = 3"

instantiation wager_state :: linorder
begin

definition less_eq_wager_state :: "wager_state \<Rightarrow> wager_state \<Rightarrow> bool" where
  "less_eq_wager_state s t = (state_rank s \<le> state_rank t)"

definition less_wager_state :: "wager_state \<Rightarrow> wager_state \<Rightarrow> bool" where
  "less_wager_state s t = (state_rank s < state_rank t)"

instance
proof
  fix s t :: wager_state
  show "s \<le> t \<Longrightarrow> t \<le> s \<Longrightarrow> s = t"
    by (cases s; cases t) (simp_all add: less_eq_wager_state_def)
qed (auto simp: less_eq_wager_state_def less_wager_state_def)

end

text \<open>
  The data of an account the program owns. Anchor tells the types apart by discriminator, so
  an account of one type never deserializes as another.
\<close>

datatype account_data =
    ConfigAcc config
  | WagerAcc wager
  | TransferAcc admin_transfer
  | CounterAcc exposure_counter

section \<open>Account sizes\<close>

text \<open>
  \<^verbatim>\<open>INIT_SPACE\<close>: the sum of the fields' serialized sizes (a key is 32 bytes, a field-less enum 1),
  in the order of the fields. Every account adds 8 bytes of discriminator.
\<close>

definition CONFIG_INIT_SPACE :: nat where
  "CONFIG_INIT_SPACE =
    32 + 32 + 2 + 32 + 32 + 8 + 8 + 1 + 32 * RESOLVER_ALLOWLIST_LEN + 1 + 1 + 8 + 8 + 8 + 1"

definition WAGER_INIT_SPACE :: nat where
  "WAGER_INIT_SPACE =
    1 + 32 + 32 + 8 + 32 + 1 + 1 + 1 + 1 + 32 + 32 + 8 + 8 + 2 + 32 + 32 + 8 + 32 + 1"

definition ADMIN_TRANSFER_INIT_SPACE :: nat where
  "ADMIN_TRANSFER_INIT_SPACE = 32 + 1"

definition COUNTER_INIT_SPACE :: nat where
  "COUNTER_INIT_SPACE = 1 + 1"

section \<open>PDA seeds\<close>

definition config_seeds :: "bytes list" where
  "config_seeds = [CONFIG_SEED]"

definition wager_seeds :: "pubkey \<Rightarrow> u64 \<Rightarrow> bytes list" where
  "wager_seeds a n = [WAGER_SEED, key_bytes a, to_le_bytes n]"

definition counter_seeds :: "pubkey \<Rightarrow> bytes list" where
  "counter_seeds wallet = [COUNTER_SEED, key_bytes wallet]"

definition admin_transfer_seeds :: "bytes list" where
  "admin_transfer_seeds = [ADMIN_TRANSFER_SEED]"

text \<open>The seeds a wager signs with: those of its address, its bump last.\<close>

definition signer_seeds :: "wager \<Rightarrow> bytes list" where
  "signer_seeds w = wager_seeds (w_side_a w) (w_nonce w) @ [[w_bump w]]"

section \<open>Events\<close>

datatype event =
    WagerCreated (e_wager: pubkey) (e_side_a: pubkey) (e_side_b: pubkey) (e_stake: u64)
      (e_mint: pubkey) (e_resolver: pubkey) (e_terms_hash: hash32) (e_deadline_fund: i64)
      (e_deadline_resolve: i64) (e_nonce: u64)
  | SideStaked (e_wager: pubkey) (e_staker: pubkey) (e_is_side_a: bool) (e_amount: u64)
      (e_now_active: bool)
  | SideUnstaked (e_wager: pubkey) (e_staker: pubkey) (e_amount: u64)
  | WagerResolved (e_wager: pubkey) (e_winner: pubkey) (e_payout: u64) (e_fee: u64)
  | SideRefunded (e_wager: pubkey) (e_side: pubkey) (e_amount: u64)
  | CancelProposed (e_wager: pubkey) (e_by: pubkey)
  | CancelCleared (e_wager: pubkey) (e_by: pubkey)
  | WagerCancelled (e_wager: pubkey)
  | WagerConceded (e_wager: pubkey) (e_conceder: pubkey) (e_winner: pubkey) (e_payout: u64)
      (e_fee: u64)
  | AdminTransferProposed (e_proposed: pubkey)
  | AdminTransferred (e_previous: pubkey) (e_admin: pubkey)
  | AdminTransferCancelled (e_proposed: pubkey)
  | WagerClosed (e_wager: pubkey) (e_surplus_swept: u64)

section \<open>Facts about the data\<close>

text \<open>
  What an account still owes its sides: the stake of each side that funded and has not
  exited. The vault of the wager has to hold at least this much.
\<close>

definition open_a :: "wager \<Rightarrow> bool" where
  "open_a w \<longleftrightarrow> w_funded_a w \<and> \<not> w_refunded_a w"

definition open_b :: "wager \<Rightarrow> bool" where
  "open_b w \<longleftrightarrow> w_funded_b w \<and> \<not> w_refunded_b w"

definition owed :: "wager \<Rightarrow> nat" where
  "owed w = (if open_a w then unat (w_stake w) else 0) + (if open_b w then unat (w_stake w) else 0)"

lemma fully_exited_iff: "fully_exited w \<longleftrightarrow> \<not> open_a w \<and> \<not> open_b w"
  by (auto simp: fully_exited_def open_a_def open_b_def)

lemma fully_exited_owed: "fully_exited w \<Longrightarrow> owed w = 0"
  by (simp add: fully_exited_iff owed_def)

lemma resolver_allowed_Inr:
  "resolver_allowed c k = Inr b \<longleftrightarrow>
    unat (c_resolver_count c) \<le> length (c_resolver_allowlist c) \<and>
    b = (k \<in> set (take (unat (c_resolver_count c)) (c_resolver_allowlist c)))"
  by (auto simp: resolver_allowed_def allowlist_slice_def result_simps)

lemma MAX_WINDOW_CAP_seconds: "sint MAX_WINDOW_CAP = 15552000"
  by (simp add: MAX_WINDOW_CAP_def)

lemma seed_lengths [simp]:
  "length CONFIG_SEED = 6" "length WAGER_SEED = 5"
  "length COUNTER_SEED = 7" "length ADMIN_TRANSFER_SEED = 14"
  by (simp_all add: CONFIG_SEED_def WAGER_SEED_def COUNTER_SEED_def ADMIN_TRANSFER_SEED_def)

lemma wager_seeds_inj: "wager_seeds a n = wager_seeds a' n' \<longleftrightarrow> a = a' \<and> n = n'"
  by (simp add: wager_seeds_def key_bytes_inj to_le_bytes_inj)

lemma counter_seeds_inj: "counter_seeds x = counter_seeds y \<longleftrightarrow> x = y"
  by (simp add: counter_seeds_def key_bytes_inj)

text \<open>
  The address derivation hashes the seeds one after the other, without their lengths. The
  concatenations stay apart all the same: their total lengths differ between the kinds.
\<close>

lemma seeds_total_length:
  "length (concat config_seeds) = 6"
  "length (concat (wager_seeds a n)) = 45"
  "length (concat (counter_seeds x)) = 39"
  "length (concat admin_transfer_seeds) = 14"
  by (simp_all add: config_seeds_def wager_seeds_def counter_seeds_def admin_transfer_seeds_def)

lemma concat_wager_seeds_inj:
  "concat (wager_seeds a n) = concat (wager_seeds a' n') \<longleftrightarrow> a = a' \<and> n = n'"
  by (auto simp: wager_seeds_def key_bytes_inj to_le_bytes_inj append_eq_append_conv)

lemma concat_counter_seeds_inj:
  "concat (counter_seeds x) = concat (counter_seeds y) \<longleftrightarrow> x = y"
  by (simp add: counter_seeds_def key_bytes_inj)

end
