(* ===== verification/Runtime.thy ===== *)
theory Runtime
  imports Shake_State
begin

text \<open>
  The world an instruction runs in, and the interface to the code that is not in the
  repository: the Solana runtime, the SPL token programs and the Anchor framework. Their
  operations are the fields of the record \<open>env\<close>, an argument of every instruction; the
  locale \<open>runtime\<close> states the documented behaviour the program relies on. The functions of
  the middle section give the account attributes of the source (\<^verbatim>\<open>Signer\<close>, \<^verbatim>\<open>seeds\<close>,
  \<^verbatim>\<open>associated_token\<close>, \<^verbatim>\<open>init\<close>, \<^verbatim>\<open>close\<close>) their meaning over that interface.
\<close>

section \<open>The world\<close>

record token_account =
  t_owner :: pubkey
  t_mint :: pubkey
  t_amount :: u64
  t_frozen :: bool
  t_close_authority :: "pubkey option"

text \<open>
  What belongs to other programs: the token accounts, the lamports of every address, and the
  addresses that hold a mint.
\<close>

record ledger =
  tokens :: "pubkey \<Rightarrow> token_account option"
  lamports :: "pubkey \<Rightarrow> nat"
  mints :: "pubkey set"

text \<open>
  The world: the accounts the program owns, the ledger, the cluster's clock, the upgrade
  authorities recorded in program data accounts, and the events emitted so far.
\<close>

record world =
  accts :: "pubkey \<Rightarrow> account_data option"
  ledger :: ledger
  clock :: i64
  program_data :: "pubkey \<Rightarrow> pubkey option option"
  events :: "event list"

text \<open>
  The operations of other code. \<open>create_pda\<close> and \<open>find_pda\<close> are the runtime's address
  derivation (the bump is the last seed of \<open>create_pda\<close>); \<open>ata_address wallet mint\<close> is the
  canonical token account; \<open>spl_transfer from to authority amount\<close> and
  \<open>spl_close_account account destination authority\<close> are the token program's; a failing call
  returns its error number. \<open>mut_guard\<close> is Anchor's check of the keys of an instruction's
  mutable accounts for duplicates.
\<close>

record env =
  create_pda :: "bytes list \<Rightarrow> pubkey option"
  find_pda :: "bytes list \<Rightarrow> pubkey \<times> u8"
  ata_address :: "pubkey \<Rightarrow> pubkey \<Rightarrow> pubkey"
  spl_transfer :: "pubkey \<Rightarrow> pubkey \<Rightarrow> pubkey \<Rightarrow> u64 \<Rightarrow> ledger \<Rightarrow> nat + ledger"
  spl_close_account :: "pubkey \<Rightarrow> pubkey \<Rightarrow> pubkey \<Rightarrow> ledger \<Rightarrow> nat + ledger"
  create_account :: "pubkey \<Rightarrow> pubkey \<Rightarrow> nat \<Rightarrow> ledger \<Rightarrow> nat + ledger"
  create_ata :: "pubkey \<Rightarrow> pubkey \<Rightarrow> pubkey \<Rightarrow> ledger \<Rightarrow> nat + ledger"
  mut_guard :: "pubkey list \<Rightarrow> bool"
  program_id :: pubkey
  token_program_id :: pubkey
  ata_program_id :: pubkey
  system_program_id :: pubkey
  native_mint :: pubkey
  programdata_address :: "pubkey option"

section \<open>The account attributes\<close>

text \<open>
  An account that does not have the type asked for: without lamports it is not initialized, with
  lamports it belongs to another program.
\<close>

definition missing_account :: "ledger \<Rightarrow> pubkey \<Rightarrow> error" where
  "missing_account L k =
    Anchor (if lamports L k = 0 then AccountNotInitialized else AccountOwnedByWrongProgram)"

text \<open>\<^verbatim>\<open>Account<'info, T>\<close>: the account exists and its discriminator is that of \<^verbatim>\<open>T\<close>.\<close>

definition load_config :: "world \<Rightarrow> pubkey \<Rightarrow> error + config" where
  "load_config W k = (case accts W k of
     None \<Rightarrow> Inl (missing_account (ledger W) k)
   | Some (ConfigAcc c) \<Rightarrow> Inr c
   | Some _ \<Rightarrow> Inl (Anchor AccountDiscriminatorMismatch))"

definition load_wager :: "world \<Rightarrow> pubkey \<Rightarrow> error + wager" where
  "load_wager W k = (case accts W k of
     None \<Rightarrow> Inl (missing_account (ledger W) k)
   | Some (WagerAcc w) \<Rightarrow> Inr w
   | Some _ \<Rightarrow> Inl (Anchor AccountDiscriminatorMismatch))"

definition load_transfer :: "world \<Rightarrow> pubkey \<Rightarrow> error + admin_transfer" where
  "load_transfer W k = (case accts W k of
     None \<Rightarrow> Inl (missing_account (ledger W) k)
   | Some (TransferAcc t) \<Rightarrow> Inr t
   | Some _ \<Rightarrow> Inl (Anchor AccountDiscriminatorMismatch))"

definition load_counter :: "world \<Rightarrow> pubkey \<Rightarrow> error + exposure_counter" where
  "load_counter W k = (case accts W k of
     None \<Rightarrow> Inl (missing_account (ledger W) k)
   | Some (CounterAcc x) \<Rightarrow> Inr x
   | Some _ \<Rightarrow> Inl (Anchor AccountDiscriminatorMismatch))"

definition load_token :: "ledger \<Rightarrow> pubkey \<Rightarrow> error + token_account" where
  "load_token L k = ok_or (tokens L k) (missing_account L k)"

text \<open>\<^verbatim>\<open>seeds = s, bump = b\<close>: the account is the address derived from the seeds and this bump.\<close>

definition pda_at :: "env \<Rightarrow> bytes list \<Rightarrow> u8 \<Rightarrow> pubkey \<Rightarrow> bool" where
  "pda_at E s b k \<longleftrightarrow> create_pda E (s @ [[b]]) = Some k"

lemma pda_at_signer_seeds:
  "pda_at E (wager_seeds (w_side_a w) (w_nonce w)) (w_bump w) k \<longleftrightarrow>
    create_pda E (signer_seeds w) = Some k"
  by (simp add: pda_at_def signer_seeds_def)

text \<open>
  \<^verbatim>\<open>associated_token::mint = m, associated_token::authority = o\<close> on an existing account: its
  owner is \<^verbatim>\<open>o\<close> and its address is the one derived from \<^verbatim>\<open>o\<close> and \<^verbatim>\<open>m\<close>.
\<close>

definition check_ata :: "env \<Rightarrow> pubkey \<Rightarrow> token_account \<Rightarrow> pubkey \<Rightarrow> pubkey \<Rightarrow> error + unit" where
  "check_ata E k v m wallet =
    require (t_owner v = wallet) (Anchor ConstraintTokenOwner)
      (require (k = ata_address E wallet m) (Anchor ConstraintAssociated) (Inr ()))"

text \<open>
  \<^verbatim>\<open>init\<close>: the address must be free; the system program creates the account at the payer's
  expense. An address in use is the system program's error 0.
\<close>

definition init_account :: "env \<Rightarrow> pubkey \<Rightarrow> pubkey \<Rightarrow> nat \<Rightarrow> world \<Rightarrow> error + world" where
  "init_account E payer k space W =
    require (accts W k = None) (Cpi 0)
      (try_bind (map_err Cpi (create_account E payer k space (ledger W))) (\<lambda>L.
       Inr (W\<lparr>ledger := L\<rparr>)))"

text \<open>
  \<^verbatim>\<open>init_if_needed\<close> with seeds: the address is the derived one; an existing account is loaded, an
  absent one is created with all fields zero. The result is the account's data and the world
  after the creation.
\<close>

definition init_if_needed_transfer ::
  "env \<Rightarrow> pubkey \<Rightarrow> pubkey \<Rightarrow> bytes list \<Rightarrow> world \<Rightarrow> error + admin_transfer \<times> world" where
  "init_if_needed_transfer E payer k seeds W =
    require (k = fst (find_pda E seeds)) (Anchor ConstraintSeeds)
      (if accts W k = None
       then try_bind (init_account E payer k (8 + ADMIN_TRANSFER_INIT_SPACE) W) (\<lambda>W1.
            Inr (\<lparr>at_proposed = default_key, at_bump = 0\<rparr>, W1))
       else try_bind (load_transfer W k) (\<lambda>t. Inr (t, W)))"

definition init_if_needed_counter ::
  "env \<Rightarrow> pubkey \<Rightarrow> pubkey \<Rightarrow> bytes list \<Rightarrow> world \<Rightarrow> error + exposure_counter \<times> world" where
  "init_if_needed_counter E payer k seeds W =
    require (k = fst (find_pda E seeds)) (Anchor ConstraintSeeds)
      (if accts W k = None
       then try_bind (init_account E payer k (8 + COUNTER_INIT_SPACE) W) (\<lambda>W1.
            Inr (\<lparr>x_count = 0, x_bump = 0\<rparr>, W1))
       else try_bind (load_counter W k) (\<lambda>x. Inr (x, W)))"

text \<open>
  \<^verbatim>\<open>init_if_needed\<close> on an associated token account: created when absent; otherwise its owner,
  mint and address are checked. An account of this program is in the wrong hands.
\<close>

definition init_if_needed_ata ::
  "env \<Rightarrow> pubkey \<Rightarrow> pubkey \<Rightarrow> pubkey \<Rightarrow> pubkey \<Rightarrow> world \<Rightarrow> error + world" where
  "init_if_needed_ata E payer k m wallet W =
    (case tokens (ledger W) k of
       None \<Rightarrow>
         require (accts W k = None) (Anchor AccountOwnedByWrongProgram)
         (require (k = ata_address E wallet m) (Anchor ConstraintAssociated)
           (try_bind (map_err Cpi (create_ata E payer wallet m (ledger W))) (\<lambda>L.
            Inr (W\<lparr>ledger := L\<rparr>))))
     | Some v \<Rightarrow>
         require (t_mint v = m) (Anchor ConstraintTokenMint)
           (require (t_owner v = wallet) (Anchor ConstraintTokenOwner)
             (require (k = ata_address E wallet m) (Anchor ConstraintAssociated)
               (Inr W))))"

text \<open>An account written back at the end of the instruction.\<close>

definition put_acct :: "pubkey \<Rightarrow> account_data \<Rightarrow> world \<Rightarrow> world" where
  "put_acct k d W = W\<lparr>accts := (accts W)(k \<mapsto> d)\<rparr>"

text \<open>All the lamports of one address move to another.\<close>

definition drain_lamports :: "pubkey \<Rightarrow> pubkey \<Rightarrow> (pubkey \<Rightarrow> nat) \<Rightarrow> pubkey \<Rightarrow> nat" where
  "drain_lamports k dest f = f(k := 0, dest := f dest + f k)"

text \<open>
  \<^verbatim>\<open>close = dest\<close>: at the end of the instruction the account is gone and its lamports are
  \<^verbatim>\<open>dest\<close>'s. That \<^verbatim>\<open>dest\<close> is another account is a constraint of its own.
\<close>

definition close_acct :: "pubkey \<Rightarrow> pubkey \<Rightarrow> world \<Rightarrow> world" where
  "close_acct k dest W =
    W\<lparr>accts := (accts W)(k := None),
      ledger := (ledger W)\<lparr>lamports := drain_lamports k dest (lamports (ledger W))\<rparr>\<rparr>"

definition emit_cpi :: "event \<Rightarrow> world \<Rightarrow> world" where
  "emit_cpi e W = W\<lparr>events := events W @ [e]\<rparr>"

section \<open>Calls to the token program\<close>

text \<open>
  \<^verbatim>\<open>CpiContext::new_with_signer\<close>: the runtime accepts the authority as a signer when the given
  seeds, bump included, derive it.
\<close>

definition transfer_with_seeds ::
  "env \<Rightarrow> bytes list \<Rightarrow> pubkey \<Rightarrow> pubkey \<Rightarrow> pubkey \<Rightarrow> u64 \<Rightarrow> ledger \<Rightarrow> error + ledger" where
  "transfer_with_seeds E seeds authority from to n L =
    require (create_pda E seeds = Some authority) MissingSignature
      (map_err Cpi (spl_transfer E from to authority n L))"

definition close_with_seeds ::
  "env \<Rightarrow> bytes list \<Rightarrow> pubkey \<Rightarrow> pubkey \<Rightarrow> pubkey \<Rightarrow> ledger \<Rightarrow> error + ledger" where
  "close_with_seeds E seeds authority account dest L =
    require (create_pda E seeds = Some authority) MissingSignature
      (map_err Cpi (spl_close_account E account dest authority L))"

text \<open>\<^verbatim>\<open>CpiContext::new\<close>: the authority signed the transaction itself.\<close>

definition transfer_signed ::
  "env \<Rightarrow> pubkey set \<Rightarrow> pubkey \<Rightarrow> pubkey \<Rightarrow> pubkey \<Rightarrow> u64 \<Rightarrow> ledger \<Rightarrow> error + ledger" where
  "transfer_signed E sg authority from to n L =
    require (authority \<in> sg) MissingSignature
      (map_err Cpi (spl_transfer E from to authority n L))"

section \<open>When the attributes hold\<close>

lemma load_config_Inr [result_simps]: "load_config W k = Inr c \<longleftrightarrow> accts W k = Some (ConfigAcc c)"
  by (auto simp: load_config_def split: option.splits account_data.splits)

lemma load_wager_Inr [result_simps]: "load_wager W k = Inr w \<longleftrightarrow> accts W k = Some (WagerAcc w)"
  by (auto simp: load_wager_def split: option.splits account_data.splits)

lemma load_transfer_Inr [result_simps]:
  "load_transfer W k = Inr t \<longleftrightarrow> accts W k = Some (TransferAcc t)"
  by (auto simp: load_transfer_def split: option.splits account_data.splits)

lemma load_counter_Inr [result_simps]:
  "load_counter W k = Inr x \<longleftrightarrow> accts W k = Some (CounterAcc x)"
  by (auto simp: load_counter_def split: option.splits account_data.splits)

lemma load_token_Inr [result_simps]: "load_token L k = Inr v \<longleftrightarrow> tokens L k = Some v"
  by (simp add: load_token_def result_simps)

lemma check_ata_Inr [result_simps]:
  "check_ata E k v m o' = Inr u \<longleftrightarrow> t_owner v = o' \<and> k = ata_address E o' m"
  by (simp add: check_ata_def result_simps)

lemma init_account_Inr [result_simps]:
  "init_account E p k n W = Inr W' \<longleftrightarrow>
    accts W k = None \<and> (\<exists>L. create_account E p k n (ledger W) = Inr L \<and> W' = W\<lparr>ledger := L\<rparr>)"
  by (auto simp: init_account_def result_simps)

lemma init_if_needed_transfer_Inr [result_simps]:
  "init_if_needed_transfer E p k s W = Inr (t, W') \<longleftrightarrow>
    k = fst (find_pda E s) \<and>
    (accts W k = None \<and> t = \<lparr>at_proposed = default_key, at_bump = 0\<rparr> \<and>
       (\<exists>L. create_account E p k (8 + ADMIN_TRANSFER_INIT_SPACE) (ledger W) = Inr L \<and>
         W' = W\<lparr>ledger := L\<rparr>) \<or>
     accts W k = Some (TransferAcc t) \<and> W' = W)"
  by (auto simp: init_if_needed_transfer_def result_simps)

lemma init_if_needed_counter_Inr [result_simps]:
  "init_if_needed_counter E p k s W = Inr (x, W') \<longleftrightarrow>
    k = fst (find_pda E s) \<and>
    (accts W k = None \<and> x = \<lparr>x_count = 0, x_bump = 0\<rparr> \<and>
       (\<exists>L. create_account E p k (8 + COUNTER_INIT_SPACE) (ledger W) = Inr L \<and>
         W' = W\<lparr>ledger := L\<rparr>) \<or>
     accts W k = Some (CounterAcc x) \<and> W' = W)"
  by (auto simp: init_if_needed_counter_def result_simps)

lemma init_if_needed_ata_Inr [result_simps]:
  "init_if_needed_ata E p k m o' W = Inr W' \<longleftrightarrow>
    k = ata_address E o' m \<and>
    (tokens (ledger W) k = None \<and> accts W k = None \<and>
       (\<exists>L. create_ata E p o' m (ledger W) = Inr L \<and> W' = W\<lparr>ledger := L\<rparr>) \<or>
     (\<exists>v. tokens (ledger W) k = Some v \<and> t_mint v = m \<and> t_owner v = o' \<and> W' = W))"
  by (auto simp: init_if_needed_ata_def result_simps split: option.splits)

lemma transfer_with_seeds_Inr [result_simps]:
  "transfer_with_seeds E s a f t n L = Inr L' \<longleftrightarrow>
    create_pda E s = Some a \<and> spl_transfer E f t a n L = Inr L'"
  by (simp add: transfer_with_seeds_def result_simps)

lemma close_with_seeds_Inr [result_simps]:
  "close_with_seeds E s a k d L = Inr L' \<longleftrightarrow>
    create_pda E s = Some a \<and> spl_close_account E k d a L = Inr L'"
  by (simp add: close_with_seeds_def result_simps)

lemma transfer_signed_Inr [result_simps]:
  "transfer_signed E sg a f t n L = Inr L' \<longleftrightarrow> a \<in> sg \<and> spl_transfer E f t a n L = Inr L'"
  by (simp add: transfer_signed_def result_simps)

named_theorems world_simps \<open>the parts of the world after a write\<close>

lemma put_acct_simps [world_simps, simp]:
  "accts (put_acct k d W) = (accts W)(k \<mapsto> d)"
  "ledger (put_acct k d W) = ledger W"
  "clock (put_acct k d W) = clock W"
  "program_data (put_acct k d W) = program_data W"
  "events (put_acct k d W) = events W"
  by (simp_all add: put_acct_def)

lemma close_acct_simps [world_simps, simp]:
  "accts (close_acct k dest W) = (accts W)(k := None)"
  "tokens (ledger (close_acct k dest W)) = tokens (ledger W)"
  "mints (ledger (close_acct k dest W)) = mints (ledger W)"
  "lamports (ledger (close_acct k dest W)) = drain_lamports k dest (lamports (ledger W))"
  "clock (close_acct k dest W) = clock W"
  "program_data (close_acct k dest W) = program_data W"
  "events (close_acct k dest W) = events W"
  by (simp_all add: close_acct_def)

lemma emit_cpi_simps [world_simps, simp]:
  "accts (emit_cpi e W) = accts W"
  "ledger (emit_cpi e W) = ledger W"
  "clock (emit_cpi e W) = clock W"
  "program_data (emit_cpi e W) = program_data W"
  "events (emit_cpi e W) = events W @ [e]"
  by (simp_all add: emit_cpi_def)

section \<open>Token balances\<close>

definition amount_at :: "(pubkey \<Rightarrow> token_account option) \<Rightarrow> pubkey \<Rightarrow> nat" where
  "amount_at T k = (case T k of None \<Rightarrow> 0 | Some v \<Rightarrow> unat (t_amount v))"

text \<open>The balances of a mint, for its total supply.\<close>

definition amount_of_mint :: "pubkey \<Rightarrow> (pubkey \<Rightarrow> token_account option) \<Rightarrow> pubkey \<Rightarrow> nat" where
  "amount_of_mint m T k = (case T k of None \<Rightarrow> 0
     | Some v \<Rightarrow> (if t_mint v = m then unat (t_amount v) else 0))"

definition total_supply :: "pubkey \<Rightarrow> (pubkey \<Rightarrow> token_account option) \<Rightarrow> nat" where
  "total_supply m T = (\<Sum>k\<in>UNIV. amount_of_mint m T k)"

text \<open>The effect of a transfer on the token accounts; to the same account it moves nothing.\<close>

definition move_tokens ::
  "pubkey \<Rightarrow> pubkey \<Rightarrow> u64 \<Rightarrow> (pubkey \<Rightarrow> token_account option) \<Rightarrow> pubkey \<Rightarrow> token_account option"
where
  "move_tokens f t n T =
    (if f = t then T
     else T(f := map_option (\<lambda>v. v\<lparr>t_amount := t_amount v - n\<rparr>) (T f),
            t := map_option (\<lambda>v. v\<lparr>t_amount := t_amount v + n\<rparr>) (T t)))"

lemma amount_at_Some [simp]: "T k = Some v \<Longrightarrow> amount_at T k = unat (t_amount v)"
  by (simp add: amount_at_def)

lemma amount_at_None [simp]: "T k = None \<Longrightarrow> amount_at T k = 0"
  by (simp add: amount_at_def)

lemma move_tokens_other: "k \<noteq> f \<Longrightarrow> k \<noteq> t \<Longrightarrow> move_tokens f t n T k = T k"
  by (simp add: move_tokens_def)

lemma move_tokens_self [simp]: "move_tokens f f n T = T"
  by (simp add: move_tokens_def)

lemma move_tokens_from:
  "f \<noteq> t \<Longrightarrow> T f = Some v \<Longrightarrow> move_tokens f t n T f = Some (v\<lparr>t_amount := t_amount v - n\<rparr>)"
  by (simp add: move_tokens_def)

lemma move_tokens_to:
  "f \<noteq> t \<Longrightarrow> T t = Some v \<Longrightarrow> move_tokens f t n T t = Some (v\<lparr>t_amount := t_amount v + n\<rparr>)"
  by (simp add: move_tokens_def)

text \<open>
  What a token account is apart from its amount. The token accounts are determined by this
  and by the amounts, and a transfer changes the amounts only.
\<close>

definition token_data ::
  "(pubkey \<Rightarrow> token_account option) \<Rightarrow> pubkey \<Rightarrow> token_account option" where
  "token_data T k = map_option (\<lambda>v. v\<lparr>t_amount := 0\<rparr>) (T k)"

lemma token_data_move_tokens [simp]: "token_data (move_tokens f t n T) = token_data T"
  by (auto simp: token_data_def move_tokens_def option.map_comp o_def)

lemma token_data_fun_upd [simp]:
  "token_data (T(k := x)) = (token_data T)(k := map_option (\<lambda>v. v\<lparr>t_amount := 0\<rparr>) x)"
  by (auto simp: token_data_def)

lemma token_data_None: "token_data T k = None \<longleftrightarrow> T k = None"
  by (simp add: token_data_def)

lemma token_data_Some:
  assumes "token_data T' k = token_data T k" "T k = Some v"
  obtains v' where "T' k = Some v'" "t_owner v' = t_owner v" "t_mint v' = t_mint v"
    "t_frozen v' = t_frozen v" "t_close_authority v' = t_close_authority v"
proof -
  obtain v' where "T' k = Some v'" and "v'\<lparr>t_amount := 0\<rparr> = v\<lparr>t_amount := 0\<rparr>"
    using assms by (auto simp: token_data_def)
  then show thesis using that by (cases v; cases v') auto
qed

lemma amount_at_fun_upd [simp]:
  "amount_at (T(k := x)) j = (if j = k then (case x of None \<Rightarrow> 0 | Some v \<Rightarrow> unat (t_amount v)) else amount_at T j)"
  by (simp add: amount_at_def)

lemma move_tokens_None: "move_tokens f t n T k = None \<longleftrightarrow> T k = None"
  by (simp add: move_tokens_def)

section \<open>The documented behaviour of the other code\<close>

text \<open>
  A successful transfer debits one account and credits the other of the same mint, within
  the balance and without overflow; it changes no lamports unless the mint is the native one, and
  then only those of the two accounts.
  It succeeds for the owner of an unfrozen account with the balance, towards an unfrozen
  account of the same mint with room. An account is closed only when it is empty or native,
  to another address, which gets its lamports; the owner of an empty account without a
  separate close authority can close it. The guard on mutable accounts refuses a key listed
  twice, and nothing else.
\<close>

locale runtime =
  fixes E :: env
  assumes find_create: "find_pda E s = (k, b) \<Longrightarrow> create_pda E (s @ [[b]]) = Some k"
    and transfer_effect:
      "spl_transfer E f t a n L = Inr L' \<Longrightarrow>
        \<exists>sf st. tokens L f = Some sf \<and> tokens L t = Some st \<and> t_mint sf = t_mint st \<and>
          n \<le> t_amount sf \<and> (f \<noteq> t \<longrightarrow> unat (t_amount st) + unat n < 2 ^ 64) \<and>
          tokens L' = move_tokens f t n (tokens L) \<and> mints L' = mints L"
    and transfer_lamports:
      "spl_transfer E f t a n L = Inr L' \<Longrightarrow> tokens L f = Some sf \<Longrightarrow>
        t_mint sf \<noteq> native_mint E \<Longrightarrow> lamports L' = lamports L"
    and transfer_frame:
      "spl_transfer E f t a n L = Inr L' \<Longrightarrow> x \<noteq> f \<Longrightarrow> x \<noteq> t \<Longrightarrow>
        lamports L' x = lamports L x"
    and transfer_enabled:
      "tokens L f = Some sf \<Longrightarrow> tokens L t = Some st \<Longrightarrow> t_owner sf = a \<Longrightarrow>
        t_mint sf = t_mint st \<Longrightarrow> \<not> t_frozen sf \<Longrightarrow> \<not> t_frozen st \<Longrightarrow> n \<le> t_amount sf \<Longrightarrow>
        f \<noteq> t \<Longrightarrow> unat (t_amount st) + unat n < 2 ^ 64 \<Longrightarrow>
        \<exists>L'. spl_transfer E f t a n L = Inr L'"
    and close_effect:
      "spl_close_account E k d a L = Inr L' \<Longrightarrow>
        \<exists>v. tokens L k = Some v \<and> (t_amount v = 0 \<or> t_mint v = native_mint E) \<and> d \<noteq> k \<and>
          tokens L' = (tokens L)(k := None) \<and> mints L' = mints L \<and>
          lamports L' = drain_lamports k d (lamports L)"
    and close_enabled:
      "tokens L k = Some v \<Longrightarrow> t_owner v = a \<Longrightarrow> t_close_authority v = None \<Longrightarrow>
        t_amount v = 0 \<Longrightarrow> \<not> t_frozen v \<Longrightarrow> d \<noteq> k \<Longrightarrow>
        \<exists>L'. spl_close_account E k d a L = Inr L'"
    and create_account_effect:
      "create_account E p k sz L = Inr L' \<Longrightarrow>
        tokens L k = None \<and> tokens L' = tokens L \<and> mints L' = mints L \<and>
        (\<forall>x. x \<noteq> p \<and> x \<noteq> k \<longrightarrow> lamports L' x = lamports L x)"
    and create_ata_effect:
      "create_ata E p wallet m L = Inr L' \<Longrightarrow>
        tokens L (ata_address E wallet m) = None \<and>
        (\<exists>v. t_owner v = wallet \<and> t_mint v = m \<and> t_close_authority v = None \<and>
          (m \<noteq> native_mint E \<longrightarrow> t_amount v = 0) \<and>
          tokens L' = (tokens L)(ata_address E wallet m \<mapsto> v)) \<and> mints L' = mints L \<and>
        (\<forall>x. x \<noteq> p \<and> x \<noteq> ata_address E wallet m \<longrightarrow> lamports L' x = lamports L x)"
    and mut_guard_iff: "mut_guard E ks \<longleftrightarrow> distinct ks"
begin

text \<open>The same effects as rules that name the accounts involved.\<close>

lemma transferE:
  assumes "spl_transfer E f t a n L = Inr L'"
  obtains sf st where "tokens L f = Some sf" "tokens L t = Some st" "t_mint sf = t_mint st"
    "n \<le> t_amount sf" "f \<noteq> t \<Longrightarrow> unat (t_amount st) + unat n < 2 ^ 64"
    "tokens L' = move_tokens f t n (tokens L)" "mints L' = mints L"
  using transfer_effect [OF assms] by blast

lemma transfer_tokens:
  "spl_transfer E f t a n L = Inr L' \<Longrightarrow> tokens L' = move_tokens f t n (tokens L)"
  by (auto dest: transfer_effect)

lemma transfer_amounts:
  assumes tr: "spl_transfer E f t a n L = Inr L'" and ne: "f \<noteq> t"
  shows "amount_at (tokens L') f + unat n = amount_at (tokens L) f"
    and "amount_at (tokens L') t = amount_at (tokens L) t + unat n"
    and "k \<noteq> f \<Longrightarrow> k \<noteq> t \<Longrightarrow> tokens L' k = tokens L k"
proof -
  obtain sf st where f: "tokens L f = Some sf" and t: "tokens L t = Some st"
    and le: "n \<le> t_amount sf" and room: "unat (t_amount st) + unat n < 2 ^ 64"
    and L': "tokens L' = move_tokens f t n (tokens L)"
    by (rule transferE [OF tr]) (use ne in blast)
  have "unat (t_amount sf - n) + unat n = unat (t_amount sf)"
    using le by (simp add: unat_sub word_le_nat_alt)
  with f L' ne show "amount_at (tokens L') f + unat n = amount_at (tokens L) f"
    by (simp add: move_tokens_from)
  have "unat (t_amount st + n) = unat (t_amount st) + unat n"
    using room by (simp add: unat_add_no_wrap)
  with t L' ne show "amount_at (tokens L') t = amount_at (tokens L) t + unat n"
    by (simp add: move_tokens_to)
  show "tokens L' k = tokens L k" if "k \<noteq> f" "k \<noteq> t"
    using that L' by (simp add: move_tokens_other)
qed

lemma transfer_data:
  "spl_transfer E f t a n L = Inr L' \<Longrightarrow> token_data (tokens L') = token_data (tokens L)"
  by (simp add: transfer_tokens)

lemma transfer_mints: "spl_transfer E f t a n L = Inr L' \<Longrightarrow> mints L' = mints L"
  by (auto dest: transfer_effect)

lemma transfer_bound:
  "spl_transfer E f t a n L = Inr L' \<Longrightarrow> unat n \<le> amount_at (tokens L) f"
  by (auto dest!: transfer_effect simp: word_le_nat_alt)

text \<open>All balances after a transfer.\<close>

lemma transfer_amount_at:
  assumes tr: "spl_transfer E f t a n L = Inr L'"
  shows "amount_at (tokens L') k =
    (if f = t then amount_at (tokens L) k
     else if k = f then amount_at (tokens L) f - unat n
     else if k = t then amount_at (tokens L) t + unat n
     else amount_at (tokens L) k)"
proof (cases "f = t")
  case True
  with transfer_tokens [OF tr] show ?thesis by simp
next
  case False
  note am = transfer_amounts [OF tr False]
  show ?thesis
  proof (cases "k = f \<or> k = t")
    case True
    with am(1,2) False show ?thesis by auto
  next
    case other: False
    with am(3) [of k] have "tokens L' k = tokens L k" by simp
    with other False show ?thesis by (simp add: amount_at_def)
  qed
qed

text \<open>A transfer keeps the supply of every mint.\<close>

lemma transfer_supply:
  assumes tr: "spl_transfer E f t a n L = Inr L'"
  shows "total_supply m (tokens L') = total_supply m (tokens L)"
proof (cases "f = t")
  case True
  with transfer_tokens [OF tr] show ?thesis by simp
next
  case False
  let ?g = "amount_of_mint m (tokens L)" and ?h = "amount_of_mint m (tokens L')"
  obtain sf st where f: "tokens L f = Some sf" and t: "tokens L t = Some st"
    and mint: "t_mint sf = t_mint st" and le: "n \<le> t_amount sf"
    and room: "unat (t_amount st) + unat n < 2 ^ 64"
    and L': "tokens L' = move_tokens f t n (tokens L)"
    by (rule transferE [OF tr]) (use False in blast)
  define mid where "mid = ?g(f := ?h f)"
  have other: "?h k = mid k" if "k \<noteq> t" for k
    using that L' by (cases "k = f") (auto simp: mid_def amount_of_mint_def move_tokens_other)
  have "(\<Sum>k\<in>UNIV. mid k) + ?g f = (\<Sum>k\<in>UNIV. ?g k) + ?h f"
    unfolding mid_def by (rule sum_fun_upd)
  moreover have "(\<Sum>k\<in>UNIV. ?h k) + mid t = (\<Sum>k\<in>UNIV. mid k) + ?h t"
    by (rule sum_update_at) (rule other)
  moreover have "mid t = ?g t" using False by (simp add: mid_def)
  moreover have "?h f + ?h t = ?g f + ?g t"
  proof -
    have "unat (t_amount sf - n) + unat (t_amount st + n) = unat (t_amount sf) + unat (t_amount st)"
      using le room by (simp add: unat_sub unat_add_no_wrap word_le_nat_alt)
    with False f t mint L' show ?thesis
      by (simp add: amount_of_mint_def move_tokens_from move_tokens_to)
  qed
  ultimately show ?thesis by (simp add: total_supply_def)
qed

text \<open>
  A payment out of a vault, skipped when the amount is zero: the form every handler gives to
  its fee and surplus transfers. Both branches have the one description.
\<close>

lemma payment_effect:
  assumes pay: "(if 0 < n then transfer_with_seeds E s a f t n L else Inr L) = Inr L'"
    and v: "tokens L f = Some v"
  shows "unat n \<le> amount_at (tokens L) f"
    and "amount_at (tokens L') k =
      (if f = t then amount_at (tokens L) k
       else if k = f then amount_at (tokens L) f - unat n
       else if k = t then amount_at (tokens L) t + unat n
       else amount_at (tokens L) k)"
    and "token_data (tokens L') = token_data (tokens L)"
    and "mints L' = mints L"
    and "t_mint v \<noteq> native_mint E \<Longrightarrow> lamports L' = lamports L"
proof -
  show "unat n \<le> amount_at (tokens L) f"
    using pay transfer_bound by (auto simp: result_simps word_gt_0 split: if_splits)
  show "amount_at (tokens L') k =
      (if f = t then amount_at (tokens L) k
       else if k = f then amount_at (tokens L) f - unat n
       else if k = t then amount_at (tokens L) t + unat n
       else amount_at (tokens L) k)"
  proof (cases "0 < n")
    case True
    with pay have "spl_transfer E f t a n L = Inr L'" by (simp add: result_simps)
    then show ?thesis by (rule transfer_amount_at)
  next
    case False
    then have "n = 0" by (simp add: word_gt_0)
    with pay show ?thesis by simp
  qed
  show "token_data (tokens L') = token_data (tokens L)"
    using pay transfer_data by (auto simp: result_simps split: if_splits)
  show "mints L' = mints L"
    using pay transfer_mints by (auto simp: result_simps split: if_splits)
  show "t_mint v \<noteq> native_mint E \<Longrightarrow> lamports L' = lamports L"
    using pay v transfer_lamports by (auto simp: result_simps split: if_splits)
qed

lemma closeE:
  assumes "spl_close_account E k d a L = Inr L'"
  obtains v where "tokens L k = Some v" "t_amount v = 0 \<or> t_mint v = native_mint E" "d \<noteq> k"
    "tokens L' = (tokens L)(k := None)" "mints L' = mints L"
    "lamports L' = drain_lamports k d (lamports L)"
  using close_effect [OF assms] by blast

end

end
