(* ===== verification/Books.thy ===== *)
theory Books
  imports Runtime
begin

text \<open>
  What has to hold between instructions: the well-formedness of the accounts, the books (the
  global accumulator and the exposure counters against the wagers), and the backing of every
  wager by its vault. The locale \<open>instruction\<close> is the contract all handlers share; each
  component theory proves it for its own handlers by an interpretation.
\<close>

section \<open>Addresses\<close>

definition config_key :: "env \<Rightarrow> pubkey" where
  "config_key E = fst (find_pda E config_seeds)"

definition counter_key :: "env \<Rightarrow> pubkey \<Rightarrow> pubkey" where
  "counter_key E wallet = fst (find_pda E (counter_seeds wallet))"

definition transfer_key :: "env \<Rightarrow> pubkey" where
  "transfer_key E = fst (find_pda E admin_transfer_seeds)"

definition vault_key :: "env \<Rightarrow> pubkey \<Rightarrow> wager \<Rightarrow> pubkey" where
  "vault_key E k w = ata_address E k (w_mint w)"

text \<open>An address the program derived: nobody holds a private key for it.\<close>

definition is_pda :: "env \<Rightarrow> pubkey \<Rightarrow> bool" where
  "is_pda E k \<longleftrightarrow> (\<exists>s. create_pda E s = Some k)"

definition real_signers :: "env \<Rightarrow> pubkey set \<Rightarrow> bool" where
  "real_signers E sg \<longleftrightarrow> (\<forall>k \<in> sg. \<not> is_pda E k)"

text \<open>
  The runtime together with the collisions the books depend on being absent: no wallet's
  counter seeds, with the bump stored in another wallet's counter, derive that other
  counter's address; and two wallets with one counter address have one bump. Both hold of an
  address derivation without collisions.
\<close>

locale chain = runtime +
  assumes counters_apart:
    "create_pda E (counter_seeds s @ [[snd (find_pda E (counter_seeds s'))]]) =
      Some (counter_key E s') \<Longrightarrow> counter_key E s = counter_key E s'"
    and counter_bumps:
    "counter_key E s = counter_key E s' \<Longrightarrow>
      snd (find_pda E (counter_seeds s)) = snd (find_pda E (counter_seeds s'))"

section \<open>Well-formed accounts\<close>

definition config_wf :: "config \<Rightarrow> bool" where
  "config_wf c \<longleftrightarrow>
    unat (c_fee_bps c) \<le> 1000 \<and>
    0 < c_min_stake c \<and> c_min_stake c \<le> c_max_stake c \<and>
    2 * unat (c_max_stake c) \<le> unat (c_max_total_open c) \<and>
    0 < c_max_open_per_wallet c \<and>
    length (c_resolver_allowlist c) = 4 \<and>
    1 \<le> unat (c_resolver_count c) \<and> unat (c_resolver_count c) \<le> 4 \<and>
    (\<forall>r \<in> set (take (unat (c_resolver_count c)) (c_resolver_allowlist c)). r \<noteq> default_key) \<and>
    0 <s c_max_window c \<and> c_max_window c \<le>s MAX_WINDOW_CAP \<and>
    c_mint c \<noteq> default_key \<and> c_fee_destination c \<noteq> default_key \<and>
    c_rent_collector c \<noteq> default_key"

text \<open>The part of a wager fixed at creation, as it has to be.\<close>

definition terms_wf :: "wager \<Rightarrow> bool" where
  "terms_wf w \<longleftrightarrow>
    w_side_a w \<noteq> w_side_b w \<and> w_side_a w \<noteq> default_key \<and> w_side_b w \<noteq> default_key \<and>
    w_resolver w \<noteq> w_side_a w \<and> w_resolver w \<noteq> w_side_b w \<and>
    0 < w_stake w \<and> 2 * unat (w_stake w) < 2 ^ 64 \<and> unat (w_fee_bps w) \<le> 1000 \<and>
    w_deadline_fund w <s w_deadline_resolve w \<and> w_terms_hash w \<noteq> 0 \<and>
    w_fee_destination w \<noteq> default_key \<and> w_rent_collector w \<noteq> default_key"

text \<open>
  The part that changes: only the two states that persist, active exactly when both sides
  are funded; a side marked as refunded was funded and its deadline has passed; an open
  cancel proposal is a participant's, on an active wager; who funded has signed.
\<close>

definition life_wf :: "env \<Rightarrow> i64 \<Rightarrow> wager \<Rightarrow> bool" where
  "life_wf E now w \<longleftrightarrow>
    (w_state w = Funding \<or> w_state w = Active) \<and>
    (w_state w = Active \<longleftrightarrow> w_funded_a w \<and> w_funded_b w) \<and>
    (w_refunded_a w \<longrightarrow> w_funded_a w) \<and> (w_refunded_b w \<longrightarrow> w_funded_b w) \<and>
    (w_refunded_a w \<or> w_refunded_b w \<longrightarrow>
      (if w_state w = Active then w_deadline_resolve w else w_deadline_fund w) <s now) \<and>
    (w_cancel_proposed_by w \<noteq> default_key \<longrightarrow>
      w_state w = Active \<and> is_participant w (w_cancel_proposed_by w)) \<and>
    (w_funded_a w \<longrightarrow> \<not> is_pda E (w_side_a w)) \<and>
    (w_funded_b w \<longrightarrow> \<not> is_pda E (w_side_b w))"

text \<open>A wager without the fields that change over its life.\<close>

definition terms_of :: "wager \<Rightarrow> wager" where
  "terms_of w = w\<lparr>w_state := Funding, w_funded_a := False, w_funded_b := False,
    w_refunded_a := False, w_refunded_b := False, w_cancel_proposed_by := default_key\<rparr>"

section \<open>The books\<close>

type_synonym account_map = "pubkey \<Rightarrow> account_data option"

fun owed_of :: "account_data option \<Rightarrow> nat" where
  "owed_of (Some (WagerAcc w)) = owed w"
| "owed_of _ = 0"

text \<open>How many open sides of a wager count at the counter with address \<open>x\<close>.\<close>

definition exposure :: "env \<Rightarrow> pubkey \<Rightarrow> wager \<Rightarrow> nat" where
  "exposure E x w =
    (if open_a w \<and> counter_key E (w_side_a w) = x then 1 else 0) +
    (if open_b w \<and> counter_key E (w_side_b w) = x then 1 else 0)"

fun exposure_of :: "env \<Rightarrow> pubkey \<Rightarrow> account_data option \<Rightarrow> nat" where
  "exposure_of E x (Some (WagerAcc w)) = exposure E x w"
| "exposure_of E x _ = 0"

fun count_of :: "account_data option \<Rightarrow> nat" where
  "count_of (Some (CounterAcc x)) = unat (x_count x)"
| "count_of _ = 0"

definition total_owed :: "account_map \<Rightarrow> nat" where
  "total_owed A = (\<Sum>k\<in>UNIV. owed_of (A k))"

definition total_exposure :: "env \<Rightarrow> account_map \<Rightarrow> pubkey \<Rightarrow> nat" where
  "total_exposure E A x = (\<Sum>k\<in>UNIV. exposure_of E x (A k))"

definition books_ok :: "env \<Rightarrow> account_map \<Rightarrow> bool" where
  "books_ok E A \<longleftrightarrow>
    (\<forall>c. A (config_key E) = Some (ConfigAcc c) \<longrightarrow> unat (c_total_open_value c) = total_owed A) \<and>
    (\<forall>x. count_of (A x) = total_exposure E A x)"

section \<open>The invariant\<close>

definition config_ok :: "env \<Rightarrow> account_map \<Rightarrow> bool" where
  "config_ok E A \<longleftrightarrow> (\<forall>k c. A k = Some (ConfigAcc c) \<longrightarrow>
    k = config_key E \<and> config_wf c \<and> c_bump c = snd (find_pda E config_seeds))"

definition transfers_ok :: "env \<Rightarrow> account_map \<Rightarrow> bool" where
  "transfers_ok E A \<longleftrightarrow> (\<forall>k t. A k = Some (TransferAcc t) \<longrightarrow>
    k = transfer_key E \<and> at_bump t = snd (find_pda E admin_transfer_seeds) \<and>
    at_proposed t \<noteq> default_key)"

definition counters_ok :: "env \<Rightarrow> account_map \<Rightarrow> bool" where
  "counters_ok E A \<longleftrightarrow> (\<forall>k x. A k = Some (CounterAcc x) \<longrightarrow>
    (\<exists>s. k = counter_key E s \<and> x_bump x = snd (find_pda E (counter_seeds s))))"

definition wagers_ok :: "env \<Rightarrow> i64 \<Rightarrow> account_map \<Rightarrow> bool" where
  "wagers_ok E now A \<longleftrightarrow> (\<forall>k w. A k = Some (WagerAcc w) \<longrightarrow>
    terms_wf w \<and> life_wf E now w \<and> create_pda E (signer_seeds w) = Some k \<and>
    (\<exists>c. A (config_key E) = Some (ConfigAcc c) \<and> c_mint c = w_mint w))"

text \<open>The vault of a wager: the wager is its owner, and it holds what the wager owes.\<close>

definition vault_ok ::
  "env \<Rightarrow> (pubkey \<Rightarrow> token_account option) \<Rightarrow> pubkey \<Rightarrow> wager \<Rightarrow> bool" where
  "vault_ok E T k w \<longleftrightarrow>
    (case T (vault_key E k w) of
       None \<Rightarrow> False
     | Some v \<Rightarrow> t_owner v = k \<and> t_mint v = w_mint w \<and> owed w \<le> unat (t_amount v))"

definition vaults_ok :: "env \<Rightarrow> account_map \<Rightarrow> (pubkey \<Rightarrow> token_account option) \<Rightarrow> bool" where
  "vaults_ok E A T \<longleftrightarrow> (\<forall>k w. A k = Some (WagerAcc w) \<longrightarrow> vault_ok E T k w)"

text \<open>An address belongs to one program: an account of this one is no token account.\<close>

definition apart :: "world \<Rightarrow> bool" where
  "apart W \<longleftrightarrow> (\<forall>k. accts W k \<noteq> None \<longrightarrow> tokens (ledger W) k = None)"

definition inv :: "env \<Rightarrow> world \<Rightarrow> bool" where
  "inv E W \<longleftrightarrow>
    config_ok E (accts W) \<and> transfers_ok E (accts W) \<and> counters_ok E (accts W) \<and>
    wagers_ok E (clock W) (accts W) \<and> books_ok E (accts W) \<and>
    vaults_ok E (accts W) (tokens (ledger W)) \<and> apart W"

section \<open>The contract of an instruction\<close>

text \<open>
  An instruction that succeeds keeps the invariant; it does not move the clock or the program
  data; and a wager it finds is, after it, the same wager with the same terms, or gone.
\<close>

locale instruction =
  fixes run :: "env \<Rightarrow> pubkey set \<Rightarrow> 'i \<Rightarrow> world \<Rightarrow> error + world"
  assumes keeps_inv:
      "chain E \<Longrightarrow> real_signers E sg \<Longrightarrow> inv E W \<Longrightarrow> run E sg i W = Inr W' \<Longrightarrow> inv E W'"
    and keeps_terms:
      "run E sg i W = Inr W' \<Longrightarrow> accts W k = Some (WagerAcc w) \<Longrightarrow>
        accts W' k = None \<or> (\<exists>w'. accts W' k = Some (WagerAcc w') \<and> terms_of w' = terms_of w)"
    and keeps_time: "run E sg i W = Inr W' \<Longrightarrow> clock W' = clock W \<and> program_data W' = program_data W"

text \<open>The instructions of one transaction, run in order: the first failure is the result.\<close>

fun run_transaction ::
  "(env \<Rightarrow> pubkey set \<Rightarrow> 'i \<Rightarrow> world \<Rightarrow> error + world) \<Rightarrow>
    env \<Rightarrow> pubkey set \<Rightarrow> 'i list \<Rightarrow> world \<Rightarrow> error + world" where
  "run_transaction run E sg [] W = Inr W"
| "run_transaction run E sg (i # is) W =
    try_bind (run E sg i W) (\<lambda>W1. run_transaction run E sg is W1)"

context instruction
begin

lemma transaction_inv:
  assumes "chain E" "real_signers E sg" "inv E W" "run_transaction run E sg is W = Inr W'"
  shows "inv E W'"
  using assms(3,4)
proof (induction "is" arbitrary: W)
  case (Cons i "is")
  then show ?case using keeps_inv [OF assms(1,2)] by (auto simp: result_simps)
qed simp

lemma transaction_time:
  "run_transaction run E sg is W = Inr W' \<Longrightarrow> clock W' = clock W"
  by (induction "is" arbitrary: W) (auto simp: result_simps dest: keeps_time)

end

section \<open>Lemmas about the books\<close>

lemma terms_of_simps [simp]:
  "w_side_a (terms_of w) = w_side_a w" "w_side_b (terms_of w) = w_side_b w"
  "w_stake (terms_of w) = w_stake w" "w_mint (terms_of w) = w_mint w"
  "w_resolver (terms_of w) = w_resolver w" "w_terms_hash (terms_of w) = w_terms_hash w"
  "w_deadline_fund (terms_of w) = w_deadline_fund w"
  "w_deadline_resolve (terms_of w) = w_deadline_resolve w"
  "w_fee_bps (terms_of w) = w_fee_bps w" "w_fee_destination (terms_of w) = w_fee_destination w"
  "w_rent_collector (terms_of w) = w_rent_collector w"
  "w_nonce (terms_of w) = w_nonce w" "w_bump (terms_of w) = w_bump w"
  by (simp_all add: terms_of_def)

text \<open>Equal terms are equal fields, all those an instruction reads from the snapshot.\<close>

lemma terms_of_eqD:
  assumes "terms_of w' = terms_of w"
  shows "w_side_a w' = w_side_a w" "w_side_b w' = w_side_b w" "w_stake w' = w_stake w"
    "w_mint w' = w_mint w" "w_resolver w' = w_resolver w" "w_terms_hash w' = w_terms_hash w"
    "w_deadline_fund w' = w_deadline_fund w" "w_deadline_resolve w' = w_deadline_resolve w"
    "w_fee_bps w' = w_fee_bps w" "w_fee_destination w' = w_fee_destination w"
    "w_rent_collector w' = w_rent_collector w" "w_nonce w' = w_nonce w" "w_bump w' = w_bump w"
  using assms by (metis terms_of_simps)+

lemma terms_of_updates [simp]:
  "terms_of (w\<lparr>w_state := s\<rparr>) = terms_of w"
  "terms_of (w\<lparr>w_funded_a := b\<rparr>) = terms_of w"
  "terms_of (w\<lparr>w_funded_b := b\<rparr>) = terms_of w"
  "terms_of (w\<lparr>w_refunded_a := b\<rparr>) = terms_of w"
  "terms_of (w\<lparr>w_refunded_b := b\<rparr>) = terms_of w"
  "terms_of (w\<lparr>w_cancel_proposed_by := p\<rparr>) = terms_of w"
  by (simp_all add: terms_of_def)

lemma terms_wf_cong:
  assumes "terms_of w' = terms_of w"
  shows "terms_wf w' = terms_wf w"
  using terms_of_eqD [OF assms] by (simp add: terms_wf_def)

lemma signer_seeds_cong:
  assumes "terms_of w' = terms_of w"
  shows "signer_seeds w' = signer_seeds w"
  using terms_of_eqD [OF assms] by (simp add: signer_seeds_def)

text \<open>
  The books after an instruction: it changes one wager (or creates or removes it), the
  accumulator by the same amount, and the counters by the same exposure.
\<close>

lemma books_change:
  assumes "books_ok E A"
    and "A (config_key E) = Some (ConfigAcc c)" "A' (config_key E) = Some (ConfigAcc c')"
    and "\<And>j. j \<noteq> k \<Longrightarrow> owed_of (A' j) = owed_of (A j)"
    and "\<And>j x. j \<noteq> k \<Longrightarrow> exposure_of E x (A' j) = exposure_of E x (A j)"
    and "unat (c_total_open_value c') + owed_of (A k) =
      unat (c_total_open_value c) + owed_of (A' k)"
    and "\<And>x. count_of (A' x) + exposure_of E x (A k) = count_of (A x) + exposure_of E x (A' k)"
  shows "books_ok E A'"
proof -
  have "total_owed A' + owed_of (A k) = total_owed A + owed_of (A' k)"
    unfolding total_owed_def by (rule sum_update_at) (rule assms(4))
  moreover have "unat (c_total_open_value c) = total_owed A"
    using assms(1,2) by (simp add: books_ok_def)
  moreover have "count_of (A' x) = total_exposure E A' x" for x
  proof -
    have "total_exposure E A' x + exposure_of E x (A k) =
        total_exposure E A x + exposure_of E x (A' k)"
      unfolding total_exposure_def by (rule sum_update_at) (rule assms(5))
    moreover have "count_of (A x) = total_exposure E A x"
      using assms(1) by (simp add: books_ok_def)
    ultimately show ?thesis using assms(7) [of x] by linarith
  qed
  ultimately show ?thesis using assms(3,6) by (simp add: books_ok_def)
qed

text \<open>The same accounts up to those that do not count.\<close>

lemma books_same:
  assumes "books_ok E A"
    and "\<And>j. owed_of (A' j) = owed_of (A j)" "\<And>j x. exposure_of E x (A' j) = exposure_of E x (A j)"
    and "\<And>j. count_of (A' j) = count_of (A j)"
    and "\<And>c'. A' (config_key E) = Some (ConfigAcc c') \<Longrightarrow>
      \<exists>c. A (config_key E) = Some (ConfigAcc c) \<and> c_total_open_value c' = c_total_open_value c"
  shows "books_ok E A'"
proof -
  have "total_owed A' = total_owed A" "\<And>x. total_exposure E A' x = total_exposure E A x"
    by (simp_all add: total_owed_def total_exposure_def assms(2,3))
  then show ?thesis using assms(1,4,5) by (auto simp: books_ok_def)
qed

lemma owed_le_total:
  assumes "A k = Some (WagerAcc w)"
  shows "owed w \<le> total_owed A"
  using sum_ge_at [of "\<lambda>k. owed_of (A k)" k] assms by (simp add: total_owed_def)

lemma exposure_le_total:
  assumes "A k = Some (WagerAcc w)"
  shows "exposure E x w \<le> total_exposure E A x"
  using sum_ge_at [of "\<lambda>k. exposure_of E x (A k)" k] assms by (simp add: total_exposure_def)

text \<open>The accumulator covers every wager, and each open side has a counter above zero.\<close>

lemma books_total:
  assumes "books_ok E A" "A (config_key E) = Some (ConfigAcc c)" "A k = Some (WagerAcc w)"
  shows "owed w \<le> unat (c_total_open_value c)"
  using assms owed_le_total by (fastforce simp: books_ok_def)

lemma books_count:
  assumes "books_ok E A" "A k = Some (WagerAcc w)"
  shows "exposure E x w \<le> count_of (A x)"
  using assms exposure_le_total by (fastforce simp: books_ok_def)

lemma count_of_pos: "0 < count_of d \<Longrightarrow> \<exists>x. d = Some (CounterAcc x)"
  by (induction d rule: count_of.induct) auto

lemma vault_okE:
  assumes "vault_ok E T k w"
  obtains v where "T (vault_key E k w) = Some v" "t_owner v = k" "t_mint v = w_mint w"
    "owed w \<le> unat (t_amount v)"
  using assms by (auto simp: vault_ok_def split: option.splits)

text \<open>
  The other vaults: an instruction that leaves alone the data of all token accounts but one
  wager's vault, and lowers no balance of an account owned by another wager, keeps the
  backing of the other wagers. Vaults of different wagers have different owners, so they are
  different accounts.
\<close>

lemma vault_ok_kept:
  assumes ok: "vault_ok E T k w"
    and data: "token_data T' (vault_key E k w) = token_data T (vault_key E k w)"
    and amount: "amount_at T (vault_key E k w) \<le> amount_at T' (vault_key E k w)"
    and w': "w_mint w' = w_mint w" "owed w' \<le> owed w"
  shows "vault_ok E T' k w'"
proof -
  obtain v where v: "T (vault_key E k w) = Some v" "t_owner v = k" "t_mint v = w_mint w"
    "owed w \<le> unat (t_amount v)" by (rule vault_okE [OF ok])
  obtain v' where v': "T' (vault_key E k w) = Some v'" "t_owner v' = t_owner v"
    "t_mint v' = t_mint v" using token_data_Some [OF data v(1)] by metis
  have "vault_key E k w' = vault_key E k w" using w'(1) by (simp add: vault_key_def)
  then show ?thesis using v v' w' amount by (simp add: vault_ok_def)
qed

section \<open>Instructions that leave the wagers alone\<close>

lemma owed_of_cong:
  "(\<And>w. d' = Some (WagerAcc w) \<longleftrightarrow> d = Some (WagerAcc w)) \<Longrightarrow> owed_of d' = owed_of d"
  by (cases d rule: owed_of.cases; cases d' rule: owed_of.cases) (auto, metis)

lemma exposure_of_cong:
  "(\<And>w. d' = Some (WagerAcc w) \<longleftrightarrow> d = Some (WagerAcc w)) \<Longrightarrow> exposure_of E x d' = exposure_of E x d"
  by (cases d rule: owed_of.cases; cases d' rule: owed_of.cases) (auto, metis)

lemma count_of_cong:
  "(\<And>x. d' = Some (CounterAcc x) \<longleftrightarrow> d = Some (CounterAcc x)) \<Longrightarrow> count_of d' = count_of d"
  by (cases d rule: count_of.cases; cases d' rule: count_of.cases) (auto, metis)

lemma inv_quiet:
  assumes inv: "inv E W"
    and cfg: "config_ok E (accts W')" and tr: "transfers_ok E (accts W')"
    and wg: "\<And>j w. accts W' j = Some (WagerAcc w) \<longleftrightarrow> accts W j = Some (WagerAcc w)"
    and ct: "\<And>j x. accts W' j = Some (CounterAcc x) \<longleftrightarrow> accts W j = Some (CounterAcc x)"
    and fwd: "\<And>k c. accts W k = Some (ConfigAcc c) \<Longrightarrow>
      \<exists>c'. accts W' k = Some (ConfigAcc c') \<and> c_mint c' = c_mint c"
    and bwd: "\<And>k c'. accts W' k = Some (ConfigAcc c') \<Longrightarrow>
      \<exists>c. accts W k = Some (ConfigAcc c) \<and> c_total_open_value c' = c_total_open_value c"
    and time: "clock W' = clock W" and tok: "tokens (ledger W') = tokens (ledger W)"
    and fresh: "\<And>j. accts W j = None \<Longrightarrow> accts W' j \<noteq> None \<Longrightarrow> tokens (ledger W) j = None"
  shows "inv E W'"
proof -
  have "apart W'" using inv fresh tok unfolding inv_def apart_def by metis
  moreover
  have "wagers_ok E (clock W') (accts W')"
    using inv fwd unfolding inv_def wagers_ok_def wg time by metis
  moreover have "counters_ok E (accts W')"
    using inv unfolding inv_def counters_ok_def ct by blast
  moreover have "books_ok E (accts W')"
  proof (rule books_same)
    show "books_ok E (accts W)" using inv by (simp add: inv_def)
    show "owed_of (accts W' j) = owed_of (accts W j)" for j
      by (rule owed_of_cong) (rule wg)
    show "exposure_of E x (accts W' j) = exposure_of E x (accts W j)" for j x
      by (rule exposure_of_cong) (rule wg)
    show "count_of (accts W' j) = count_of (accts W j)" for j
      by (rule count_of_cong) (rule ct)
  qed (rule bwd)
  moreover have "vaults_ok E (accts W') (tokens (ledger W'))"
    using inv unfolding inv_def vaults_ok_def wg tok by blast
  ultimately show ?thesis using cfg tr by (simp add: inv_def)
qed

section \<open>Instructions on one wager\<close>

text \<open>
  What a step on the wager at \<open>k\<close> may do to token accounts: none appears, and no account of
  another derived owner, and so no vault of another wager, loses anything.
\<close>

definition spares ::
  "env \<Rightarrow> pubkey \<Rightarrow> (pubkey \<Rightarrow> token_account option) \<Rightarrow> (pubkey \<Rightarrow> token_account option) \<Rightarrow> bool"
where
  "spares E k T T' \<longleftrightarrow> (\<forall>j. T j = None \<longrightarrow> T' j = None) \<and> (\<forall>j v. T j = Some v \<and> is_pda E (t_owner v) \<and> t_owner v \<noteq> k \<longrightarrow>
    token_data T' j = token_data T j \<and> amount_at T j \<le> amount_at T' j)"

lemma spares_vault:
  assumes "spares E k T T'" "vault_ok E T j w" "is_pda E j" "j \<noteq> k"
  shows "vault_ok E T' j w"
proof -
  obtain v where "T (vault_key E j w) = Some v" "t_owner v = j"
    by (rule vault_okE [OF assms(2)])
  with assms(1,3,4) have "token_data T' (vault_key E j w) = token_data T (vault_key E j w)"
    "amount_at T (vault_key E j w) \<le> amount_at T' (vault_key E j w)"
    unfolding spares_def by metis+
  then show ?thesis by (rule vault_ok_kept [OF assms(2)]) simp_all
qed

definition counter_entry :: "env \<Rightarrow> pubkey \<Rightarrow> account_data option \<Rightarrow> bool" where
  "counter_entry E j d \<longleftrightarrow> (\<exists>x s. d = Some (CounterAcc x) \<and> j = counter_key E s \<and>
    x_bump x = snd (find_pda E (counter_seeds s)))"

text \<open>
  The general step: the wager at \<open>k\<close> keeps its terms or goes, the accumulator and the
  counters follow it, everything else stays.
\<close>

lemma inv_step:
  assumes inv: "inv E W"
    and k: "accts W k = Some (WagerAcc w)"
    and c: "accts W (config_key E) = Some (ConfigAcc c)"
    and c': "accts W' (config_key E) = Some (ConfigAcc (c\<lparr>c_total_open_value := t\<rparr>))"
    and rest: "\<And>j. j \<noteq> k \<Longrightarrow> j \<noteq> config_key E \<Longrightarrow> accts W' j = accts W j \<or>
      counter_entry E j (accts W' j) \<and> (\<forall>w. accts W j \<noteq> Some (WagerAcc w)) \<and>
      tokens (ledger W) j = None"
    and k': "accts W' k = None \<or> (\<exists>w'. accts W' k = Some (WagerAcc w') \<and>
      terms_of w' = terms_of w \<and> life_wf E (clock W) w' \<and> vault_ok E (tokens (ledger W')) k w')"
    and total: "unat t + owed w = unat (c_total_open_value c) + owed_of (accts W' k)"
    and count: "\<And>x. count_of (accts W' x) + exposure E x w =
      count_of (accts W x) + exposure_of E x (accts W' k)"
    and spares: "spares E k (tokens (ledger W)) (tokens (ledger W'))"
    and time: "clock W' = clock W"
  shows "inv E W'"
proof -
  let ?A = "accts W" and ?A' = "accts W'" and ?T' = "tokens (ledger W')"
  have wf: "config_ok E ?A" "transfers_ok E ?A" "counters_ok E ?A" "wagers_ok E (clock W) ?A"
    "books_ok E ?A" "vaults_ok E ?A (tokens (ledger W))" "apart W"
    using inv by (simp_all add: inv_def)
  obtain c1 where c1: "?A' (config_key E) = Some (ConfigAcc c1)" "config_wf c1"
    "c_bump c1 = snd (find_pda E config_seeds)" "c_mint c1 = c_mint c"
    "c_total_open_value c1 = t"
  proof
    have "config_wf c" "c_bump c = snd (find_pda E config_seeds)"
      using wf(1) c by (simp_all add: config_ok_def)
    then show "config_wf (c\<lparr>c_total_open_value := t\<rparr>)"
      "c_bump (c\<lparr>c_total_open_value := t\<rparr>) = snd (find_pda E config_seeds)"
      by (simp_all add: config_wf_def)
  qed (use c' in simp_all)
  have cases: "j = k \<and> ?A' j = None \<or>
      j = k \<and> (\<exists>w'. ?A' j = Some (WagerAcc w') \<and> terms_of w' = terms_of w \<and>
        life_wf E (clock W) w' \<and> vault_ok E ?T' k w') \<or>
      j = config_key E \<and> j \<noteq> k \<and> ?A' j = Some (ConfigAcc c1) \<or>
      j \<noteq> k \<and> j \<noteq> config_key E \<and> ?A' j = ?A j \<or>
      j \<noteq> k \<and> j \<noteq> config_key E \<and> counter_entry E j (?A' j) \<and>
        (\<forall>w. ?A j \<noteq> Some (WagerAcc w)) \<and> tokens (ledger W) j = None" for j
  proof (cases "j = k")
    case True
    show ?thesis unfolding True using k' by simp
  next
    case False
    with c1(1) rest [of j] show ?thesis by (cases "j = config_key E") blast+
  qed
  have wagers: "?A j = Some (WagerAcc w1) \<and> j \<noteq> k \<or>
      j = k \<and> terms_of w1 = terms_of w \<and> life_wf E (clock W) w1 \<and> vault_ok E ?T' k w1"
    if "?A' j = Some (WagerAcc w1)" for j w1
    using cases [of j] that by (auto simp: counter_entry_def)
  have "apart W'"
    unfolding apart_def
  proof (intro allI impI)
    fix j assume "?A' j \<noteq> None"
    with cases [of j] k c have "?A j \<noteq> None \<or> tokens (ledger W) j = None" by auto
    with wf(7) spares show "?T' j = None" unfolding apart_def spares_def by blast
  qed
  moreover have "config_ok E ?A'"
    unfolding config_ok_def
  proof (intro allI impI)
    fix j d assume "?A' j = Some (ConfigAcc d)"
    with cases [of j] have "?A j = Some (ConfigAcc d) \<or>
        j = config_key E \<and> d = c1"
      by (auto simp: counter_entry_def)
    with wf(1) c1(2,3) show "j = config_key E \<and> config_wf d \<and> c_bump d = snd (find_pda E config_seeds)"
      unfolding config_ok_def by blast
  qed
  moreover have "transfers_ok E ?A'"
    unfolding transfers_ok_def
  proof (intro allI impI)
    fix j d assume "?A' j = Some (TransferAcc d)"
    with cases [of j] have "?A j = Some (TransferAcc d)" by (auto simp: counter_entry_def)
    with wf(2) show "j = transfer_key E \<and> at_bump d = snd (find_pda E admin_transfer_seeds) \<and>
        at_proposed d \<noteq> default_key"
      by (auto simp: transfers_ok_def)
  qed
  moreover have "counters_ok E ?A'"
    unfolding counters_ok_def
  proof (intro allI impI)
    fix j d assume "?A' j = Some (CounterAcc d)"
    with cases [of j] have "?A j = Some (CounterAcc d) \<or> counter_entry E j (Some (CounterAcc d))"
      by auto
    with wf(3) show "\<exists>s. j = counter_key E s \<and> x_bump d = snd (find_pda E (counter_seeds s))"
      by (auto simp: counters_ok_def counter_entry_def)
  qed
  moreover have "wagers_ok E (clock W') ?A'"
    unfolding wagers_ok_def
  proof (intro allI impI)
    fix j w1 assume "?A' j = Some (WagerAcc w1)"
    from wagers [OF this]
    show "terms_wf w1 \<and> life_wf E (clock W') w1 \<and> create_pda E (signer_seeds w1) = Some j \<and>
        (\<exists>c. ?A' (config_key E) = Some (ConfigAcc c) \<and> c_mint c = w_mint w1)"
    proof (elim disjE conjE)
      assume "?A j = Some (WagerAcc w1)"
      with wf(4) c have "terms_wf w1 \<and> life_wf E (clock W) w1 \<and> create_pda E (signer_seeds w1) = Some j \<and>
          c_mint c = w_mint w1"
        by (fastforce simp: wagers_ok_def)
      with c1 time show ?thesis by simp
    next
      assume j: "j = k" and tm: "terms_of w1 = terms_of w" and "life_wf E (clock W) w1"
      moreover have "terms_wf w" "create_pda E (signer_seeds w) = Some k" "c_mint c = w_mint w"
        using wf(4) k c by (auto simp: wagers_ok_def)
      ultimately show ?thesis
        using terms_wf_cong [OF tm] signer_seeds_cong [OF tm] terms_of_eqD(4) [OF tm] c1 time
        by simp
    qed
  qed
  moreover have "books_ok E ?A'"
  proof (rule books_change [where A = ?A and A' = ?A' and k = k, OF wf(5) c c1(1)])
    show "owed_of (?A' j) = owed_of (?A j)" if "j \<noteq> k" for j
      using cases [of j] that c by (auto simp: counter_entry_def intro!: owed_of_cong)
    show "exposure_of E x (?A' j) = exposure_of E x (?A j)" if "j \<noteq> k" for j x
      using cases [of j] that c by (auto simp: counter_entry_def intro!: exposure_of_cong)
    show "unat (c_total_open_value c1) + owed_of (?A k) =
        unat (c_total_open_value c) + owed_of (?A' k)"
      using total k c1(5) by simp
    show "count_of (?A' x) + exposure_of E x (?A k) =
        count_of (?A x) + exposure_of E x (?A' k)" for x
      using count [of x] k by simp
  qed
  moreover have "vaults_ok E ?A' ?T'"
    unfolding vaults_ok_def
  proof (intro allI impI)
    fix j w1 assume "?A' j = Some (WagerAcc w1)"
    from wagers [OF this] show "vault_ok E ?T' j w1"
    proof (elim disjE conjE)
      assume j: "?A j = Some (WagerAcc w1)" and "j \<noteq> k"
      with wf(6) have "vault_ok E (tokens (ledger W)) j w1" by (auto simp: vaults_ok_def)
      moreover have "is_pda E j" using wf(4) j by (auto simp: wagers_ok_def is_pda_def)
      ultimately show ?thesis using spares \<open>j \<noteq> k\<close> by (metis spares_vault)
    qed simp
  qed
  ultimately show ?thesis by (simp add: inv_def)
qed

section \<open>Sides that leave\<close>

text \<open>Before the deadline of its state a wager has nobody refunded; when active, both are in.\<close>

lemma nobody_refunded:
  assumes "life_wf E now w"
    and "now \<le>s (if w_state w = Active then w_deadline_resolve w else w_deadline_fund w)"
  shows "\<not> w_refunded_a w" "\<not> w_refunded_b w"
  using assms by (auto simp: life_wf_def signed.not_less split: if_splits)

lemma active_both_open:
  assumes "life_wf E now w" "w_state w = Active" "now \<le>s w_deadline_resolve w"
  shows "open_a w" "open_b w"
proof -
  note nobody_refunded [OF assms(1)]
  then show "open_a w" "open_b w"
    using assms by (simp_all add: life_wf_def open_a_def open_b_def)
qed

text \<open>One side of \<open>w\<close> is in and in \<open>w'\<close> it is out; the other is as it was.\<close>

definition leaves :: "pubkey \<Rightarrow> wager \<Rightarrow> wager \<Rightarrow> bool" where
  "leaves s w w' \<longleftrightarrow> terms_of w' = terms_of w \<and>
    (s = w_side_a w \<and> open_a w \<and> \<not> open_a w' \<and> open_b w' = open_b w \<or>
     s = w_side_b w \<and> open_b w \<and> \<not> open_b w' \<and> open_a w' = open_a w)"

lemma leaves_owed: "leaves s w w' \<Longrightarrow> owed w' + unat (w_stake w) = owed w"
  by (auto simp: leaves_def owed_def dest: terms_of_eqD(3))

lemma leaves_exposure:
  assumes "leaves s w w'"
  shows "exposure E x w' + (if counter_key E s = x then 1 else 0) = exposure E x w"
proof -
  from assms have "terms_of w' = terms_of w" by (simp add: leaves_def)
  from terms_of_eqD(1,2) [OF this] assms show ?thesis
    by (auto simp: leaves_def exposure_def)
qed

context chain
begin

text \<open>A counter checked with its stored bump is the wallet's own counter.\<close>

lemma counter_found:
  assumes "counters_ok E A" "A j = Some (CounterAcc x)"
    and "pda_at E (counter_seeds s) (x_bump x) j"
  shows "counter_key E s = j"
proof -
  from assms(1,2) obtain s' where s': "j = counter_key E s'"
    "x_bump x = snd (find_pda E (counter_seeds s'))"
    by (auto simp: counters_ok_def)
  with assms(3) counters_apart show ?thesis by (simp add: pda_at_def)
qed

lemma counter_entry_kept:
  assumes "counters_ok E A" "A j = Some (CounterAcc x)"
  shows "counter_entry E j (Some (CounterAcc (x\<lparr>x_count := n\<rparr>)))"
  using assms by (auto simp: counters_ok_def counter_entry_def)

lemma spares_payment:
  assumes "spl_transfer E f t a n L = Inr L'"
    and "\<And>v. tokens L f = Some v \<Longrightarrow> is_pda E (t_owner v) \<Longrightarrow> t_owner v = k"
  shows "spares E k (tokens L) (tokens L')"
  unfolding spares_def
proof (intro conjI allI impI, goal_cases)
  case (1 j)
  then show ?case using transfer_tokens [OF assms(1)] by (simp add: move_tokens_None)
next
  case (2 j v)
  then show ?case using transfer_data [OF assms(1)] by simp
next
  case (3 j v)
  with assms(2) have "j \<noteq> f" by auto
  then show ?case using transfer_amount_at [OF assms(1), of j] by simp
qed

lemma inv_side_out:
  assumes inv: "inv E W"
    and k: "accts W k = Some (WagerAcc w)" and c: "accts W (config_key E) = Some (ConfigAcc c)"
    and x: "accts W j = Some (CounterAcc x)" "pda_at E (counter_seeds s) (x_bump x) j"
    and out: "leaves s w w'" "life_wf E (clock W) w'"
    and pay: "spl_transfer E (vault_key E k w) to k (w_stake w) (ledger W) = Inr (ledger W')"
    and ne: "to \<noteq> vault_key E k w"
    and W': "accts W' = (accts W)
        (config_key E \<mapsto> ConfigAcc (c\<lparr>c_total_open_value :=
            saturating_sub (c_total_open_value c) (w_stake w)\<rparr>),
         k \<mapsto> WagerAcc w',
         j \<mapsto> CounterAcc (x\<lparr>x_count := saturating_sub (x_count x) 1\<rparr>))"
      "clock W' = clock W"
  shows "inv E W'"
proof -
  have ct: "counters_ok E (accts W)" and bk: "books_ok E (accts W)"
    and vt: "vault_ok E (tokens (ledger W)) k w" and ap: "apart W"
    using inv k by (auto simp: inv_def vaults_ok_def)
  have jkey: "counter_key E s = j" by (rule counter_found [OF ct x])
  have distinct: "j \<noteq> k" "j \<noteq> config_key E" "k \<noteq> config_key E" using k c x(1) by auto
  note owed = leaves_owed [OF out(1)] and expo = leaves_exposure [OF out(1)]
  have k': "accts W' k = Some (WagerAcc w')" using distinct W'(1) by simp
  have tm: "terms_of w' = terms_of w" using out(1) by (simp add: leaves_def)
  have vkey: "vault_key E k w' = vault_key E k w"
    using terms_of_eqD(4) [OF tm] by (simp add: vault_key_def)
  obtain v where v: "tokens (ledger W) (vault_key E k w) = Some v" "t_owner v = k"
    "t_mint v = w_mint w" "owed w \<le> unat (t_amount v)"
    by (rule vault_okE [OF vt])
  show ?thesis
  proof (rule inv_step [OF inv k c])
    show "accts W' (config_key E) = Some (ConfigAcc (c\<lparr>c_total_open_value :=
        saturating_sub (c_total_open_value c) (w_stake w)\<rparr>))"
      using distinct W'(1) by simp
    show "accts W' i = accts W i \<or>
        counter_entry E i (accts W' i) \<and> (\<forall>w. accts W i \<noteq> Some (WagerAcc w)) \<and>
        tokens (ledger W) i = None"
      if "i \<noteq> k" "i \<noteq> config_key E" for i
      using that W'(1) x(1) ap counter_entry_kept [OF ct x(1)] by (auto simp: apart_def)
    have "vault_ok E (tokens (ledger W')) k w'"
    proof -
      obtain v' where v': "tokens (ledger W') (vault_key E k w) = Some v'"
        "t_owner v' = t_owner v" "t_mint v' = t_mint v"
        using token_data_Some [OF fun_cong [OF transfer_data [OF pay]] v(1)] by metis
      moreover have "amount_at (tokens (ledger W')) (vault_key E k w) + unat (w_stake w) =
          amount_at (tokens (ledger W)) (vault_key E k w)"
        by (rule transfer_amounts(1) [OF pay]) (use ne in simp)
      ultimately show ?thesis
        using v owed terms_of_eqD(4) [OF tm] by (simp add: vault_ok_def vkey)
    qed
    then show "accts W' k = None \<or> (\<exists>w'. accts W' k = Some (WagerAcc w') \<and>
        terms_of w' = terms_of w \<and> life_wf E (clock W) w' \<and>
        vault_ok E (tokens (ledger W')) k w')"
      using k' tm out(2) by simp
    show "unat (saturating_sub (c_total_open_value c) (w_stake w)) + owed w =
        unat (c_total_open_value c) + owed_of (accts W' k)"
      using books_total [OF bk c k] owed k' by (simp add: unat_saturating_sub)
    show "count_of (accts W' i) + exposure E i w =
        count_of (accts W i) + exposure_of E i (accts W' k)" for i
    proof (cases "i = j")
      case True
      have "exposure E j w \<le> unat (x_count x)" using books_count [OF bk k, of j] x(1) by simp
      with True expo [of E j] jkey k' W'(1) x(1) show ?thesis
        by (simp add: unat_saturating_sub)
    next
      case False
      with expo [of E i] jkey k' W'(1) distinct k c show ?thesis
        by (cases "i = k"; cases "i = config_key E") simp_all
    qed
    show "spares E k (tokens (ledger W)) (tokens (ledger W'))"
      by (rule spares_payment [OF pay]) (use v in simp)
  qed (rule W'(2))
qed

lemma inv_both_out:
  assumes inv: "inv E W"
    and k: "accts W k = Some (WagerAcc w)" and c: "accts W (config_key E) = Some (ConfigAcc c)"
    and xa: "accts W ja = Some (CounterAcc xa)" "pda_at E (counter_seeds (w_side_a w)) (x_bump xa) ja"
    and xb: "accts W jb = Some (CounterAcc xb)" "pda_at E (counter_seeds (w_side_b w)) (x_bump xb) jb"
    and ne: "ja \<noteq> jb"
    and both: "w_state w = Active" "clock W \<le>s w_deadline_resolve w"
    and pot: "unat pot = 2 * unat (w_stake w)"
    and W': "accts W' = (accts W)
        (config_key E \<mapsto> ConfigAcc (c\<lparr>c_total_open_value :=
            saturating_sub (c_total_open_value c) pot\<rparr>),
         k := None,
         ja \<mapsto> CounterAcc (xa\<lparr>x_count := saturating_sub (x_count xa) 1\<rparr>),
         jb \<mapsto> CounterAcc (xb\<lparr>x_count := saturating_sub (x_count xb) 1\<rparr>))"
      "clock W' = clock W"
    and sp: "spares E k (tokens (ledger W)) (tokens (ledger W'))"
  shows "inv E W'"
proof -
  have ct: "counters_ok E (accts W)" and bk: "books_ok E (accts W)"
    and life: "life_wf E (clock W) w" and ap: "apart W"
    using inv k by (auto simp: inv_def wagers_ok_def)
  note both_in = active_both_open [OF life both]
  have keys: "counter_key E (w_side_a w) = ja" "counter_key E (w_side_b w) = jb"
    using counter_found [OF ct xa] counter_found [OF ct xb] .
  have distinct: "ja \<noteq> k" "ja \<noteq> config_key E" "jb \<noteq> k" "jb \<noteq> config_key E" "k \<noteq> config_key E"
    using k c xa(1) xb(1) by auto
  have k': "accts W' k = None" using distinct W'(1) by simp
  show ?thesis
  proof (rule inv_step [OF inv k c])
    show "accts W' (config_key E) = Some (ConfigAcc (c\<lparr>c_total_open_value :=
        saturating_sub (c_total_open_value c) pot\<rparr>))"
      using distinct W'(1) by simp
    show "accts W' i = accts W i \<or>
        counter_entry E i (accts W' i) \<and> (\<forall>w. accts W i \<noteq> Some (WagerAcc w)) \<and>
        tokens (ledger W) i = None"
      if "i \<noteq> k" "i \<noteq> config_key E" for i
      using that W'(1) xa(1) xb(1) ap counter_entry_kept [OF ct xa(1)]
        counter_entry_kept [OF ct xb(1)]
      by (auto simp: apart_def)
    show "unat (saturating_sub (c_total_open_value c) pot) + owed w =
        unat (c_total_open_value c) + owed_of (accts W' k)"
      using books_total [OF bk c k] both_in k' pot by (simp add: unat_saturating_sub owed_def)
    show "count_of (accts W' i) + exposure E i w =
        count_of (accts W i) + exposure_of E i (accts W' k)" for i
    proof -
      have "exposure E ja w \<le> unat (x_count xa)" "exposure E jb w \<le> unat (x_count xb)"
        using books_count [OF bk k, of ja] books_count [OF bk k, of jb] xa(1) xb(1) by simp_all
      moreover have "exposure E i w = (if i = ja then 1 else 0) + (if i = jb then 1 else 0)" for i
        using both_in keys by (auto simp: exposure_def)
      ultimately show ?thesis
        using k' W'(1) distinct ne k c xa(1) xb(1) by (simp add: unat_saturating_sub)
    qed
  qed (use k' sp W'(2) in simp_all)
qed

end

section \<open>Giving a stake back\<close>

text \<open>
  What unstaking and refunding the side of \<open>s\<close> have to do to the wager at \<open>k\<close>, which becomes
  \<open>w'\<close>: the stake moves from the vault to the side's own token account, the accumulator drops
  by it and the side's counter by one; nothing else changes.
\<close>

definition returns_stake :: "env \<Rightarrow> world \<Rightarrow> pubkey \<Rightarrow> pubkey \<Rightarrow> wager \<Rightarrow> world \<Rightarrow> bool" where
  "returns_stake E W k s w' W' \<longleftrightarrow> (\<exists>w c t.
    accts W k = Some (WagerAcc w) \<and> accts W' k = Some (WagerAcc w') \<and> leaves s w w' \<and>
    accts W (config_key E) = Some (ConfigAcc c) \<and>
    accts W' (config_key E) = Some (ConfigAcc (c\<lparr>c_total_open_value := t\<rparr>)) \<and>
    unat t + unat (w_stake w) = unat (c_total_open_value c) \<and>
    count_of (accts W' (counter_key E s)) + 1 = count_of (accts W (counter_key E s)) \<and>
    (\<forall>j. j \<notin> {config_key E, k, counter_key E s} \<longrightarrow> accts W' j = accts W j) \<and>
    (let V = vault_key E k w; A = ata_address E s (w_mint w)
     in amount_at (tokens (ledger W')) V + unat (w_stake w) = amount_at (tokens (ledger W)) V \<and>
        amount_at (tokens (ledger W')) A = amount_at (tokens (ledger W)) A + unat (w_stake w) \<and>
        (\<forall>j. j \<noteq> V \<and> j \<noteq> A \<longrightarrow> tokens (ledger W') j = tokens (ledger W) j)) \<and>
    token_data (tokens (ledger W')) = token_data (tokens (ledger W)) \<and>
    mints (ledger W') = mints (ledger W) \<and>
    (w_mint w \<noteq> native_mint E \<longrightarrow> lamports (ledger W') = lamports (ledger W)) \<and>
    clock W' = clock W)"

lemma leaves_open: "leaves s w w' \<Longrightarrow> counter_key E s = x \<Longrightarrow> 1 \<le> exposure E x w"
  by (auto simp: leaves_def exposure_def)

context chain
begin

lemma returned_stake:
  assumes inv: "inv E W"
    and k: "accts W k = Some (WagerAcc w)" and c: "accts W (config_key E) = Some (ConfigAcc c)"
    and x: "accts W j = Some (CounterAcc x)" "pda_at E (counter_seeds s) (x_bump x) j"
    and out: "leaves s w w'"
    and pay: "spl_transfer E (vault_key E k w) (ata_address E s (w_mint w)) k (w_stake w)
      (ledger W) = Inr (ledger W')"
    and ne: "ata_address E s (w_mint w) \<noteq> vault_key E k w"
    and W': "accts W' = (accts W)
        (config_key E \<mapsto> ConfigAcc (c\<lparr>c_total_open_value :=
            saturating_sub (c_total_open_value c) (w_stake w)\<rparr>),
         k \<mapsto> WagerAcc w',
         j \<mapsto> CounterAcc (x\<lparr>x_count := saturating_sub (x_count x) 1\<rparr>))"
      "clock W' = clock W"
  shows "returns_stake E W k s w' W'"
proof -
  have ct: "counters_ok E (accts W)" and bk: "books_ok E (accts W)"
    and vt: "vault_ok E (tokens (ledger W)) k w"
    using inv k by (auto simp: inv_def vaults_ok_def)
  have jkey: "counter_key E s = j" by (rule counter_found [OF ct x])
  have distinct: "j \<noteq> k" "j \<noteq> config_key E" "k \<noteq> config_key E" using k c x(1) by auto
  have "exposure E j w \<le> unat (x_count x)" using books_count [OF bk k, of j] x(1) by simp
  then have pos: "1 \<le> unat (x_count x)" using leaves_open [OF out jkey] by simp
  have count: "count_of (accts W' (counter_key E s)) + 1 = count_of (accts W (counter_key E s))"
    using W'(1) x(1) jkey pos by (simp add: unat_saturating_sub)
  have total: "unat (saturating_sub (c_total_open_value c) (w_stake w)) + unat (w_stake w) =
      unat (c_total_open_value c)"
    using books_total [OF bk c k] leaves_owed [OF out] by (simp add: unat_saturating_sub)
  obtain v where v: "tokens (ledger W) (vault_key E k w) = Some v" "t_mint v = w_mint w"
    by (rule vault_okE [OF vt])
  note am = transfer_amounts [OF pay ne [symmetric]]
  show ?thesis
    unfolding returns_stake_def Let_def
    by (rule exI [of _ w], rule exI [of _ c],
        rule exI [of _ "saturating_sub (c_total_open_value c) (w_stake w)"], intro conjI)
      (use k c W' out total count distinct jkey am transfer_data [OF pay] transfer_mints [OF pay]
        transfer_lamports [OF pay v(1)] v(2) in simp_all)
qed

end

end
