(* ===== verification/Payout.thy ===== *)
theory Payout
  imports Books
begin

text \<open>
  The settlement arithmetic and the last payment out of a vault (\<^verbatim>\<open>payout.rs\<close>), used by
  \<^verbatim>\<open>resolve\<close> and \<^verbatim>\<open>concede\<close>. The locale \<open>pot_split\<close> is the contract of the split those two rely
  on; \<open>split_pot\<close> provides it.
\<close>

section \<open>Splitting the pot\<close>

definition split_pot :: "u64 \<Rightarrow> u16 \<Rightarrow> error + u64 \<times> u64" where
  "split_pot stake fee_bps =
    try_bind (ok_or (checked_mul stake 2) (Shake MathOverflow)) (\<lambda>pot.
    try_bind (ok_or (checked_mul (ucast pot :: u128) (ucast fee_bps)) (Shake MathOverflow)) (\<lambda>scaled.
    try_bind (ok_or (u64_try_from (scaled div 10000)) (Shake MathOverflow)) (\<lambda>fee.
    try_bind (ok_or (checked_sub pot fee) (Shake MathOverflow)) (\<lambda>payout.
    Inr (payout, fee)))))"

text \<open>The fee in exact arithmetic.\<close>

definition fee_of :: "nat \<Rightarrow> nat \<Rightarrow> nat" where
  "fee_of stake bps = 2 * stake * bps div 10000"

lemma unat_u128_product:
  fixes pot :: u64 and b :: u16
  shows "unat (ucast pot * ucast b :: u128) = unat pot * unat b"
    and "unat (ucast pot :: u128) * unat (ucast b :: u128) < 2 ^ 128"
proof -
  have p: "unat (ucast pot :: u128) = unat pot" and b: "unat (ucast b :: u128) = unat b"
    by (simp_all add: unat_ucast_widen)
  have "unat pot * unat b < 2 ^ 64 * 2 ^ 16"
    by (intro mult_strict_mono) (use unsigned_less [of pot] unsigned_less [of b] in auto)
  then have "unat pot * unat b < 2 ^ 128" by simp
  with p b show lt: "unat (ucast pot :: u128) * unat (ucast b :: u128) < 2 ^ 128" by simp
  then show "unat (ucast pot * ucast b :: u128) = unat pot * unat b"
    using p b by (simp add: unat_mul_no_wrap)
qed

text \<open>
  When the split succeeds, and what it gives. The only inputs it refuses are a pot past
  \<open>u64\<close> and a fee past the pot.
\<close>

lemma split_pot_iff:
  "split_pot s b = Inr (p, f) \<longleftrightarrow>
    2 * unat s < 2 ^ 64 \<and> fee_of (unat s) (unat b) \<le> 2 * unat s \<and>
    unat f = fee_of (unat s) (unat b) \<and> unat p = 2 * unat s - fee_of (unat s) (unat b)"
proof (cases "2 * unat s < 2 ^ 64")
  case False
  then show ?thesis
    by (auto simp: split_pot_def result_simps checked_mul_Some mult.commute)
next
  case True
  define pot where "pot = s * 2"
  have pot: "unat pot = 2 * unat s"
    using True by (simp add: pot_def unat_mul_no_wrap mult.commute)
  define fee where "fee = (ucast pot * ucast b :: u128) div 10000"
  have fee: "unat fee = fee_of (unat s) (unat b)"
    by (simp add: fee_def unat_div_distrib unat_u128_product(1) pot fee_of_def)
  have "split_pot s b = Inr (p, f) \<longleftrightarrow>
      unat fee < 2 ^ 64 \<and> f = ucast fee \<and> f \<le> pot \<and> p = pot - f"
    using True unat_u128_product(2) [of pot b]
    by (auto simp: split_pot_def result_simps checked_mul_Some checked_sub_Some
        u64_try_from_Some fee_def mult.commute [of s] pot_def)
  also have "\<dots> \<longleftrightarrow> unat fee \<le> unat pot \<and> unat f = unat fee \<and> unat p = unat pot - unat fee"
  proof -
    have ucast_fee: "unat (ucast fee :: u64) = unat fee" if "unat fee < 2 ^ 64"
      using that by (simp add: unat_ucast_fits)
    have "unat fee < 2 ^ 64" if "unat fee \<le> unat pot"
      using that unat_word_bound [of pot] by simp
    with ucast_fee show ?thesis
      by (auto simp: word_le_nat_alt unat_sub word_unat_eq_iff)
  qed
  finally show ?thesis using True fee pot by auto
qed

lemma split_pot_error: "split_pot s b = Inl e \<Longrightarrow> e = Shake MathOverflow"
  by (auto simp: split_pot_def ok_or_def split: option.splits)

lemma fee_of_le:
  assumes "bps \<le> 1000"
  shows "10 * fee_of s bps \<le> 2 * s"
proof -
  have "2 * s * bps \<le> 2 * s * 1000" using assms by simp
  then have "fee_of s bps \<le> 2 * s * 1000 div 10000"
    unfolding fee_of_def by (rule div_le_mono)
  then show ?thesis by simp
qed

section \<open>What the settlements rely on\<close>

locale pot_split =
  fixes split :: "u64 \<Rightarrow> u16 \<Rightarrow> error + u64 \<times> u64"
  assumes split_total: "split s b = Inr (p, f) \<Longrightarrow> unat p + unat f = 2 * unat s"
    and split_room: "split s b = Inr (p, f) \<Longrightarrow> 2 * unat s < 2 ^ 64"
    and split_fee: "split s b = Inr (p, f) \<Longrightarrow> unat f = fee_of (unat s) (unat b)"
    and split_defined: "2 * unat s < 2 ^ 64 \<Longrightarrow> b \<le> MAX_FEE_BPS \<Longrightarrow> \<exists>p f. split s b = Inr (p, f)"
begin

text \<open>\<^verbatim>\<open>payout + fee\<close> in the handlers never overflows: it is the pot again.\<close>

lemma pot_sum: "split s b = Inr (p, f) \<Longrightarrow> unat (p + f) = 2 * unat s"
  using split_total split_room by (simp add: unat_add_no_wrap)

lemma pot_sum_checked: "split s b = Inr (p, f) \<Longrightarrow> checked_add p f = Some (p + f)"
  using split_total split_room by (simp add: checked_add_Some)

text \<open>Under the hard cap the fee is at most a tenth of the pot, and the winner gains.\<close>

lemma fee_at_most_tenth:
  assumes "split s b = Inr (p, f)" "b \<le> MAX_FEE_BPS"
  shows "10 * unat f \<le> 2 * unat s"
proof -
  have "unat b \<le> 1000"
    using assms(2) by (simp add: MAX_FEE_BPS_def word_le_nat_alt)
  then show ?thesis using split_fee [OF assms(1)] fee_of_le by simp
qed

lemma payout_at_least:
  assumes "split s b = Inr (p, f)" "b \<le> MAX_FEE_BPS"
  shows "9 * (2 * unat s) \<le> 10 * unat p"
  using fee_at_most_tenth [OF assms] split_total [OF assms(1)] by linarith

end

interpretation payout: pot_split split_pot
proof
  fix s :: u64 and b :: u16
  assume s: "2 * unat s < 2 ^ 64" and b: "b \<le> MAX_FEE_BPS"
  have le: "fee_of (unat s) (unat b) \<le> 2 * unat s"
    using fee_of_le [of "unat b" "unat s"] b by (simp add: MAX_FEE_BPS_def word_le_nat_alt)
  have "2 * unat s - fee_of (unat s) (unat b) < 2 ^ LENGTH(64)" using s by simp
  then obtain p :: u64 where p: "unat p = 2 * unat s - fee_of (unat s) (unat b)"
    by (rule word_of_unat)
  have "fee_of (unat s) (unat b) < 2 ^ LENGTH(64)" using s le by simp
  then obtain f :: u64 where f: "unat f = fee_of (unat s) (unat b)"
    by (rule word_of_unat)
  have "split_pot s b = Inr (p, f)" using s le p f by (simp add: split_pot_iff)
  then show "\<exists>p f. split_pot s b = Inr (p, f)" by blast
qed (auto simp: split_pot_iff)

section \<open>The split, in exact arithmetic\<close>

text \<open>
  C27. The machine-integer split is the split in unbounded arithmetic: a pot of twice the stake,
  a fee of \<^verbatim>\<open>pot * fee_bps / 10000\<close> rounded down, the payout the rest; and it fails, with
  \<^verbatim>\<open>MathOverflow\<close>, exactly when the pot does not fit 64 bits or the fee exceeds the pot.
\<close>

theorem split_pot_is_exact:
  "split_pot s b =
    (if 2 * unat s < 2 ^ 64 \<and> 2 * unat s * unat b div 10000 \<le> 2 * unat s
     then Inr (of_nat (2 * unat s - 2 * unat s * unat b div 10000),
               of_nat (2 * unat s * unat b div 10000))
     else Inl (Shake MathOverflow))"
proof (cases "2 * unat s < 2 ^ 64 \<and> 2 * unat s * unat b div 10000 \<le> 2 * unat s")
  case True
  have len: "LENGTH(64) = 64" by simp
  from True have "2 * unat s - 2 * unat s * unat b div 10000 < 2 ^ LENGTH(64)"
    "2 * unat s * unat b div 10000 < 2 ^ LENGTH(64)"
    unfolding len by linarith+
  note words = this [THEN unat_of_nat_fits]
  with True show ?thesis
    by (simp only: split_pot_iff fee_of_def words if_True simp_thms)
next
  case False
  then have "split_pot s b \<noteq> Inr (p, f)" for p f by (auto simp: split_pot_iff fee_of_def)
  then obtain e where e: "split_pot s b = Inl e" by (cases "split_pot s b") auto
  with split_pot_error [OF e] False show ?thesis by simp
qed

text \<open>
  C28. Under the hard caps the split always succeeds, pays out all of the pot, and the fee is at
  most a tenth of it.
\<close>

theorem split_pot_within_caps:
  assumes "2 * unat s < 2 ^ 64" "b \<le> MAX_FEE_BPS"
  shows "\<exists>p f. split_pot s b = Inr (p, f) \<and> unat p + unat f = 2 * unat s \<and>
    10 * unat f \<le> 2 * unat s"
proof -
  obtain p f where "split_pot s b = Inr (p, f)"
    using payout.split_defined [OF assms] by blast
  then show ?thesis
    using payout.split_total payout.fee_at_most_tenth [OF _ assms(2)] by blast
qed

theorem split_pot_within_caps_witness:
  "\<exists>p f. split_pot 300 250 = Inr (p, f) \<and> unat p + unat f = 600 \<and> 10 * unat f \<le> 600"
  using split_pot_within_caps [of 300 250] by (simp add: MAX_FEE_BPS_def)

section \<open>The last payment out of a vault\<close>

definition pay_winner_and_close_vault ::
  "env \<Rightarrow> pubkey \<Rightarrow> bytes list \<Rightarrow> pubkey \<Rightarrow> pubkey \<Rightarrow> pubkey \<Rightarrow> pubkey \<Rightarrow> u64 \<Rightarrow> u64 \<Rightarrow> ledger \<Rightarrow>
    error + u64 \<times> ledger"
where
  "pay_winner_and_close_vault E wager seeds vault winner_token fee_token rent_collector
      payout fee L =
    try_bind (transfer_with_seeds E seeds wager vault winner_token payout L) (\<lambda>L1.
    try_bind (if 0 < fee then transfer_with_seeds E seeds wager vault fee_token fee L1
              else Inr L1) (\<lambda>L2.
    try_bind (load_token L2 vault) (\<lambda>v.
    let surplus = t_amount v in
    try_bind (if 0 < surplus
              then transfer_with_seeds E seeds wager vault fee_token surplus L2
              else Inr L2) (\<lambda>L3.
    try_bind (close_with_seeds E seeds wager vault rent_collector L3) (\<lambda>L4.
    Inr (surplus, L4))))))"

text \<open>
  What it leaves: the winner's account has the payout, the fee account everything else the
  vault held (fee and surplus together), the vault is gone and its rent is the collector's.
  Every other balance, and everything but the amounts, is as before.
\<close>

context runtime
begin

lemma pay_winner_effect:
  assumes pay: "pay_winner_and_close_vault E wk seeds vault wt ft rc p f L = Inr (surplus, L')"
    and v: "tokens L vault = Some v"
    and token: "t_mint v \<noteq> native_mint E"
    and ne: "vault \<noteq> wt"
  shows "create_pda E seeds = Some wk"
    and "unat p + unat f \<le> unat (t_amount v)"
    and "unat surplus = unat (t_amount v) - unat p - unat f"
    and "amount_at (tokens L') k =
      (if k = vault then 0
       else amount_at (tokens L) k + (if k = wt then unat p else 0) +
         (if k = ft then unat (t_amount v) - unat p else 0))"
    and "token_data (tokens L') = (token_data (tokens L))(vault := None)"
    and "mints L' = mints L"
    and "lamports L' = drain_lamports vault rc (lamports L)"
    and "rc \<noteq> vault"
proof -
  obtain L1 L2 L3 v2 where
    seeds: "create_pda E seeds = Some wk" and
    t1: "spl_transfer E vault wt wk p L = Inr L1" and
    t2: "(if 0 < f then transfer_with_seeds E seeds wk vault ft f L1 else Inr L1) = Inr L2" and
    v2: "tokens L2 vault = Some v2" and surplus: "surplus = t_amount v2" and
    t3: "(if 0 < surplus then transfer_with_seeds E seeds wk vault ft surplus L2 else Inr L2) = Inr L3" and
    cl: "spl_close_account E vault rc wk L3 = Inr L'"
    using pay by (auto simp: pay_winner_and_close_vault_def Let_def result_simps)
  let ?A = "amount_at (tokens L)" and ?A1 = "amount_at (tokens L1)"
    and ?A2 = "amount_at (tokens L2)" and ?A3 = "amount_at (tokens L3)"
  have d1: "token_data (tokens L1) = token_data (tokens L)" by (rule transfer_data [OF t1])
  obtain v1 where v1: "tokens L1 vault = Some v1" "t_mint v1 = t_mint v"
    using token_data_Some [OF fun_cong [OF d1] v] by metis
  note e2 = payment_effect [OF t2 v1(1)]
  have v2': "t_mint v2 = t_mint v"
    using token_data_Some [OF fun_cong [OF e2(3)] v1(1)] v1(2) v2 by (metis option.inject)
  note e3 = payment_effect [OF t3 v2]
  obtain v3 where v3: "tokens L3 vault = Some v3" "t_mint v3 = t_mint v"
    using token_data_Some [OF fun_cong [OF e3(3)] v2] v2' by metis
  from cl v3 token have z: "?A3 vault = 0" and rc: "rc \<noteq> vault"
    and L': "tokens L' = (tokens L3)(vault := None)" and m': "mints L' = mints L3"
    and l': "lamports L' = drain_lamports vault rc (lamports L3)"
    by (auto elim!: closeE)
  have a1: "?A1 k = (if k = vault then ?A vault - unat p
      else if k = wt then ?A wt + unat p else ?A k)" for k
    using transfer_amount_at [OF t1, of k] ne by simp
  have p: "unat p \<le> ?A vault" by (rule transfer_bound [OF t1])
  have s2: "unat surplus = ?A2 vault" using v2 surplus by simp
  show "create_pda E seeds = Some wk" by (rule seeds)
  show "rc \<noteq> vault" by (rule rc)
  have f: "ft = vault \<Longrightarrow> ?A vault = unat p" and fb: "unat p + unat f \<le> ?A vault"
    and s: "unat surplus = ?A vault - unat p - unat f"
    using p e2(1) e2(2) [of vault] e3(2) [of vault] a1 [of vault] z s2
    by (auto split: if_splits)
  show "unat p + unat f \<le> unat (t_amount v)" using fb v by simp
  show "unat surplus = unat (t_amount v) - unat p - unat f" using s v by simp
  show "amount_at (tokens L') k =
      (if k = vault then 0
       else ?A k + (if k = wt then unat p else 0) +
         (if k = ft then unat (t_amount v) - unat p else 0))"
    using e2(2) [of k] e3(2) [of k] a1 [of k] s2 s f fb v ne L' by auto
  show "token_data (tokens L') = (token_data (tokens L))(vault := None)"
    using L' e3(3) e2(3) d1 by simp
  show "mints L' = mints L" using m' e3(4) e2(4) transfer_mints [OF t1] by simp
  show "lamports L' = drain_lamports vault rc (lamports L)"
    using l' e3(5) e2(5) transfer_lamports [OF t1 v] token v1(2) v2' by simp
qed

end

section \<open>Payments out of a vault spare the other vaults\<close>

definition owned_by :: "pubkey \<Rightarrow> pubkey \<Rightarrow> ledger \<Rightarrow> bool" where
  "owned_by k vault L \<longleftrightarrow> (\<forall>v. tokens L vault = Some v \<longrightarrow> t_owner v = k)"

lemma spares_refl [simp]: "spares E k T T"
  by (simp add: spares_def)

lemma spares_trans:
  assumes "spares E k T1 T2" "spares E k T2 T3"
  shows "spares E k T1 T3"
proof -
  have "token_data T3 j = token_data T1 j \<and> amount_at T1 j \<le> amount_at T3 j"
    if j: "T1 j = Some v" "is_pda E (t_owner v)" "t_owner v \<noteq> k" for j v
  proof -
    from assms(1) j have d: "token_data T2 j = token_data T1 j" "amount_at T1 j \<le> amount_at T2 j"
      unfolding spares_def by metis+
    obtain v2 where "T2 j = Some v2" "t_owner v2 = t_owner v"
      using token_data_Some [OF d(1) j(1)] by metis
    with assms(2) j have "token_data T3 j = token_data T2 j" "amount_at T2 j \<le> amount_at T3 j"
      unfolding spares_def by metis+
    with d show ?thesis by simp
  qed
  with assms show ?thesis by (simp add: spares_def)
qed

context chain
begin

lemma transfer_spares:
  assumes "spl_transfer E vault to a n L = Inr L'" "owned_by k vault L"
  shows "spares E k (tokens L) (tokens L')" and "owned_by k j L \<Longrightarrow> owned_by k j L'"
proof -
  show "spares E k (tokens L) (tokens L')"
    using spares_payment [OF assms(1)] assms(2) by (simp add: owned_by_def)
  have "token_data (tokens L) j = token_data (tokens L') j"
    using transfer_data [OF assms(1)] by simp
  then show "owned_by k j L \<Longrightarrow> owned_by k j L'"
    unfolding owned_by_def by (metis token_data_Some)
qed

lemma payment_spares:
  assumes "(if 0 < n then transfer_with_seeds E s a vault to n L else Inr L) = Inr L'"
    and "owned_by k vault L"
  shows "spares E k (tokens L) (tokens L')" and "owned_by k vault L'"
  using assms transfer_spares by (auto simp: result_simps split: if_splits)

lemma close_spares:
  assumes "spl_close_account E vault d a L = Inr L'" "owned_by k vault L"
  shows "spares E k (tokens L) (tokens L')"
proof -
  obtain v where "tokens L vault = Some v" "tokens L' = (tokens L)(vault := None)"
    by (rule closeE [OF assms(1)])
  with assms(2) show ?thesis by (auto simp: spares_def owned_by_def)
qed

lemma pay_winner_spares:
  assumes "pay_winner_and_close_vault E wk seeds vault wt ft rc p f L = Inr (surplus, L')"
    and o: "owned_by k vault L"
  shows "spares E k (tokens L) (tokens L')"
proof -
  obtain L1 L2 L3 where
    t1: "spl_transfer E vault wt wk p L = Inr L1" and
    t2: "(if 0 < f then transfer_with_seeds E seeds wk vault ft f L1 else Inr L1) = Inr L2" and
    t3: "(if 0 < surplus then transfer_with_seeds E seeds wk vault ft surplus L2 else Inr L2) = Inr L3" and
    cl: "spl_close_account E vault rc wk L3 = Inr L'"
    using assms(1) by (auto simp: pay_winner_and_close_vault_def Let_def result_simps)
  note s1 = transfer_spares(1) [OF t1 o] and o1 = transfer_spares(2) [OF t1 o o]
  note s2 = payment_spares [OF t2 o1]
  note s3 = payment_spares [OF t3 s2(2)]
  show ?thesis
    by (rule spares_trans [OF spares_trans [OF spares_trans [OF s1 s2(1)] s3(1)]
        close_spares [OF cl s3(2)]])
qed

end

end
