(* ===== verification/Config_Admin.thy ===== *)
theory Config_Admin
  imports Payout
begin

text \<open>
  The configuration and its administration (\<^verbatim>\<open>initialize_config.rs\<close>, \<^verbatim>\<open>update_config.rs\<close>,
  \<^verbatim>\<open>admin_transfer.rs\<close>). As everywhere in the development an instruction is one accounts
  record, one \<open>validate_\<close> function for the attributes of the source's accounts struct in the
  order the framework evaluates them (the accounts are loaded, those to be initialized are
  created, duplicates are refused, then the constraints field by field), and one \<open>handle_\<close>
  function for the handler and the write-back at its end.
\<close>

section \<open>initialize_config\<close>

record initialize_config_args =
  ia_mint :: pubkey
  ia_fee_bps :: u16
  ia_fee_destination :: pubkey
  ia_rent_collector :: pubkey
  ia_min_stake :: u64
  ia_max_stake :: u64
  ia_max_open_per_wallet :: u8
  ia_resolvers :: "pubkey list"
  ia_max_window :: i64
  ia_max_total_open :: u64

record initialize_config_accounts =
  ic_authority :: pubkey
  ic_config :: pubkey
  ic_program :: pubkey
  ic_program_data :: pubkey
  ic_system_program :: pubkey

definition validate_initialize_config ::
  "env \<Rightarrow> pubkey set \<Rightarrow> initialize_config_accounts \<Rightarrow> world \<Rightarrow> error + world" where
  "validate_initialize_config E sg a W =
    require (ic_authority a \<in> sg) (Anchor AccountNotSigner)
    (require (ic_program a = program_id E) (Anchor InvalidProgramId)
    (try_bind (ok_or (program_data W (ic_program_data a))
        (missing_account (ledger W) (ic_program_data a)))
      (\<lambda>upgrade_authority_address.
    require (ic_system_program a = system_program_id E) (Anchor InvalidProgramId)
    (require (ic_config a = fst (find_pda E config_seeds)) (Anchor ConstraintSeeds)
    (try_bind (init_account E (ic_authority a) (ic_config a) (8 + CONFIG_INIT_SPACE) W) (\<lambda>W1.
    require (programdata_address E = Some (ic_program_data a)) (Shake NotUpgradeAuthority)
    (require (upgrade_authority_address = Some (ic_authority a)) (Shake NotUpgradeAuthority)
      (Inr W1))))))))"

definition validate_config_values ::
  "u16 \<Rightarrow> u64 \<Rightarrow> u64 \<Rightarrow> pubkey list \<Rightarrow> i64 \<Rightarrow> u8 \<Rightarrow> u64 \<Rightarrow> error + unit" where
  "validate_config_values fee_bps min_stake max_stake resolvers max_window max_open_per_wallet
      max_total_open =
    require (fee_bps \<le> MAX_FEE_BPS) (Shake FeeTooHigh)
    (require (0 < min_stake \<and> min_stake \<le> max_stake) (Shake BadStakeBounds)
    (require (resolvers \<noteq> [] \<and> length resolvers \<le> RESOLVER_ALLOWLIST_LEN \<and>
        (\<forall>r \<in> set resolvers. r \<noteq> default_key)) (Shake BadResolverList)
    (require (0 <s max_window \<and> max_window \<le>s MAX_WINDOW_CAP) (Shake BadWindow)
    (require (0 < max_open_per_wallet \<and> max_stake \<le> max_total_open div 2)
        (Shake BadExposureCaps)
      (Inr ())))))"

text \<open>The loop that copies the resolvers into the array; an index past it panics.\<close>

fun write_resolvers :: "nat \<Rightarrow> pubkey list \<Rightarrow> pubkey list \<Rightarrow> error + pubkey list" where
  "write_resolvers i [] arr = Inr arr"
| "write_resolvers i (r # rs) arr =
    require (i < length arr) (Panic IndexOutOfBounds) (write_resolvers (Suc i) rs (arr[i := r]))"

definition handle_initialize_config ::
  "env \<Rightarrow> pubkey set \<Rightarrow> initialize_config_accounts \<Rightarrow> initialize_config_args \<Rightarrow> world \<Rightarrow>
    error + world" where
  "handle_initialize_config E sg a args W =
    try_bind (validate_initialize_config E sg a W) (\<lambda>W1.
    try_bind (validate_config_values (ia_fee_bps args) (ia_min_stake args) (ia_max_stake args)
      (ia_resolvers args) (ia_max_window args) (ia_max_open_per_wallet args)
      (ia_max_total_open args)) (\<lambda>_.
    require (ia_mint args \<noteq> default_key \<and> ia_fee_destination args \<noteq> default_key \<and>
        ia_rent_collector args \<noteq> default_key) (Shake DefaultAddress)
    (try_bind (write_resolvers 0 (ia_resolvers args)
        (replicate RESOLVER_ALLOWLIST_LEN default_key)) (\<lambda>allowlist.
    Inr (put_acct (ic_config a) (ConfigAcc
      \<lparr>c_admin = ic_authority a,
       c_mint = ia_mint args,
       c_fee_bps = ia_fee_bps args,
       c_fee_destination = ia_fee_destination args,
       c_rent_collector = ia_rent_collector args,
       c_min_stake = ia_min_stake args,
       c_max_stake = ia_max_stake args,
       c_max_open_per_wallet = ia_max_open_per_wallet args,
       c_resolver_allowlist = allowlist,
       c_resolver_count = of_nat (length (ia_resolvers args)),
       c_paused = False,
       c_max_window = ia_max_window args,
       c_max_total_open = ia_max_total_open args,
       c_total_open_value = 0,
       c_bump = snd (find_pda E config_seeds)\<rparr>) W1)))))"

section \<open>update_config\<close>

record update_config_args =
  ua_fee_bps :: "u16 option"
  ua_fee_destination :: "pubkey option"
  ua_rent_collector :: "pubkey option"
  ua_min_stake :: "u64 option"
  ua_max_stake :: "u64 option"
  ua_max_open_per_wallet :: "u8 option"
  ua_resolvers :: "pubkey list option"
  ua_paused :: "bool option"
  ua_max_window :: "i64 option"
  ua_max_total_open :: "u64 option"

record update_config_accounts =
  uc_admin :: pubkey
  uc_config :: pubkey

definition validate_update_config ::
  "env \<Rightarrow> pubkey set \<Rightarrow> update_config_accounts \<Rightarrow> world \<Rightarrow> error + config" where
  "validate_update_config E sg a W =
    require (uc_admin a \<in> sg) (Anchor AccountNotSigner)
    (try_bind (load_config W (uc_config a)) (\<lambda>c.
    require (mut_guard E [uc_config a]) (Anchor ConstraintDuplicateMutableAccount)
    (require (uc_admin a = c_admin c) (Shake NotAdmin)
    (require (pda_at E config_seeds (c_bump c) (uc_config a)) (Anchor ConstraintSeeds)
      (Inr c)))))"

text \<open>\<^verbatim>\<open>Option::unwrap_or\<close>.\<close>

definition unwrap_or :: "'a option \<Rightarrow> 'a \<Rightarrow> 'a" where
  "unwrap_or x d = (case x of None \<Rightarrow> d | Some y \<Rightarrow> y)"

definition handle_update_config ::
  "env \<Rightarrow> pubkey set \<Rightarrow> update_config_accounts \<Rightarrow> update_config_args \<Rightarrow> world \<Rightarrow> error + world"
where
  "handle_update_config E sg a args W =
    try_bind (validate_update_config E sg a W) (\<lambda>c.
    let fee_bps = unwrap_or (ua_fee_bps args) (c_fee_bps c);
        min_stake = unwrap_or (ua_min_stake args) (c_min_stake c);
        max_stake = unwrap_or (ua_max_stake args) (c_max_stake c);
        max_window = unwrap_or (ua_max_window args) (c_max_window c);
        max_open_per_wallet = unwrap_or (ua_max_open_per_wallet args) (c_max_open_per_wallet c);
        max_total_open = unwrap_or (ua_max_total_open args) (c_max_total_open c)
    in try_bind (allowlist_slice c) (\<lambda>default_resolvers.
    let resolvers = unwrap_or (ua_resolvers args) default_resolvers
    in try_bind (validate_config_values fee_bps min_stake max_stake resolvers max_window
      max_open_per_wallet max_total_open) (\<lambda>_.
    let c1 = c\<lparr>c_fee_bps := fee_bps, c_min_stake := min_stake, c_max_stake := max_stake,
               c_max_window := max_window, c_max_open_per_wallet := max_open_per_wallet,
               c_max_total_open := max_total_open\<rparr>
    in try_bind (case ua_fee_destination args of
        None \<Rightarrow> Inr c1
      | Some v \<Rightarrow> require (v \<noteq> default_key) (Shake DefaultAddress)
          (Inr (c1\<lparr>c_fee_destination := v\<rparr>))) (\<lambda>c2.
    try_bind (case ua_rent_collector args of
        None \<Rightarrow> Inr c2
      | Some v \<Rightarrow> require (v \<noteq> default_key) (Shake DefaultAddress)
          (Inr (c2\<lparr>c_rent_collector := v\<rparr>))) (\<lambda>c3.
    try_bind (case ua_resolvers args of
        None \<Rightarrow> Inr c3
      | Some _ \<Rightarrow>
          try_bind (write_resolvers 0 resolvers (replicate RESOLVER_ALLOWLIST_LEN default_key))
            (\<lambda>allowlist.
          Inr (c3\<lparr>c_resolver_allowlist := allowlist,
                  c_resolver_count := of_nat (length resolvers)\<rparr>))) (\<lambda>c4.
    let c5 = (case ua_paused args of None \<Rightarrow> c4 | Some v \<Rightarrow> c4\<lparr>c_paused := v\<rparr>)
    in Inr (put_acct (uc_config a) (ConfigAcc c5) W)))))))"

section \<open>propose_admin, accept_admin, cancel_admin_transfer\<close>

record propose_admin_accounts =
  pa_admin :: pubkey
  pa_config :: pubkey
  pa_admin_transfer :: pubkey
  pa_system_program :: pubkey

definition validate_propose_admin ::
  "env \<Rightarrow> pubkey set \<Rightarrow> propose_admin_accounts \<Rightarrow> world \<Rightarrow>
    error + config \<times> admin_transfer \<times> world" where
  "validate_propose_admin E sg a W =
    require (pa_admin a \<in> sg) (Anchor AccountNotSigner)
    (try_bind (load_config W (pa_config a)) (\<lambda>c.
    require (pa_system_program a = system_program_id E) (Anchor InvalidProgramId)
    (try_bind (init_if_needed_transfer E (pa_admin a) (pa_admin_transfer a)
        admin_transfer_seeds W) (\<lambda>(t, W1).
    require (pa_admin a = c_admin c) (Shake NotAdmin)
    (require (pda_at E config_seeds (c_bump c) (pa_config a)) (Anchor ConstraintSeeds)
      (Inr (c, t, W1)))))))"

definition handle_propose_admin ::
  "env \<Rightarrow> pubkey set \<Rightarrow> propose_admin_accounts \<Rightarrow> pubkey \<Rightarrow> world \<Rightarrow> error + world" where
  "handle_propose_admin E sg a new_admin W =
    try_bind (validate_propose_admin E sg a W) (\<lambda>(c, t, W1).
    require (new_admin \<noteq> default_key \<and> new_admin \<noteq> c_admin c) (Shake BadNewAdmin)
    (let t1 = t\<lparr>at_proposed := new_admin, at_bump := snd (find_pda E admin_transfer_seeds)\<rparr>
     in Inr (put_acct (pa_admin_transfer a) (TransferAcc t1)
          (emit_cpi (AdminTransferProposed new_admin) W1))))"

record accept_admin_accounts =
  aa_new_admin :: pubkey
  aa_config :: pubkey
  aa_admin_transfer :: pubkey
  aa_previous_admin :: pubkey

definition validate_accept_admin ::
  "env \<Rightarrow> pubkey set \<Rightarrow> accept_admin_accounts \<Rightarrow> world \<Rightarrow> error + config" where
  "validate_accept_admin E sg a W =
    require (aa_new_admin a \<in> sg) (Anchor AccountNotSigner)
    (try_bind (load_config W (aa_config a)) (\<lambda>c.
    try_bind (load_transfer W (aa_admin_transfer a)) (\<lambda>t.
    require (mut_guard E [aa_config a, aa_admin_transfer a])
      (Anchor ConstraintDuplicateMutableAccount)
    (require (pda_at E config_seeds (c_bump c) (aa_config a)) (Anchor ConstraintSeeds)
    (require (pda_at E admin_transfer_seeds (at_bump t) (aa_admin_transfer a))
      (Anchor ConstraintSeeds)
    (require (at_proposed t = aa_new_admin a) (Shake NotProposedAdmin)
    (require (aa_admin_transfer a \<noteq> aa_previous_admin a) (Anchor ConstraintClose)
    (require (aa_previous_admin a = c_admin c) (Shake NotAdmin)
      (Inr c)))))))))"

definition handle_accept_admin ::
  "env \<Rightarrow> pubkey set \<Rightarrow> accept_admin_accounts \<Rightarrow> world \<Rightarrow> error + world" where
  "handle_accept_admin E sg a W =
    try_bind (validate_accept_admin E sg a W) (\<lambda>c.
    let previous = c_admin c; admin = aa_new_admin a; c1 = c\<lparr>c_admin := admin\<rparr>
    in Inr (close_acct (aa_admin_transfer a) (aa_previous_admin a)
         (put_acct (aa_config a) (ConfigAcc c1)
           (emit_cpi (AdminTransferred previous admin) W))))"

record cancel_admin_transfer_accounts =
  ct_admin :: pubkey
  ct_config :: pubkey
  ct_admin_transfer :: pubkey

definition validate_cancel_admin_transfer ::
  "env \<Rightarrow> pubkey set \<Rightarrow> cancel_admin_transfer_accounts \<Rightarrow> world \<Rightarrow> error + admin_transfer" where
  "validate_cancel_admin_transfer E sg a W =
    require (ct_admin a \<in> sg) (Anchor AccountNotSigner)
    (try_bind (load_config W (ct_config a)) (\<lambda>c.
    try_bind (load_transfer W (ct_admin_transfer a)) (\<lambda>t.
    require (mut_guard E [ct_admin_transfer a]) (Anchor ConstraintDuplicateMutableAccount)
    (require (ct_admin a = c_admin c) (Shake NotAdmin)
    (require (pda_at E config_seeds (c_bump c) (ct_config a)) (Anchor ConstraintSeeds)
    (require (pda_at E admin_transfer_seeds (at_bump t) (ct_admin_transfer a))
      (Anchor ConstraintSeeds)
    (require (ct_admin_transfer a \<noteq> ct_admin a) (Anchor ConstraintClose)
      (Inr t))))))))"

definition handle_cancel_admin_transfer ::
  "env \<Rightarrow> pubkey set \<Rightarrow> cancel_admin_transfer_accounts \<Rightarrow> world \<Rightarrow> error + world" where
  "handle_cancel_admin_transfer E sg a W =
    try_bind (validate_cancel_admin_transfer E sg a W) (\<lambda>t.
    Inr (close_acct (ct_admin_transfer a) (ct_admin a)
      (emit_cpi (AdminTransferCancelled (at_proposed t)) W)))"

section \<open>When the values are accepted\<close>

lemma validate_config_values_Inr [result_simps]:
  "validate_config_values f lo hi rs win n cap = Inr u \<longleftrightarrow>
    f \<le> MAX_FEE_BPS \<and> 0 < lo \<and> lo \<le> hi \<and> rs \<noteq> [] \<and> length rs \<le> RESOLVER_ALLOWLIST_LEN \<and>
    (\<forall>r \<in> set rs. r \<noteq> default_key) \<and> 0 <s win \<and> win \<le>s MAX_WINDOW_CAP \<and> 0 < n \<and>
    hi \<le> cap div 2"
  by (auto simp: validate_config_values_def result_simps)

lemma half_cap_iff: "hi \<le> cap div 2 \<longleftrightarrow> 2 * unat hi \<le> unat cap" for hi cap :: u64
  by (auto simp: word_le_nat_alt unat_div)

lemma write_resolvers_eq:
  "i + length rs \<le> length arr \<Longrightarrow>
    write_resolvers i rs arr = Inr (take i arr @ rs @ drop (i + length rs) arr)"
proof (induction rs arbitrary: i arr)
  case (Cons r rs)
  then have "write_resolvers (Suc i) rs (arr[i := r]) =
      Inr (take (Suc i) (arr[i := r]) @ rs @ drop (Suc i + length rs) (arr[i := r]))"
    by simp
  with Cons.prems show ?case by (simp add: take_Suc_conv_app_nth)
qed simp

lemma write_resolvers_fresh:
  assumes "length rs \<le> RESOLVER_ALLOWLIST_LEN"
  shows "write_resolvers 0 rs (replicate RESOLVER_ALLOWLIST_LEN d) =
    Inr (rs @ replicate (RESOLVER_ALLOWLIST_LEN - length rs) d)"
  using write_resolvers_eq [of 0 rs "replicate RESOLVER_ALLOWLIST_LEN d"] assms by simp

lemma resolver_count_byte:
  assumes "length rs \<le> RESOLVER_ALLOWLIST_LEN"
  shows "unat (of_nat (length rs) :: u8) = length rs"
  using assms by (intro unat_of_nat_fits) (simp add: RESOLVER_ALLOWLIST_LEN_def)

lemma resolver_list_ok:
  assumes "rs \<noteq> []" "length rs \<le> RESOLVER_ALLOWLIST_LEN"
  shows "length (rs @ replicate (RESOLVER_ALLOWLIST_LEN - length rs) d) = 4"
    and "1 \<le> unat (of_nat (length rs) :: u8)" "unat (of_nat (length rs) :: u8) \<le> 4"
    and "take (unat (of_nat (length rs) :: u8)) (rs @ replicate (RESOLVER_ALLOWLIST_LEN - length rs) d) = rs"
proof -
  show "length (rs @ replicate (RESOLVER_ALLOWLIST_LEN - length rs) d) = 4"
    using assms by (simp add: RESOLVER_ALLOWLIST_LEN_def)
  show "1 \<le> unat (of_nat (length rs) :: u8)" "unat (of_nat (length rs) :: u8) \<le> 4"
    using assms resolver_count_byte [OF assms(2)]
    by (simp_all add: Suc_le_eq RESOLVER_ALLOWLIST_LEN_def)
  show "take (unat (of_nat (length rs) :: u8)) (rs @ replicate (RESOLVER_ALLOWLIST_LEN - length rs) d) = rs"
    by (simp add: resolver_count_byte [OF assms(2)])
qed

section \<open>What a success means\<close>

lemma validate_initialize_config_Inr [result_simps]:
  "validate_initialize_config E sg a W = Inr W1 \<longleftrightarrow>
    ic_authority a \<in> sg \<and> ic_program a = program_id E \<and>
    program_data W (ic_program_data a) = Some (Some (ic_authority a)) \<and>
    programdata_address E = Some (ic_program_data a) \<and>
    ic_system_program a = system_program_id E \<and> ic_config a = config_key E \<and>
    init_account E (ic_authority a) (ic_config a) (8 + CONFIG_INIT_SPACE) W = Inr W1"
  by (auto simp: validate_initialize_config_def result_simps config_key_def)

text \<open>The configuration an accepted initialization leaves.\<close>

definition initial_config ::
  "env \<Rightarrow> initialize_config_accounts \<Rightarrow> initialize_config_args \<Rightarrow> config" where
  "initial_config E a args =
    \<lparr>c_admin = ic_authority a,
     c_mint = ia_mint args,
     c_fee_bps = ia_fee_bps args,
     c_fee_destination = ia_fee_destination args,
     c_rent_collector = ia_rent_collector args,
     c_min_stake = ia_min_stake args,
     c_max_stake = ia_max_stake args,
     c_max_open_per_wallet = ia_max_open_per_wallet args,
     c_resolver_allowlist = ia_resolvers args @
       replicate (RESOLVER_ALLOWLIST_LEN - length (ia_resolvers args)) default_key,
     c_resolver_count = of_nat (length (ia_resolvers args)),
     c_paused = False,
     c_max_window = ia_max_window args,
     c_max_total_open = ia_max_total_open args,
     c_total_open_value = 0,
     c_bump = snd (find_pda E config_seeds)\<rparr>"

lemma initialize_config_success:
  assumes "handle_initialize_config E sg a args W = Inr W'"
  obtains L where
    "ic_authority a \<in> sg" "programdata_address E = Some (ic_program_data a)"
    "program_data W (ic_program_data a) = Some (Some (ic_authority a))"
    "ic_config a = config_key E" "accts W (config_key E) = None"
    "create_account E (ic_authority a) (ic_config a) (8 + CONFIG_INIT_SPACE) (ledger W) = Inr L"
    "validate_config_values (ia_fee_bps args) (ia_min_stake args) (ia_max_stake args)
      (ia_resolvers args) (ia_max_window args) (ia_max_open_per_wallet args)
      (ia_max_total_open args) = Inr ()"
    "ia_mint args \<noteq> default_key" "ia_fee_destination args \<noteq> default_key"
    "ia_rent_collector args \<noteq> default_key"
    "W' = put_acct (config_key E) (ConfigAcc (initial_config E a args)) (W\<lparr>ledger := L\<rparr>)"
proof -
  have "length (ia_resolvers args) \<le> RESOLVER_ALLOWLIST_LEN"
    using assms by (auto simp: handle_initialize_config_def try_bind_Inr validate_config_values_Inr)
  from write_resolvers_fresh [OF this] that assms show thesis
    by (auto simp: handle_initialize_config_def try_bind_Inr require_Inr initial_config_def
        validate_initialize_config_Inr init_account_Inr)
qed

lemma valid_fee_bps: "f \<le> MAX_FEE_BPS \<longleftrightarrow> unat f \<le> 1000"
  by (simp add: MAX_FEE_BPS_def word_le_nat_alt)

lemma initial_config_wf:
  assumes v: "validate_config_values (ia_fee_bps args) (ia_min_stake args) (ia_max_stake args)
      (ia_resolvers args) (ia_max_window args) (ia_max_open_per_wallet args)
      (ia_max_total_open args) = Inr u"
    and "ia_mint args \<noteq> default_key" "ia_fee_destination args \<noteq> default_key"
      "ia_rent_collector args \<noteq> default_key"
  shows "config_wf (initial_config E a args)"
    and "allowlist_slice (initial_config E a args) = Inr (ia_resolvers args)"
proof -
  have ne: "ia_resolvers args \<noteq> []" and len: "length (ia_resolvers args) \<le> RESOLVER_ALLOWLIST_LEN"
    using v by (simp_all add: validate_config_values_Inr)
  note rl = resolver_list_ok(1) [OF ne len, of default_key] resolver_list_ok(2,3) [OF ne len]
    resolver_list_ok(4) [OF ne len, of default_key]
  show "config_wf (initial_config E a args)"
    using v assms(2-) rl
    by (simp add: config_wf_def initial_config_def validate_config_values_Inr half_cap_iff
        valid_fee_bps)
  show "allowlist_slice (initial_config E a args) = Inr (ia_resolvers args)"
    using rl by (simp add: allowlist_slice_def initial_config_def)
qed

text \<open>The configuration an accepted update leaves.\<close>

definition updated_config :: "update_config_args \<Rightarrow> config \<Rightarrow> pubkey list \<Rightarrow> config" where
  "updated_config args c rs = c\<lparr>
     c_fee_bps := unwrap_or (ua_fee_bps args) (c_fee_bps c),
     c_min_stake := unwrap_or (ua_min_stake args) (c_min_stake c),
     c_max_stake := unwrap_or (ua_max_stake args) (c_max_stake c),
     c_max_window := unwrap_or (ua_max_window args) (c_max_window c),
     c_max_open_per_wallet := unwrap_or (ua_max_open_per_wallet args) (c_max_open_per_wallet c),
     c_max_total_open := unwrap_or (ua_max_total_open args) (c_max_total_open c),
     c_fee_destination := unwrap_or (ua_fee_destination args) (c_fee_destination c),
     c_rent_collector := unwrap_or (ua_rent_collector args) (c_rent_collector c),
     c_resolver_allowlist := (if ua_resolvers args = None then c_resolver_allowlist c
       else rs @ replicate (RESOLVER_ALLOWLIST_LEN - length rs) default_key),
     c_resolver_count := (if ua_resolvers args = None then c_resolver_count c
       else of_nat (length rs)),
     c_paused := unwrap_or (ua_paused args) (c_paused c)\<rparr>"

lemma unwrap_or_simps [simp]: "unwrap_or None d = d" "unwrap_or (Some x) d = x"
  by (simp_all add: unwrap_or_def)

lemma validate_update_config_Inr [result_simps]:
  "validate_update_config E sg a W = Inr c \<longleftrightarrow>
    uc_admin a \<in> sg \<and> accts W (uc_config a) = Some (ConfigAcc c) \<and> mut_guard E [uc_config a] \<and>
    uc_admin a = c_admin c \<and> pda_at E config_seeds (c_bump c) (uc_config a)"
  by (auto simp: validate_update_config_def result_simps)

lemma update_config_success:
  assumes "handle_update_config E sg a args W = Inr W'"
  obtains c d rs where
    "validate_update_config E sg a W = Inr c" "allowlist_slice c = Inr d"
    "rs = unwrap_or (ua_resolvers args) d"
    "validate_config_values (unwrap_or (ua_fee_bps args) (c_fee_bps c))
      (unwrap_or (ua_min_stake args) (c_min_stake c))
      (unwrap_or (ua_max_stake args) (c_max_stake c)) rs
      (unwrap_or (ua_max_window args) (c_max_window c))
      (unwrap_or (ua_max_open_per_wallet args) (c_max_open_per_wallet c))
      (unwrap_or (ua_max_total_open args) (c_max_total_open c)) = Inr ()"
    "ua_fee_destination args \<noteq> Some default_key" "ua_rent_collector args \<noteq> Some default_key"
    "W' = put_acct (uc_config a) (ConfigAcc (updated_config args c rs)) W"
proof -
  from assms obtain c d where c: "validate_update_config E sg a W = Inr c"
    and d: "allowlist_slice c = Inr d"
    by (auto simp: handle_update_config_def Let_def try_bind_Inr)
  let ?rs = "unwrap_or (ua_resolvers args) d"
  from assms c d have len: "length ?rs \<le> RESOLVER_ALLOWLIST_LEN"
    by (auto simp: handle_update_config_def Let_def try_bind_Inr validate_config_values_Inr)
  note w = write_resolvers_fresh [OF len, where d = default_key]
  have vals: "validate_config_values (unwrap_or (ua_fee_bps args) (c_fee_bps c))
      (unwrap_or (ua_min_stake args) (c_min_stake c))
      (unwrap_or (ua_max_stake args) (c_max_stake c)) ?rs
      (unwrap_or (ua_max_window args) (c_max_window c))
      (unwrap_or (ua_max_open_per_wallet args) (c_max_open_per_wallet c))
      (unwrap_or (ua_max_total_open args) (c_max_total_open c)) = Inr ()"
    using assms c d by (auto simp: handle_update_config_def Let_def try_bind_Inr)
  have "ua_fee_destination args \<noteq> Some default_key \<and> ua_rent_collector args \<noteq> Some default_key \<and>
      put_acct (uc_config a) (ConfigAcc (updated_config args c ?rs)) W = W'"
    using assms c d vals w
    by (cases "ua_fee_destination args"; cases "ua_rent_collector args"; cases "ua_resolvers args";
        cases "ua_paused args")
      (simp_all add: handle_update_config_def Let_def try_bind_Inr require_Inr updated_config_def)
  with that [OF c d refl vals] show thesis by blast
qed

lemma validate_propose_admin_Inr:
  "validate_propose_admin E sg a W = Inr (c, t, W1) \<longleftrightarrow>
    pa_admin a \<in> sg \<and> accts W (pa_config a) = Some (ConfigAcc c) \<and>
    pa_system_program a = system_program_id E \<and>
    init_if_needed_transfer E (pa_admin a) (pa_admin_transfer a) admin_transfer_seeds W =
      Inr (t, W1) \<and>
    pa_admin a = c_admin c \<and> pda_at E config_seeds (c_bump c) (pa_config a)"
  by (auto simp: validate_propose_admin_def require_Inr try_bind_Inr load_config_Inr)

lemma propose_admin_success:
  assumes "handle_propose_admin E sg a new_admin W = Inr W'"
  obtains c t W1 where "validate_propose_admin E sg a W = Inr (c, t, W1)"
    "new_admin \<noteq> default_key" "new_admin \<noteq> c_admin c"
    "W' = put_acct (pa_admin_transfer a)
      (TransferAcc \<lparr>at_proposed = new_admin, at_bump = snd (find_pda E admin_transfer_seeds)\<rparr>)
      (emit_cpi (AdminTransferProposed new_admin) W1)"
proof -
  have "t\<lparr>at_proposed := p, at_bump := b\<rparr> = \<lparr>at_proposed = p, at_bump = b\<rparr>" for t p b
    by simp
  with assms that show thesis
    by (auto simp: handle_propose_admin_def require_Inr try_bind_Inr)
qed

lemma validate_accept_admin_Inr:
  "validate_accept_admin E sg a W = Inr c \<longleftrightarrow>
    aa_new_admin a \<in> sg \<and> accts W (aa_config a) = Some (ConfigAcc c) \<and>
    (\<exists>t. accts W (aa_admin_transfer a) = Some (TransferAcc t) \<and>
      at_proposed t = aa_new_admin a \<and>
      pda_at E admin_transfer_seeds (at_bump t) (aa_admin_transfer a)) \<and>
    mut_guard E [aa_config a, aa_admin_transfer a] \<and>
    pda_at E config_seeds (c_bump c) (aa_config a) \<and>
    aa_admin_transfer a \<noteq> aa_previous_admin a \<and> aa_previous_admin a = c_admin c"
  by (auto simp: validate_accept_admin_def result_simps)

lemma accept_admin_success:
  assumes "handle_accept_admin E sg a W = Inr W'"
  obtains c where "validate_accept_admin E sg a W = Inr c"
    "W' = close_acct (aa_admin_transfer a) (c_admin c)
      (put_acct (aa_config a) (ConfigAcc (c\<lparr>c_admin := aa_new_admin a\<rparr>))
        (emit_cpi (AdminTransferred (c_admin c) (aa_new_admin a)) W))"
  using assms by (auto simp: handle_accept_admin_def Let_def try_bind_Inr validate_accept_admin_Inr)

lemma validate_cancel_admin_transfer_Inr:
  "validate_cancel_admin_transfer E sg a W = Inr t \<longleftrightarrow>
    ct_admin a \<in> sg \<and>
    (\<exists>c. accts W (ct_config a) = Some (ConfigAcc c) \<and> ct_admin a = c_admin c \<and>
      pda_at E config_seeds (c_bump c) (ct_config a)) \<and>
    accts W (ct_admin_transfer a) = Some (TransferAcc t) \<and>
    mut_guard E [ct_admin_transfer a] \<and>
    pda_at E admin_transfer_seeds (at_bump t) (ct_admin_transfer a) \<and>
    ct_admin_transfer a \<noteq> ct_admin a"
  by (auto simp: validate_cancel_admin_transfer_def result_simps)

lemma cancel_admin_transfer_success:
  assumes "handle_cancel_admin_transfer E sg a W = Inr W'"
  obtains t where "validate_cancel_admin_transfer E sg a W = Inr t"
    "W' = close_acct (ct_admin_transfer a) (ct_admin a)
      (emit_cpi (AdminTransferCancelled (at_proposed t)) W)"
  using assms by (auto simp: handle_cancel_admin_transfer_def try_bind_Inr)

section \<open>What they keep\<close>

text \<open>An accepted update is well-formed again, and leaves mint, admin and accumulator alone.\<close>

lemma updated_config_frame [simp]:
  "c_admin (updated_config args c rs) = c_admin c"
  "c_mint (updated_config args c rs) = c_mint c"
  "c_total_open_value (updated_config args c rs) = c_total_open_value c"
  "c_bump (updated_config args c rs) = c_bump c"
  by (simp_all add: updated_config_def)

lemma updated_config_wf:
  assumes cw: "config_wf c" and d: "allowlist_slice c = Inr d"
    and rs: "rs = unwrap_or (ua_resolvers args) d"
    and v: "validate_config_values (unwrap_or (ua_fee_bps args) (c_fee_bps c))
      (unwrap_or (ua_min_stake args) (c_min_stake c))
      (unwrap_or (ua_max_stake args) (c_max_stake c)) rs
      (unwrap_or (ua_max_window args) (c_max_window c))
      (unwrap_or (ua_max_open_per_wallet args) (c_max_open_per_wallet c))
      (unwrap_or (ua_max_total_open args) (c_max_total_open c)) = Inr u"
    and nd: "ua_fee_destination args \<noteq> Some default_key" "ua_rent_collector args \<noteq> Some default_key"
  shows "config_wf (updated_config args c rs)"
    and "allowlist_slice (updated_config args c rs) = Inr rs"
proof -
  have ne: "rs \<noteq> []" and len: "length rs \<le> RESOLVER_ALLOWLIST_LEN"
    and all: "\<forall>r \<in> set rs. r \<noteq> default_key"
    using v by (simp_all add: validate_config_values_Inr)
  note rl = resolver_list_ok(1) [OF ne len, of default_key] resolver_list_ok(2,3) [OF ne len]
    resolver_list_ok(4) [OF ne len, of default_key]
  have fd: "unwrap_or (ua_fee_destination args) (c_fee_destination c) \<noteq> default_key"
    "unwrap_or (ua_rent_collector args) (c_rent_collector c) \<noteq> default_key"
    using nd cw by (cases "ua_fee_destination args"; cases "ua_rent_collector args";
        simp add: config_wf_def)+
  have list: "length (c_resolver_allowlist (updated_config args c rs)) = 4 \<and>
      1 \<le> unat (c_resolver_count (updated_config args c rs)) \<and>
      unat (c_resolver_count (updated_config args c rs)) \<le> 4 \<and>
      take (unat (c_resolver_count (updated_config args c rs)))
        (c_resolver_allowlist (updated_config args c rs)) = rs"
  proof (cases "ua_resolvers args")
    case None
    with cw d rs show ?thesis
      by (simp add: updated_config_def config_wf_def allowlist_slice_def result_simps)
  next
    case (Some x)
    with rl show ?thesis by (simp add: updated_config_def)
  qed
  show "config_wf (updated_config args c rs)"
    using v fd list all cw
    by (simp add: config_wf_def validate_config_values_Inr half_cap_iff valid_fee_bps)
      (simp add: updated_config_def validate_config_values_Inr half_cap_iff valid_fee_bps)
  show "allowlist_slice (updated_config args c rs) = Inr rs"
    using list by (simp add: allowlist_slice_def)
qed

text \<open>
  The books see of these instructions only that a configuration may appear, with no stake in
  it, and that its values may change.
\<close>

context chain
begin

lemma update_config_inv:
  assumes inv: "inv E W" and run: "handle_update_config E sg a args W = Inr W'"
  shows "inv E W'"
  using run
proof (rule update_config_success)
  fix c d rs
  let ?c = "updated_config args c rs"
  assume v: "validate_update_config E sg a W = Inr c" and d: "allowlist_slice c = Inr d"
    and rs: "rs = unwrap_or (ua_resolvers args) d"
    and vals: "validate_config_values (unwrap_or (ua_fee_bps args) (c_fee_bps c))
      (unwrap_or (ua_min_stake args) (c_min_stake c))
      (unwrap_or (ua_max_stake args) (c_max_stake c)) rs
      (unwrap_or (ua_max_window args) (c_max_window c))
      (unwrap_or (ua_max_open_per_wallet args) (c_max_open_per_wallet c))
      (unwrap_or (ua_max_total_open args) (c_max_total_open c)) = Inr ()"
    and nd: "ua_fee_destination args \<noteq> Some default_key" "ua_rent_collector args \<noteq> Some default_key"
    and W': "W' = put_acct (uc_config a) (ConfigAcc ?c) W"
  from v have c: "accts W (uc_config a) = Some (ConfigAcc c)" by (simp add: validate_update_config_Inr)
  have ok: "config_ok E (accts W)" "transfers_ok E (accts W)" using inv by (simp_all add: inv_def)
  with c have ck: "uc_config a = config_key E" and cw: "config_wf c"
    and cb: "c_bump c = snd (find_pda E config_seeds)"
    by (auto simp: config_ok_def)
  have wf: "config_wf ?c" by (rule updated_config_wf(1) [OF cw d rs vals nd])
  have A': "accts W' = (accts W)(config_key E \<mapsto> ConfigAcc ?c)" using W' ck by simp
  show ?thesis
  proof (rule inv_quiet [OF inv])
    show "config_ok E (accts W')" using ok(1) A' wf cb by (simp add: config_ok_def)
    show "transfers_ok E (accts W')" using ok(2) A' by (simp add: transfers_ok_def)
    show "\<exists>c'. accts W' k = Some (ConfigAcc c') \<and> c_mint c' = c_mint e"
      if "accts W k = Some (ConfigAcc e)" for k e
      using that A' c ck by (cases "k = config_key E") simp_all
    show "\<exists>e. accts W k = Some (ConfigAcc e) \<and> c_total_open_value c' = c_total_open_value e"
      if "accts W' k = Some (ConfigAcc c')" for k c'
      using that A' c ck by (cases "k = config_key E") auto
  qed (use A' c ck W' in \<open>auto split: if_splits\<close>)
qed

lemma initialize_config_inv:
  assumes inv: "inv E W" and run: "handle_initialize_config E sg a args W = Inr W'"
  shows "inv E W'"
  using run
proof (rule initialize_config_success)
  fix L
  let ?c = "initial_config E a args"
  assume none: "accts W (config_key E) = None" and key: "ic_config a = config_key E"
    and cr: "create_account E (ic_authority a) (ic_config a) (8 + CONFIG_INIT_SPACE) (ledger W) = Inr L"
    and v: "validate_config_values (ia_fee_bps args) (ia_min_stake args) (ia_max_stake args)
      (ia_resolvers args) (ia_max_window args) (ia_max_open_per_wallet args)
      (ia_max_total_open args) = Inr ()"
    and nd: "ia_mint args \<noteq> default_key" "ia_fee_destination args \<noteq> default_key"
      "ia_rent_collector args \<noteq> default_key"
    and W': "W' = put_acct (config_key E) (ConfigAcc ?c) (W\<lparr>ledger := L\<rparr>)"
  have wf: "config_wf ?c" by (rule initial_config_wf(1) [OF v nd])
  have A': "accts W' = (accts W)(config_key E \<mapsto> ConfigAcc ?c)"
    and T': "tokens (ledger W') = tokens (ledger W)" and clk: "clock W' = clock W"
    using W' create_account_effect [OF cr] by simp_all
  have nowager: "accts W k \<noteq> Some (WagerAcc w)" for k w
    using inv none by (auto simp: inv_def wagers_ok_def)
  have owed: "owed_of (accts W k) = 0" "exposure_of E x (accts W k) = 0" for k x
    using nowager [of k] by (cases "accts W k" rule: owed_of.cases; simp)+
  have ok: "config_ok E (accts W)" "transfers_ok E (accts W)" "counters_ok E (accts W)"
    "books_ok E (accts W)" "apart W" using inv by (simp_all add: inv_def)
  have "apart W'"
    using ok(5) A' T' create_account_effect [OF cr] key by (auto simp: apart_def)
  moreover have "config_ok E (accts W')"
    using ok(1) A' wf by (simp add: config_ok_def initial_config_def)
  moreover have "transfers_ok E (accts W')" "counters_ok E (accts W')"
    using ok(2,3) A' by (simp_all add: transfers_ok_def counters_ok_def)
  moreover have "wagers_ok E (clock W') (accts W')" "vaults_ok E (accts W') (tokens (ledger W'))"
    using nowager A' by (simp_all add: wagers_ok_def vaults_ok_def)
  moreover have "books_ok E (accts W')"
  proof -
    have o: "owed_of (accts W' k) = 0" "exposure_of E x (accts W' k) = 0" for k x
      using owed A' by simp_all
    have cnt: "count_of (accts W x) = 0" for x
      using ok(4) owed by (simp add: books_ok_def total_exposure_def)
    show ?thesis
      unfolding books_ok_def total_owed_def total_exposure_def
      using o cnt A' by (simp add: initial_config_def)
  qed
  ultimately show ?thesis by (simp add: inv_def)
qed

lemma propose_admin_inv:
  assumes inv: "inv E W" and run: "handle_propose_admin E sg a n W = Inr W'"
  shows "inv E W'"
  using run
proof (rule propose_admin_success)
  fix c t W1
  let ?t = "\<lparr>at_proposed = n, at_bump = snd (find_pda E admin_transfer_seeds)\<rparr>"
  assume v: "validate_propose_admin E sg a W = Inr (c, t, W1)" and n: "n \<noteq> default_key"
    and W': "W' = put_acct (pa_admin_transfer a) (TransferAcc ?t)
      (emit_cpi (AdminTransferProposed n) W1)"
  from v have ini: "init_if_needed_transfer E (pa_admin a) (pa_admin_transfer a)
      admin_transfer_seeds W = Inr (t, W1)"
    unfolding validate_propose_admin_Inr by blast
  then have k: "pa_admin_transfer a = transfer_key E"
    and old: "accts W (transfer_key E) = None \<or> accts W (transfer_key E) = Some (TransferAcc t)"
    and W1: "accts W1 = accts W" "clock W1 = clock W" "tokens (ledger W1) = tokens (ledger W)"
    and free: "accts W (transfer_key E) = None \<Longrightarrow> tokens (ledger W) (transfer_key E) = None"
    using create_account_effect by (auto simp: init_if_needed_transfer_Inr transfer_key_def)
  have A': "accts W' = (accts W)(transfer_key E \<mapsto> TransferAcc ?t)" using W' W1 k by simp
  have ok: "config_ok E (accts W)" "transfers_ok E (accts W)" using inv by (simp_all add: inv_def)
  show ?thesis
  proof (rule inv_quiet [OF inv])
    show "config_ok E (accts W')" using ok(1) A' by (simp add: config_ok_def)
    show "transfers_ok E (accts W')" using ok(2) A' n by (simp add: transfers_ok_def)
    show "tokens (ledger W) i = None" if "accts W i = None" "accts W' i \<noteq> None" for i
      using that A' free by (cases "i = transfer_key E") simp_all
  qed (use A' old W' W1 in \<open>auto split: if_splits\<close>)
qed

lemma inv_transfer_closed:
  assumes inv: "inv E W" and t: "accts W k = Some (TransferAcc t)"
    and A': "accts W' = (accts W)(k := None)"
    and same: "clock W' = clock W" "tokens (ledger W') = tokens (ledger W)"
  shows "inv E W'"
proof (rule inv_quiet [OF inv])
  have ok: "config_ok E (accts W)" "transfers_ok E (accts W)" using inv by (simp_all add: inv_def)
  show "config_ok E (accts W')" using ok(1) A' by (simp add: config_ok_def)
  show "transfers_ok E (accts W')" using ok(2) A' by (simp add: transfers_ok_def)
qed (use A' t same in \<open>auto split: if_splits\<close>)

lemma accept_admin_inv:
  assumes inv: "inv E W" and run: "handle_accept_admin E sg a W = Inr W'"
  shows "inv E W'"
  using run
proof (rule accept_admin_success)
  fix c :: config
  let ?c = "c\<lparr>c_admin := aa_new_admin a\<rparr>" and ?t = "aa_admin_transfer a"
  assume v: "validate_accept_admin E sg a W = Inr c"
    and W': "W' = close_acct ?t (c_admin c) (put_acct (aa_config a) (ConfigAcc ?c)
        (emit_cpi (AdminTransferred (c_admin c) (aa_new_admin a)) W))"
  from v obtain t where c: "accts W (aa_config a) = Some (ConfigAcc c)"
    and t: "accts W ?t = Some (TransferAcc t)"
    unfolding validate_accept_admin_Inr by blast
  define V where "V = W\<lparr>accts := (accts W)(aa_config a \<mapsto> ConfigAcc ?c)\<rparr>"
  have ok: "config_ok E (accts W)" "transfers_ok E (accts W)" using inv by (simp_all add: inv_def)
  with c have ck: "aa_config a = config_key E" "config_wf ?c"
    "c_bump ?c = snd (find_pda E config_seeds)"
    by (auto simp: config_ok_def config_wf_def)
  have V: "accts V = (accts W)(aa_config a \<mapsto> ConfigAcc ?c)" "clock V = clock W"
    "ledger V = ledger W" by (simp_all add: V_def)
  have "inv E V"
  proof (rule inv_quiet [OF inv])
    show "config_ok E (accts V)" using ok(1) V ck by (simp add: config_ok_def)
    show "transfers_ok E (accts V)" using ok(2) V by (simp add: transfers_ok_def)
    show "\<exists>c'. accts V k = Some (ConfigAcc c') \<and> c_mint c' = c_mint e"
      if "accts W k = Some (ConfigAcc e)" for k e
      using that V c by (cases "k = aa_config a") simp_all
    show "\<exists>e. accts W k = Some (ConfigAcc e) \<and> c_total_open_value c' = c_total_open_value e"
      if "accts V k = Some (ConfigAcc c')" for k c'
      using that V c by (cases "k = aa_config a") auto
  qed (use V c in \<open>auto split: if_splits\<close>)
  moreover have "aa_config a \<noteq> ?t" using c t by auto
  then have "accts V ?t = Some (TransferAcc t)" using t V by simp
  ultimately show ?thesis
    by (rule inv_transfer_closed) (use W' V in simp_all)
qed

lemma cancel_admin_transfer_inv:
  assumes inv: "inv E W" and run: "handle_cancel_admin_transfer E sg a W = Inr W'"
  shows "inv E W'"
  using run
  by (rule cancel_admin_transfer_success)
    (rule inv_transfer_closed [OF inv], auto simp: validate_cancel_admin_transfer_Inr)

end

section \<open>The instructions meet the contract\<close>

lemma initialize_config_terms:
  assumes "handle_initialize_config E sg a args W = Inr W'" "accts W k = Some (WagerAcc w)"
  shows "accts W' k = None \<or> (\<exists>w'. accts W' k = Some (WagerAcc w') \<and> terms_of w' = terms_of w)"
  by (rule initialize_config_success [OF assms(1)]) (use assms(2) in auto)

lemma initialize_config_time:
  "handle_initialize_config E sg a args W = Inr W' \<Longrightarrow>
    clock W' = clock W \<and> program_data W' = program_data W"
  by (erule initialize_config_success) simp

lemma update_config_terms:
  assumes "handle_update_config E sg a args W = Inr W'" "accts W k = Some (WagerAcc w)"
  shows "accts W' k = None \<or> (\<exists>w'. accts W' k = Some (WagerAcc w') \<and> terms_of w' = terms_of w)"
  by (rule update_config_success [OF assms(1)]) (use assms(2) in \<open>auto simp: validate_update_config_Inr\<close>)

lemma update_config_time:
  "handle_update_config E sg a args W = Inr W' \<Longrightarrow>
    clock W' = clock W \<and> program_data W' = program_data W"
  by (erule update_config_success) simp

lemma propose_admin_terms:
  assumes "handle_propose_admin E sg a n W = Inr W'" "accts W k = Some (WagerAcc w)"
  shows "accts W' k = None \<or> (\<exists>w'. accts W' k = Some (WagerAcc w') \<and> terms_of w' = terms_of w)"
  by (rule propose_admin_success [OF assms(1)])
    (use assms(2) in \<open>auto simp: validate_propose_admin_Inr init_if_needed_transfer_Inr\<close>)

lemma propose_admin_time:
  "handle_propose_admin E sg a n W = Inr W' \<Longrightarrow>
    clock W' = clock W \<and> program_data W' = program_data W"
  by (erule propose_admin_success)
    (auto simp: validate_propose_admin_Inr init_if_needed_transfer_Inr)

lemma accept_admin_terms:
  assumes "handle_accept_admin E sg a W = Inr W'" "accts W k = Some (WagerAcc w)"
  shows "accts W' k = None \<or> (\<exists>w'. accts W' k = Some (WagerAcc w') \<and> terms_of w' = terms_of w)"
  by (rule accept_admin_success [OF assms(1)]) (use assms(2) in \<open>auto simp: validate_accept_admin_Inr\<close>)

lemma accept_admin_time:
  "handle_accept_admin E sg a W = Inr W' \<Longrightarrow> clock W' = clock W \<and> program_data W' = program_data W"
  by (erule accept_admin_success) simp

lemma cancel_admin_transfer_terms:
  assumes "handle_cancel_admin_transfer E sg a W = Inr W'" "accts W k = Some (WagerAcc w)"
  shows "accts W' k = None \<or> (\<exists>w'. accts W' k = Some (WagerAcc w') \<and> terms_of w' = terms_of w)"
  by (rule cancel_admin_transfer_success [OF assms(1)]) (use assms(2) in auto)

lemma cancel_admin_transfer_time:
  "handle_cancel_admin_transfer E sg a W = Inr W' \<Longrightarrow>
    clock W' = clock W \<and> program_data W' = program_data W"
  by (erule cancel_admin_transfer_success) simp

interpretation initialize: instruction "\<lambda>E sg (a, args). handle_initialize_config E sg a args"
  by unfold_locales
    (auto intro: chain.initialize_config_inv dest: initialize_config_terms initialize_config_time)

interpretation update: instruction "\<lambda>E sg (a, args). handle_update_config E sg a args"
  by unfold_locales
    (auto intro: chain.update_config_inv dest: update_config_terms update_config_time)

interpretation propose_admin: instruction "\<lambda>E sg (a, n). handle_propose_admin E sg a n"
  by unfold_locales
    (auto intro: chain.propose_admin_inv dest: propose_admin_terms propose_admin_time)

interpretation accept_admin: instruction handle_accept_admin
  by unfold_locales (rule chain.accept_admin_inv accept_admin_terms accept_admin_time; assumption)+

interpretation cancel_admin: instruction handle_cancel_admin_transfer
  by unfold_locales
    (rule chain.cancel_admin_transfer_inv cancel_admin_transfer_terms cancel_admin_transfer_time;
      assumption)+

end
