(* ===== verification/Create_Wager.thy ===== *)
theory Create_Wager
  imports Payout
begin

text \<open>
  Creating a wager (\<^verbatim>\<open>create_wager.rs\<close>): permissionless, it stakes nothing, and the new
  account carries a snapshot of the configuration values it will settle by.
\<close>

record create_wager_args =
  ca_nonce :: u64
  ca_side_a :: pubkey
  ca_side_b :: pubkey
  ca_stake :: u64
  ca_terms_hash :: hash32
  ca_deadline_fund :: i64
  ca_deadline_resolve :: i64
  ca_resolver :: pubkey

record create_wager_accounts =
  cw_payer :: pubkey
  cw_config :: pubkey
  cw_wager :: pubkey
  cw_mint :: pubkey
  cw_vault :: pubkey
  cw_token_program :: pubkey
  cw_associated_token_program :: pubkey
  cw_system_program :: pubkey

text \<open>
  The wager account exists, owned by the program, when the vault's turn comes, so the vault
  cannot be the same account.
\<close>

definition validate_create_wager ::
  "env \<Rightarrow> pubkey set \<Rightarrow> create_wager_accounts \<Rightarrow> create_wager_args \<Rightarrow> world \<Rightarrow>
    error + config \<times> world" where
  "validate_create_wager E sg a args W =
    require (cw_payer a \<in> sg) (Anchor AccountNotSigner)
    (try_bind (load_config W (cw_config a)) (\<lambda>c.
    require (cw_mint a \<in> mints (ledger W)) (missing_account (ledger W) (cw_mint a))
    (require (cw_token_program a = token_program_id E) (Anchor InvalidProgramId)
    (require (cw_associated_token_program a = ata_program_id E) (Anchor InvalidProgramId)
    (require (cw_system_program a = system_program_id E) (Anchor InvalidProgramId)
    (require (cw_wager a = fst (find_pda E (wager_seeds (ca_side_a args) (ca_nonce args))))
      (Anchor ConstraintSeeds)
    (try_bind (init_account E (cw_payer a) (cw_wager a) (8 + WAGER_INIT_SPACE) W) (\<lambda>W1.
    require (cw_vault a \<noteq> cw_wager a) (Anchor AccountOwnedByWrongProgram)
    (try_bind (init_if_needed_ata E (cw_payer a) (cw_vault a) (cw_mint a) (cw_wager a) W1) (\<lambda>W2.
    require (pda_at E config_seeds (c_bump c) (cw_config a)) (Anchor ConstraintSeeds)
    (require (cw_mint a = c_mint c) (Shake WrongMint)
      (Inr (c, W2)))))))))))))"

text \<open>
  Both windows within \<^verbatim>\<open>config.max_window\<close>. The subtractions are checked, and the second one
  is evaluated only when the first window is short enough.
\<close>

definition windows_ok :: "i64 \<Rightarrow> i64 \<Rightarrow> i64 \<Rightarrow> i64 \<Rightarrow> error + bool" where
  "windows_ok now deadline_fund deadline_resolve max_window =
    try_bind (ok_or (signed_sub deadline_fund now) (Panic ArithmeticOverflow)) (\<lambda>d1.
    if d1 \<le>s max_window
    then try_bind (ok_or (signed_sub deadline_resolve deadline_fund) (Panic ArithmeticOverflow))
      (\<lambda>d2. Inr (d2 \<le>s max_window))
    else Inr False)"

definition handle_create_wager ::
  "env \<Rightarrow> pubkey set \<Rightarrow> create_wager_accounts \<Rightarrow> create_wager_args \<Rightarrow> world \<Rightarrow> error + world" where
  "handle_create_wager E sg a args W =
    try_bind (validate_create_wager E sg a args W) (\<lambda>(c, W1).
    let now = clock W
    in require (\<not> c_paused c) (Shake Paused)
    (require (c_min_stake c \<le> ca_stake args) (Shake StakeTooSmall)
    (require (ca_stake args \<le> c_max_stake c) (Shake StakeTooLarge)
    (try_bind (resolver_allowed c (ca_resolver args)) (\<lambda>allowed.
    require allowed (Shake ResolverNotAllowed)
    (require (ca_resolver args \<noteq> ca_side_a args \<and> ca_resolver args \<noteq> ca_side_b args)
      (Shake ResolverIsParticipant)
    (require (ca_side_b args \<noteq> default_key) (Shake OpenSideNotAllowed)
    (require (ca_side_a args \<noteq> default_key) (Shake OpenSideNotAllowed)
    (require (ca_side_b args \<noteq> ca_side_a args) (Shake SelfWager)
    (require (now <s ca_deadline_fund args \<and> ca_deadline_fund args <s ca_deadline_resolve args)
      (Shake BadDeadlines)
    (try_bind (windows_ok now (ca_deadline_fund args) (ca_deadline_resolve args) (c_max_window c))
      (\<lambda>short.
    require short (Shake WindowTooLong)
    (require (ca_terms_hash args \<noteq> 0) (Shake EmptyTermsHash)
    (let w = \<lparr>w_state = Funding,
              w_side_a = ca_side_a args,
              w_side_b = ca_side_b args,
              w_stake = ca_stake args,
              w_mint = c_mint c,
              w_funded_a = False,
              w_funded_b = False,
              w_refunded_a = False,
              w_refunded_b = False,
              w_resolver = ca_resolver args,
              w_terms_hash = ca_terms_hash args,
              w_deadline_fund = ca_deadline_fund args,
              w_deadline_resolve = ca_deadline_resolve args,
              w_fee_bps = c_fee_bps c,
              w_fee_destination = c_fee_destination c,
              w_rent_collector = c_rent_collector c,
              w_nonce = ca_nonce args,
              w_cancel_proposed_by = default_key,
              w_bump = snd (find_pda E (wager_seeds (ca_side_a args) (ca_nonce args)))\<rparr>
     in Inr (put_acct (cw_wager a) (WagerAcc w)
          (emit_cpi (WagerCreated (cw_wager a) (ca_side_a args) (ca_side_b args) (ca_stake args)
            (c_mint c) (ca_resolver args) (ca_terms_hash args) (ca_deadline_fund args)
            (ca_deadline_resolve args) (ca_nonce args)) W1))))))))))))))))"

section \<open>What a success means\<close>

text \<open>The new wager: the terms of the arguments, the rest a snapshot of the configuration.\<close>

definition new_wager :: "env \<Rightarrow> config \<Rightarrow> create_wager_args \<Rightarrow> wager" where
  "new_wager E c args =
    \<lparr>w_state = Funding,
     w_side_a = ca_side_a args,
     w_side_b = ca_side_b args,
     w_stake = ca_stake args,
     w_mint = c_mint c,
     w_funded_a = False,
     w_funded_b = False,
     w_refunded_a = False,
     w_refunded_b = False,
     w_resolver = ca_resolver args,
     w_terms_hash = ca_terms_hash args,
     w_deadline_fund = ca_deadline_fund args,
     w_deadline_resolve = ca_deadline_resolve args,
     w_fee_bps = c_fee_bps c,
     w_fee_destination = c_fee_destination c,
     w_rent_collector = c_rent_collector c,
     w_nonce = ca_nonce args,
     w_cancel_proposed_by = default_key,
     w_bump = snd (find_pda E (wager_seeds (ca_side_a args) (ca_nonce args)))\<rparr>"

text \<open>
  The checked subtractions never overflow when the windows are in order: a window too long
  for them is too long for the configuration, in exact arithmetic.
\<close>

lemma signed_window:
  fixes a b m :: i64
  assumes "b <s a"
  shows "(\<exists>d. signed_sub a b = Some d \<and> d \<le>s m) \<longleftrightarrow> sint a - sint b \<le> sint m"
proof -
  have pos: "0 < sint a - sint b" using assms by (simp add: word_sless_alt)
  have exact: "sint (a - b) = sint a - sint b" if "sint a - sint b < 2 ^ 63"
  proof -
    have "sint (a - b) = signed_take_bit 63 (sint a - sint b)"
      by (simp add: sint_word_ariths)
    also have "\<dots> = sint a - sint b"
      using that pos by (simp add: signed_take_bit_int_eq_self_iff)
    finally show ?thesis .
  qed
  have "sint m < 2 ^ 63" using sint_lt [of m] by simp
  with exact show ?thesis by (auto simp: signed_sub_Some word_sle_eq)
qed

lemma windows_ok_iff:
  assumes "now <s df" "df <s dr"
  shows "windows_ok now df dr m = Inr True \<longleftrightarrow>
    sint df - sint now \<le> sint m \<and> sint dr - sint df \<le> sint m"
proof -
  have "windows_ok now df dr m = Inr True \<longleftrightarrow>
      (\<exists>d. signed_sub df now = Some d \<and> d \<le>s m) \<and> (\<exists>d. signed_sub dr df = Some d \<and> d \<le>s m)"
    by (auto simp: windows_ok_def result_simps)
  then show ?thesis using assms by (simp add: signed_window)
qed

lemma validate_create_wager_Inr:
  "validate_create_wager E sg a args W = Inr (c, W2) \<longleftrightarrow>
    cw_payer a \<in> sg \<and> accts W (cw_config a) = Some (ConfigAcc c) \<and>
    cw_mint a \<in> mints (ledger W) \<and> cw_mint a = c_mint c \<and>
    cw_token_program a = token_program_id E \<and>
    cw_associated_token_program a = ata_program_id E \<and>
    cw_system_program a = system_program_id E \<and>
    cw_wager a = fst (find_pda E (wager_seeds (ca_side_a args) (ca_nonce args))) \<and>
    cw_vault a \<noteq> cw_wager a \<and>
    (\<exists>W1. init_account E (cw_payer a) (cw_wager a) (8 + WAGER_INIT_SPACE) W = Inr W1 \<and>
      init_if_needed_ata E (cw_payer a) (cw_vault a) (cw_mint a) (cw_wager a) W1 = Inr W2) \<and>
    pda_at E config_seeds (c_bump c) (cw_config a)"
  by (auto simp: validate_create_wager_def result_simps(1,2,4,5,8))

lemma create_wager_success:
  assumes "handle_create_wager E sg a args W = Inr W'"
  obtains c W2 where
    "validate_create_wager E sg a args W = Inr (c, W2)"
    "\<not> c_paused c" "c_min_stake c \<le> ca_stake args" "ca_stake args \<le> c_max_stake c"
    "resolver_allowed c (ca_resolver args) = Inr True"
    "ca_resolver args \<noteq> ca_side_a args" "ca_resolver args \<noteq> ca_side_b args"
    "ca_side_a args \<noteq> default_key" "ca_side_b args \<noteq> default_key"
    "ca_side_b args \<noteq> ca_side_a args"
    "clock W <s ca_deadline_fund args" "ca_deadline_fund args <s ca_deadline_resolve args"
    "sint (ca_deadline_fund args) - sint (clock W) \<le> sint (c_max_window c)"
    "sint (ca_deadline_resolve args) - sint (ca_deadline_fund args) \<le> sint (c_max_window c)"
    "ca_terms_hash args \<noteq> 0"
    "W' = put_acct (cw_wager a) (WagerAcc (new_wager E c args))
      (emit_cpi (WagerCreated (cw_wager a) (ca_side_a args) (ca_side_b args) (ca_stake args)
        (c_mint c) (ca_resolver args) (ca_terms_hash args) (ca_deadline_fund args)
        (ca_deadline_resolve args) (ca_nonce args)) W2)"
proof -
  from assms obtain c W2 where
    v: "validate_create_wager E sg a args W = Inr (c, W2)" "\<not> c_paused c"
    "c_min_stake c \<le> ca_stake args" "ca_stake args \<le> c_max_stake c"
    "resolver_allowed c (ca_resolver args) = Inr True"
    "ca_resolver args \<noteq> ca_side_a args" "ca_resolver args \<noteq> ca_side_b args"
    "ca_side_a args \<noteq> default_key" "ca_side_b args \<noteq> default_key"
    "ca_side_b args \<noteq> ca_side_a args" and
    dl: "clock W <s ca_deadline_fund args" "ca_deadline_fund args <s ca_deadline_resolve args"
    "windows_ok (clock W) (ca_deadline_fund args) (ca_deadline_resolve args) (c_max_window c) = Inr True"
    and th: "ca_terms_hash args \<noteq> 0"
    "W' = put_acct (cw_wager a) (WagerAcc (new_wager E c args))
      (emit_cpi (WagerCreated (cw_wager a) (ca_side_a args) (ca_side_b args) (ca_stake args)
        (c_mint c) (ca_resolver args) (ca_terms_hash args) (ca_deadline_fund args)
        (ca_deadline_resolve args) (ca_nonce args)) W2)"
    by (auto simp: handle_create_wager_def Let_def new_wager_def require_Inr try_bind_Inr)
  from dl show thesis
    using that [OF v dl(1,2) _ _ th] windows_ok_iff [OF dl(1,2)] by blast
qed

text \<open>
  The account and vault creation touches no program account; the vault is the wager's, and
  no other token account changes.
\<close>

context runtime
begin

lemma create_wager_world:
  assumes "init_account E p k n W = Inr W1" "init_if_needed_ata E p vk m k W1 = Inr W2"
  obtains v where "accts W k = None" "accts W2 = accts W" "clock W2 = clock W"
    "program_data W2 = program_data W" "vk = ata_address E k m" "t_owner v = k" "t_mint v = m"
    "tokens (ledger W2) = (tokens (ledger W))(vk \<mapsto> v)"
    "tokens (ledger W) vk = None \<and> accts W vk = None \<or> tokens (ledger W) vk = Some v"
    "tokens (ledger W) k = None"
proof -
  from assms(1) obtain L1 where L1: "create_account E p k n (ledger W) = Inr L1"
    "W1 = W\<lparr>ledger := L1\<rparr>" and k: "accts W k = None"
    by (auto simp: init_account_Inr)
  from create_account_effect [OF L1(1)] L1(2)
  have tok: "tokens (ledger W1) = tokens (ledger W)" and free: "tokens (ledger W) k = None"
    by simp_all
  show thesis
  proof (cases "tokens (ledger W1) vk")
    case None
    with assms(2) obtain L2 where L2: "create_ata E p k m (ledger W1) = Inr L2"
      "W2 = W1\<lparr>ledger := L2\<rparr>" "vk = ata_address E k m" "accts W1 vk = None"
      by (auto simp: init_if_needed_ata_Inr)
    from create_ata_effect [OF L2(1)] obtain v where "t_owner v = k" "t_mint v = m"
      "tokens L2 = (tokens (ledger W1))(vk \<mapsto> v)"
      using L2(3) by blast
    with that [of v] None tok k free L1(2) L2(2-4) show thesis by simp
  next
    case (Some v)
    with assms(2) have "W2 = W1" "vk = ata_address E k m" "t_owner v = k" "t_mint v = m"
      by (auto simp: init_if_needed_ata_Inr)
    with that [of v] Some tok k free L1(2) show thesis by (simp add: fun_upd_idem)
  qed
qed

end

section \<open>What it keeps\<close>

lemma new_wager_terms:
  assumes cw: "config_wf c"
    and st: "c_min_stake c \<le> ca_stake args" "ca_stake args \<le> c_max_stake c"
    and "ca_resolver args \<noteq> ca_side_a args" "ca_resolver args \<noteq> ca_side_b args"
    "ca_side_a args \<noteq> default_key" "ca_side_b args \<noteq> default_key"
    "ca_side_b args \<noteq> ca_side_a args" "ca_deadline_fund args <s ca_deadline_resolve args"
    "ca_terms_hash args \<noteq> 0"
  shows "terms_wf (new_wager E c args)"
proof -
  have "0 < ca_stake args"
    using cw st(1) unfolding config_wf_def by (meson order.strict_trans2)
  moreover have "2 * unat (ca_stake args) \<le> unat (c_max_total_open c)"
    using cw st(2) by (simp add: config_wf_def word_le_nat_alt)
  then have "2 * unat (ca_stake args) < 2 ^ 64"
    using unat_word_bound [of "c_max_total_open c"] by simp
  ultimately show ?thesis
    using assms(4-) cw by (simp add: terms_wf_def new_wager_def config_wf_def)
qed

context chain
begin

lemma create_wager_inv:
  assumes inv: "inv E W" and run: "handle_create_wager E sg a args W = Inr W'"
  shows "inv E W'"
  using run
proof (rule create_wager_success)
  fix c W2
  let ?k = "cw_wager a" and ?w = "new_wager E c args"
  let ?A = "accts W" and ?T = "tokens (ledger W)" and ?T' = "tokens (ledger W')"
  assume val: "validate_create_wager E sg a args W = Inr (c, W2)"
    and st: "c_min_stake c \<le> ca_stake args" "ca_stake args \<le> c_max_stake c"
    and ns: "ca_resolver args \<noteq> ca_side_a args" "ca_resolver args \<noteq> ca_side_b args"
    "ca_side_a args \<noteq> default_key" "ca_side_b args \<noteq> default_key"
    "ca_side_b args \<noteq> ca_side_a args"
    and dl: "ca_deadline_fund args <s ca_deadline_resolve args"
    and th: "ca_terms_hash args \<noteq> 0"
    and W': "W' = put_acct ?k (WagerAcc ?w)
      (emit_cpi (WagerCreated ?k (ca_side_a args) (ca_side_b args) (ca_stake args)
        (c_mint c) (ca_resolver args) (ca_terms_hash args) (ca_deadline_fund args)
        (ca_deadline_resolve args) (ca_nonce args)) W2)"
  from val obtain W1 where
    ini: "init_account E (cw_payer a) ?k (8 + WAGER_INIT_SPACE) W = Inr W1"
      "init_if_needed_ata E (cw_payer a) (cw_vault a) (cw_mint a) ?k W1 = Inr W2" and
    c0: "?A (cw_config a) = Some (ConfigAcc c)" and vne: "cw_vault a \<noteq> ?k" and mint: "cw_mint a = c_mint c" and
    key: "?k = fst (find_pda E (wager_seeds (ca_side_a args) (ca_nonce args)))"
    unfolding validate_create_wager_Inr by blast
  obtain v where k: "?A ?k = None" and A2: "accts W2 = ?A" "clock W2 = clock W"
    and vk: "cw_vault a = ata_address E ?k (cw_mint a)"
    and v: "t_owner v = ?k" "t_mint v = cw_mint a"
    "tokens (ledger W2) = ?T(cw_vault a \<mapsto> v)" "?T (cw_vault a) = None \<and> ?A (cw_vault a) = None \<or> ?T (cw_vault a) = Some v"
    and free: "?T ?k = None"
    by (rule create_wager_world [OF ini])
  have wf: "config_ok E ?A" "transfers_ok E ?A" "counters_ok E ?A" "wagers_ok E (clock W) ?A"
    "books_ok E ?A" "vaults_ok E ?A ?T" "apart W"
    using inv by (simp_all add: inv_def)
  have ck: "cw_config a = config_key E" and cw: "config_wf c"
    using wf(1) c0 by (auto simp: config_ok_def)
  have A': "accts W' = ?A(?k \<mapsto> WagerAcc ?w)" and T': "?T' = ?T(cw_vault a \<mapsto> v)"
    and clk: "clock W' = clock W"
    using W' A2 v(3) by simp_all
  have terms: "terms_wf ?w" by (rule new_wager_terms [OF cw st ns dl th])
  have life: "life_wf E (clock W) ?w" by (simp add: life_wf_def new_wager_def)
  have seeds: "create_pda E (signer_seeds ?w) = Some ?k"
    using find_create [of "wager_seeds (ca_side_a args) (ca_nonce args)"] key
    by (simp add: signer_seeds_def new_wager_def)
  have nil: "owed ?w = 0" "exposure E x ?w = 0" for x
    by (simp_all add: new_wager_def owed_def exposure_def open_a_def open_b_def)
  have "apart W'" using wf(7) A' T' v(4) free vne by (auto simp: apart_def)
  moreover have "config_ok E (accts W')" "transfers_ok E (accts W')" "counters_ok E (accts W')"
    using wf(1-3) A' by (simp_all add: config_ok_def transfers_ok_def counters_ok_def)
  moreover have "wagers_ok E (clock W') (accts W')"
    using wf(4) A' clk terms life seeds c0 ck k
    by (auto simp: wagers_ok_def new_wager_def)
  moreover have "books_ok E (accts W')"
    by (rule books_same [OF wf(5)]) (use A' k nil in \<open>auto split: if_splits\<close>)
  moreover have "vaults_ok E (accts W') ?T'"
    unfolding vaults_ok_def
  proof (intro allI impI)
    fix j w assume j: "accts W' j = Some (WagerAcc w)"
    show "vault_ok E ?T' j w"
    proof (cases "j = ?k")
      case True
      with j A' have "w = ?w" by simp
      with True vk T' v(1,2) mint nil(1) show ?thesis
        by (simp add: vault_ok_def vault_key_def new_wager_def)
    next
      case False
      with j A' have "vault_ok E ?T j w" using wf(6) by (simp add: vaults_ok_def)
      moreover have "?T' i = ?T i" if "?T i \<noteq> None" for i
        using T' v(4) that by (cases "i = cw_vault a") auto
      ultimately show ?thesis by (auto simp: vault_ok_def split: option.splits)
    qed
  qed
  ultimately show ?thesis by (simp add: inv_def)
qed

end

section \<open>The instruction meets the contract\<close>

lemma create_wager_accts:
  assumes "validate_create_wager E sg a args W = Inr (c, W2)"
  shows "accts W2 = accts W" "accts W (cw_wager a) = None" "clock W2 = clock W"
    "program_data W2 = program_data W"
  using assms by (auto simp: validate_create_wager_Inr init_account_Inr init_if_needed_ata_Inr)

lemma create_wager_keeps:
  assumes "handle_create_wager E sg a args W = Inr W'" "accts W k = Some (WagerAcc w)"
  shows "accts W' k = None \<or> (\<exists>w'. accts W' k = Some (WagerAcc w') \<and> terms_of w' = terms_of w)"
proof (rule create_wager_success [OF assms(1)])
  fix c W2
  assume v: "validate_create_wager E sg a args W = Inr (c, W2)"
    and "W' = put_acct (cw_wager a) (WagerAcc (new_wager E c args))
      (emit_cpi (WagerCreated (cw_wager a) (ca_side_a args) (ca_side_b args) (ca_stake args)
        (c_mint c) (ca_resolver args) (ca_terms_hash args) (ca_deadline_fund args)
        (ca_deadline_resolve args) (ca_nonce args)) W2)"
  with create_wager_accts(1,2) [OF v] assms(2) show ?thesis by auto
qed

lemma create_wager_time:
  "handle_create_wager E sg a args W = Inr W' \<Longrightarrow>
    clock W' = clock W \<and> program_data W' = program_data W"
  by (erule create_wager_success) (simp add: create_wager_accts)

interpretation create: instruction "\<lambda>E sg (a, args). handle_create_wager E sg a args"
  by unfold_locales
    (auto intro: chain.create_wager_inv dest: create_wager_keeps create_wager_time)

end
