(* ===== verification/Staking.thy ===== *)
theory Staking
  imports Payout
begin

text \<open>
  Putting a stake in and taking it back before the wager locks (\<^verbatim>\<open>stake_side.rs\<close>,
  \<^verbatim>\<open>unstake_side.rs\<close>).
\<close>

section \<open>stake_side\<close>

record stake_side_accounts =
  ss_staker :: pubkey
  ss_payer :: pubkey
  ss_config :: pubkey
  ss_wager :: pubkey
  ss_counter :: pubkey
  ss_staker_token :: pubkey
  ss_vault :: pubkey
  ss_token_program :: pubkey
  ss_system_program :: pubkey

definition validate_stake_side ::
  "env \<Rightarrow> pubkey set \<Rightarrow> stake_side_accounts \<Rightarrow> world \<Rightarrow>
    error + config \<times> wager \<times> exposure_counter \<times> world" where
  "validate_stake_side E sg a W =
    require (ss_staker a \<in> sg) (Anchor AccountNotSigner)
    (require (ss_payer a \<in> sg) (Anchor AccountNotSigner)
    (try_bind (load_config W (ss_config a)) (\<lambda>c.
    try_bind (load_wager W (ss_wager a)) (\<lambda>w.
    try_bind (load_token (ledger W) (ss_staker_token a)) (\<lambda>staker_token.
    try_bind (load_token (ledger W) (ss_vault a)) (\<lambda>vault.
    require (ss_token_program a = token_program_id E) (Anchor InvalidProgramId)
    (require (ss_system_program a = system_program_id E) (Anchor InvalidProgramId)
    (try_bind (init_if_needed_counter E (ss_payer a) (ss_counter a)
        (counter_seeds (ss_staker a)) W) (\<lambda>(x, W1).
    require (mut_guard E [ss_config a, ss_wager a, ss_staker_token a, ss_vault a])
      (Anchor ConstraintDuplicateMutableAccount)
    (require (pda_at E config_seeds (c_bump c) (ss_config a)) (Anchor ConstraintSeeds)
    (require (pda_at E (wager_seeds (w_side_a w) (w_nonce w)) (w_bump w) (ss_wager a))
      (Anchor ConstraintSeeds)
    (require (t_owner staker_token = ss_staker a) (Shake WrongTokenOwner)
    (require (t_mint staker_token = w_mint w) (Shake WrongMint)
    (try_bind (check_ata E (ss_vault a) vault (w_mint w) (ss_wager a)) (\<lambda>_.
      Inr (c, w, x, W1))))))))))))))))"

definition handle_stake_side ::
  "env \<Rightarrow> pubkey set \<Rightarrow> stake_side_accounts \<Rightarrow> world \<Rightarrow> error + world" where
  "handle_stake_side E sg a W =
    try_bind (validate_stake_side E sg a W) (\<lambda>(c, w, x, W1).
    let now = clock W;
        staker = ss_staker a
    in require (w_state w = Funding) (Shake NotFunding)
    (require (now \<le>s w_deadline_fund w) (Shake FundingClosed)
    (let is_a = (staker = w_side_a w);
         is_b = (staker = w_side_b w)
     in require (is_a \<or> is_b) (Shake NotAParticipant)
    (require (if is_a then \<not> w_funded_a w else \<not> w_funded_b w) (Shake AlreadyFunded)
    (require (x_count x < c_max_open_per_wallet c) (Shake WalletCapExceeded)
    (let amount = w_stake w
     in try_bind (ok_or (checked_add (c_total_open_value c) amount) (Shake MathOverflow))
      (\<lambda>new_total.
    require (new_total \<le> c_max_total_open c) (Shake GlobalCapExceeded)
    (try_bind (transfer_signed E sg staker (ss_staker_token a) (ss_vault a) amount (ledger W1))
      (\<lambda>L.
    try_bind (ok_or (checked_add (x_count x) 1) (Shake MathOverflow)) (\<lambda>new_count.
    let c1 = c\<lparr>c_total_open_value := new_total\<rparr>;
        x1 = x\<lparr>x_count := new_count, x_bump := snd (find_pda E (counter_seeds staker))\<rparr>;
        w1 = (if is_a then w\<lparr>w_funded_a := True\<rparr> else w\<lparr>w_funded_b := True\<rparr>);
        now_active = (w_funded_a w1 \<and> w_funded_b w1);
        w2 = (if now_active then w1\<lparr>w_state := Active\<rparr> else w1)
    in Inr (put_acct (ss_counter a) (CounterAcc x1)
         (put_acct (ss_wager a) (WagerAcc w2)
         (put_acct (ss_config a) (ConfigAcc c1)
         (emit_cpi (SideStaked (ss_wager a) staker is_a amount now_active)
           (W1\<lparr>ledger := L\<rparr>)))))))))))))))"

section \<open>unstake_side\<close>

record unstake_side_accounts =
  us_staker :: pubkey
  us_config :: pubkey
  us_wager :: pubkey
  us_counter :: pubkey
  us_staker_token :: pubkey
  us_vault :: pubkey
  us_token_program :: pubkey

definition validate_unstake_side ::
  "env \<Rightarrow> pubkey set \<Rightarrow> unstake_side_accounts \<Rightarrow> world \<Rightarrow>
    error + config \<times> wager \<times> exposure_counter" where
  "validate_unstake_side E sg a W =
    require (us_staker a \<in> sg) (Anchor AccountNotSigner)
    (try_bind (load_config W (us_config a)) (\<lambda>c.
    try_bind (load_wager W (us_wager a)) (\<lambda>w.
    try_bind (load_counter W (us_counter a)) (\<lambda>x.
    try_bind (load_token (ledger W) (us_staker_token a)) (\<lambda>staker_token.
    try_bind (load_token (ledger W) (us_vault a)) (\<lambda>vault.
    require (us_token_program a = token_program_id E) (Anchor InvalidProgramId)
    (require (mut_guard E [us_config a, us_wager a, us_counter a, us_staker_token a, us_vault a])
      (Anchor ConstraintDuplicateMutableAccount)
    (require (pda_at E config_seeds (c_bump c) (us_config a)) (Anchor ConstraintSeeds)
    (require (pda_at E (wager_seeds (w_side_a w) (w_nonce w)) (w_bump w) (us_wager a))
      (Anchor ConstraintSeeds)
    (require (pda_at E (counter_seeds (us_staker a)) (x_bump x) (us_counter a))
      (Anchor ConstraintSeeds)
    (try_bind (check_ata E (us_staker_token a) staker_token (w_mint w) (us_staker a)) (\<lambda>_.
    try_bind (check_ata E (us_vault a) vault (w_mint w) (us_wager a)) (\<lambda>_.
      Inr (c, w, x))))))))))))))"

definition handle_unstake_side ::
  "env \<Rightarrow> pubkey set \<Rightarrow> unstake_side_accounts \<Rightarrow> world \<Rightarrow> error + world" where
  "handle_unstake_side E sg a W =
    try_bind (validate_unstake_side E sg a W) (\<lambda>(c, w, x).
    let now = clock W;
        staker = us_staker a
    in require (w_state w = Funding) (Shake NotFunding)
    (require (now \<le>s w_deadline_fund w) (Shake FundingClosed)
    (let is_a = (staker = w_side_a w);
         is_b = (staker = w_side_b w)
     in require (is_a \<or> is_b) (Shake NotAParticipant)
    (require (if is_a then w_funded_a w else w_funded_b w) (Shake SideNotFunded)
    (let amount = w_stake w
     in try_bind (transfer_with_seeds E (signer_seeds w) (us_wager a) (us_vault a)
        (us_staker_token a) amount (ledger W)) (\<lambda>L.
    let c1 = c\<lparr>c_total_open_value := saturating_sub (c_total_open_value c) amount\<rparr>;
        x1 = x\<lparr>x_count := saturating_sub (x_count x) 1\<rparr>;
        w1 = (if is_a then w\<lparr>w_funded_a := False\<rparr> else w\<lparr>w_funded_b := False\<rparr>)
    in Inr (put_acct (us_counter a) (CounterAcc x1)
         (put_acct (us_wager a) (WagerAcc w1)
         (put_acct (us_config a) (ConfigAcc c1)
         (emit_cpi (SideUnstaked (us_wager a) staker amount)
           (W\<lparr>ledger := L\<rparr>)))))))))))"

section \<open>What a success means\<close>

text \<open>The wager after a side's stake came in, and after it went out again.\<close>

definition stake_in :: "pubkey \<Rightarrow> wager \<Rightarrow> wager" where
  "stake_in s w =
    (let w1 = (if s = w_side_a w then w\<lparr>w_funded_a := True\<rparr> else w\<lparr>w_funded_b := True\<rparr>)
     in if w_funded_a w1 \<and> w_funded_b w1 then w1\<lparr>w_state := Active\<rparr> else w1)"

definition stake_out :: "pubkey \<Rightarrow> wager \<Rightarrow> wager" where
  "stake_out s w =
    (if s = w_side_a w then w\<lparr>w_funded_a := False\<rparr> else w\<lparr>w_funded_b := False\<rparr>)"

text \<open>Whether the side of \<open>s\<close> is funded.\<close>

definition funded :: "pubkey \<Rightarrow> wager \<Rightarrow> bool" where
  "funded s w = (if s = w_side_a w then w_funded_a w else w_funded_b w)"

lemma validate_stake_side_Inr:
  "validate_stake_side E sg a W = Inr (c, w, x, W1) \<longleftrightarrow>
    ss_staker a \<in> sg \<and> ss_payer a \<in> sg \<and>
    accts W (ss_config a) = Some (ConfigAcc c) \<and> accts W (ss_wager a) = Some (WagerAcc w) \<and>
    (\<exists>st v. tokens (ledger W) (ss_staker_token a) = Some st \<and>
      t_owner st = ss_staker a \<and> t_mint st = w_mint w \<and>
      tokens (ledger W) (ss_vault a) = Some v \<and> t_owner v = ss_wager a) \<and>
    ss_vault a = vault_key E (ss_wager a) w \<and>
    ss_token_program a = token_program_id E \<and> ss_system_program a = system_program_id E \<and>
    init_if_needed_counter E (ss_payer a) (ss_counter a) (counter_seeds (ss_staker a)) W =
      Inr (x, W1) \<and>
    mut_guard E [ss_config a, ss_wager a, ss_staker_token a, ss_vault a] \<and>
    pda_at E config_seeds (c_bump c) (ss_config a) \<and>
    create_pda E (signer_seeds w) = Some (ss_wager a)"
  by (auto simp: validate_stake_side_def result_simps pda_at_signer_seeds vault_key_def)

lemma stake_side_success:
  assumes "handle_stake_side E sg a W = Inr W'"
  obtains c w x W1 L where
    "validate_stake_side E sg a W = Inr (c, w, x, W1)"
    "w_state w = Funding" "clock W \<le>s w_deadline_fund w" "is_participant w (ss_staker a)"
    "\<not> funded (ss_staker a) w"
    "x_count x < c_max_open_per_wallet c"
    "unat (c_total_open_value c) + unat (w_stake w) < 2 ^ 64"
    "c_total_open_value c + w_stake w \<le> c_max_total_open c"
    "spl_transfer E (ss_staker_token a) (ss_vault a) (ss_staker a) (w_stake w) (ledger W1) = Inr L"
    "unat (x_count x) + 1 < 256"
    "W' = put_acct (ss_counter a) (CounterAcc (x\<lparr>x_count := x_count x + 1,
        x_bump := snd (find_pda E (counter_seeds (ss_staker a)))\<rparr>))
      (put_acct (ss_wager a) (WagerAcc (stake_in (ss_staker a) w))
      (put_acct (ss_config a) (ConfigAcc (c\<lparr>c_total_open_value :=
        c_total_open_value c + w_stake w\<rparr>))
      (emit_cpi (SideStaked (ss_wager a) (ss_staker a) (ss_staker a = w_side_a w) (w_stake w)
        (w_state (stake_in (ss_staker a) w) = Active))
        (W1\<lparr>ledger := L\<rparr>))))"
  using assms
  by (auto simp: handle_stake_side_def Let_def result_simps checked_add_Some is_participant_def
      stake_in_def funded_def)

lemma validate_unstake_side_Inr:
  "validate_unstake_side E sg a W = Inr (c, w, x) \<longleftrightarrow>
    us_staker a \<in> sg \<and>
    accts W (us_config a) = Some (ConfigAcc c) \<and> accts W (us_wager a) = Some (WagerAcc w) \<and>
    accts W (us_counter a) = Some (CounterAcc x) \<and>
    (\<exists>st v. tokens (ledger W) (us_staker_token a) = Some st \<and> t_owner st = us_staker a \<and>
      tokens (ledger W) (us_vault a) = Some v \<and> t_owner v = us_wager a) \<and>
    us_staker_token a = ata_address E (us_staker a) (w_mint w) \<and>
    us_vault a = vault_key E (us_wager a) w \<and>
    us_token_program a = token_program_id E \<and>
    mut_guard E [us_config a, us_wager a, us_counter a, us_staker_token a, us_vault a] \<and>
    pda_at E config_seeds (c_bump c) (us_config a) \<and>
    create_pda E (signer_seeds w) = Some (us_wager a) \<and>
    pda_at E (counter_seeds (us_staker a)) (x_bump x) (us_counter a)"
  by (auto simp: validate_unstake_side_def result_simps pda_at_signer_seeds vault_key_def)

lemma unstake_side_success:
  assumes "handle_unstake_side E sg a W = Inr W'"
  obtains c w x L where
    "validate_unstake_side E sg a W = Inr (c, w, x)"
    "w_state w = Funding" "clock W \<le>s w_deadline_fund w" "is_participant w (us_staker a)"
    "funded (us_staker a) w"
    "spl_transfer E (us_vault a) (us_staker_token a) (us_wager a) (w_stake w) (ledger W) = Inr L"
    "W' = put_acct (us_counter a) (CounterAcc (x\<lparr>x_count := saturating_sub (x_count x) 1\<rparr>))
      (put_acct (us_wager a) (WagerAcc (stake_out (us_staker a) w))
      (put_acct (us_config a) (ConfigAcc (c\<lparr>c_total_open_value :=
        saturating_sub (c_total_open_value c) (w_stake w)\<rparr>))
      (emit_cpi (SideUnstaked (us_wager a) (us_staker a) (w_stake w)) (W\<lparr>ledger := L\<rparr>))))"
  using assms
  by (auto simp: handle_unstake_side_def Let_def result_simps is_participant_def
      stake_out_def funded_def)

lemma counter_events:
  "init_if_needed_counter E p k s W = Inr (x, W1) \<Longrightarrow> events W1 = events W"
  by (auto simp: result_simps)

section \<open>What it keeps\<close>

lemma stake_in_wager:
  assumes life: "life_wf E now w" and st: "w_state w = Funding" "now \<le>s w_deadline_fund w"
    and part: "is_participant w s" "\<not> funded s w" and real: "\<not> is_pda E s"
    and ne: "w_side_a w \<noteq> w_side_b w"
  shows "leaves s (stake_in s w) w" and "life_wf E now (stake_in s w)"
    and "terms_of (stake_in s w) = terms_of w"
proof -
  have nr: "\<not> w_refunded_a w" "\<not> w_refunded_b w"
    using nobody_refunded [OF life] st by simp_all
  show "terms_of (stake_in s w) = terms_of w"
    by (simp add: stake_in_def Let_def)
  show "leaves s (stake_in s w) w"
    using nr part ne
    by (auto simp: leaves_def stake_in_def Let_def open_a_def open_b_def funded_def
        is_participant_def)
  show "life_wf E now (stake_in s w)"
    using life nr part real ne st
    by (auto simp: life_wf_def stake_in_def Let_def funded_def is_participant_def)
qed

lemma stake_out_wager:
  assumes life: "life_wf E now w" and st: "w_state w = Funding" "now \<le>s w_deadline_fund w"
    and part: "is_participant w s" "funded s w"
  shows "leaves s w (stake_out s w)" and "life_wf E now (stake_out s w)"
proof -
  have nr: "\<not> w_refunded_a w" "\<not> w_refunded_b w"
    using nobody_refunded [OF life] st by simp_all
  show "leaves s w (stake_out s w)"
    using nr part
    by (auto simp: leaves_def stake_out_def open_a_def open_b_def funded_def is_participant_def)
  show "life_wf E now (stake_out s w)"
    using life nr part st
    by (auto simp: life_wf_def stake_out_def funded_def is_participant_def)
qed

context chain
begin

text \<open>The counter of a staker, old or new, counts what the books say.\<close>

lemma counter_ready:
  assumes "init_if_needed_counter E p k (counter_seeds s) W = Inr (x, W1)"
  shows "accts W1 = accts W" "clock W1 = clock W" "program_data W1 = program_data W"
    "tokens (ledger W1) = tokens (ledger W)" "k = counter_key E s"
    "unat (x_count x) = count_of (accts W k)" "accts W k \<noteq> Some (WagerAcc w)"
    "accts W k \<noteq> Some (ConfigAcc c)" "accts W k = None \<Longrightarrow> tokens (ledger W) k = None"
  using assms create_account_effect
  by (auto simp: result_simps counter_key_def)

lemma stake_side_inv:
  assumes real: "real_signers E sg" and inv: "inv E W"
    and run: "handle_stake_side E sg a W = Inr W'"
  shows "inv E W'"
proof -
  let ?s = "ss_staker a" and ?k = "ss_wager a"
  obtain c w x W1 L where v: "validate_stake_side E sg a W = Inr (c, w, x, W1)"
    and st: "w_state w = Funding" "clock W \<le>s w_deadline_fund w"
    and part: "is_participant w ?s" "\<not> funded ?s w"
    and room: "unat (c_total_open_value c) + unat (w_stake w) < 2 ^ 64"
    and pay: "spl_transfer E (ss_staker_token a) (ss_vault a) ?s (w_stake w) (ledger W1) = Inr L"
    and byte: "unat (x_count x) + 1 < 256"
    and W': "W' = put_acct (ss_counter a) (CounterAcc (x\<lparr>x_count := x_count x + 1,
        x_bump := snd (find_pda E (counter_seeds ?s))\<rparr>))
      (put_acct ?k (WagerAcc (stake_in ?s w))
      (put_acct (ss_config a) (ConfigAcc (c\<lparr>c_total_open_value :=
        c_total_open_value c + w_stake w\<rparr>))
      (emit_cpi (SideStaked ?k ?s (?s = w_side_a w) (w_stake w)
        (w_state (stake_in ?s w) = Active))
        (W1\<lparr>ledger := L\<rparr>))))"
    by (rule stake_side_success [OF run]) blast
  from v have k: "accts W ?k = Some (WagerAcc w)" and c0: "accts W (ss_config a) = Some (ConfigAcc c)"
    and ini: "init_if_needed_counter E (ss_payer a) (ss_counter a) (counter_seeds ?s) W = Inr (x, W1)"
    and vk: "ss_vault a = vault_key E ?k w" and sg: "?s \<in> sg"
    and mg: "mut_guard E [ss_config a, ?k, ss_staker_token a, ss_vault a]"
    unfolding validate_stake_side_Inr by blast+
  obtain t where t: "tokens (ledger W) (ss_staker_token a) = Some t" "t_owner t = ?s"
    using v by (auto simp: validate_stake_side_Inr)
  note ready = counter_ready [OF ini]
  have life: "life_wf E (clock W) w" and terms: "terms_wf w" and ck: "ss_config a = config_key E"
    and bk: "books_ok E (accts W)" and vt: "vault_ok E (tokens (ledger W)) ?k w"
    and ap: "apart W"
    using inv k c0 by (auto simp: inv_def wagers_ok_def config_ok_def vaults_ok_def)
  have c: "accts W (config_key E) = Some (ConfigAcc c)" using c0 ck by simp
  have notpda: "\<not> is_pda E ?s" using real sg by (simp add: real_signers_def)
  note joined = stake_in_wager [OF life st part notpda]
  have ne: "w_side_a w \<noteq> w_side_b w" using terms by (simp add: terms_wf_def)
  note out = joined(1) [OF ne] and owed = leaves_owed [OF joined(1) [OF ne]]
    and expo = leaves_exposure [OF joined(1) [OF ne]]
  have tm: "terms_of (stake_in ?s w) = terms_of w" by (rule joined(3) [OF ne])
  have same: "w_stake (stake_in ?s w) = w_stake w" "w_mint (stake_in ?s w) = w_mint w"
    using terms_of_eqD(3,4) [OF tm] .
  have distinct: "ss_counter a \<noteq> ?k" "ss_counter a \<noteq> config_key E" "?k \<noteq> config_key E"
    using k c ready(7) [of w] ready(8) [of c] by auto
  have tokens1: "tokens (ledger W1) = tokens (ledger W)" by (rule ready(4))
  have accts': "accts W' = (accts W)(config_key E \<mapsto> ConfigAcc (c\<lparr>c_total_open_value :=
        c_total_open_value c + w_stake w\<rparr>), ?k \<mapsto> WagerAcc (stake_in ?s w),
      ss_counter a \<mapsto> CounterAcc (x\<lparr>x_count := x_count x + 1,
        x_bump := snd (find_pda E (counter_seeds ?s))\<rparr>))"
    and L': "ledger W' = L" and clk: "clock W' = clock W"
    using W' ready(1,2) ck by simp_all
  have k': "accts W' ?k = Some (WagerAcc (stake_in ?s w))" using accts' distinct by simp
  have vne: "ss_staker_token a \<noteq> ss_vault a" using mg by (simp add: mut_guard_iff)
  show ?thesis
  proof (rule inv_step [OF inv k c])
    show "accts W' (config_key E) = Some (ConfigAcc (c\<lparr>c_total_open_value :=
        c_total_open_value c + w_stake w\<rparr>))"
      using accts' distinct by simp
    show "accts W' i = accts W i \<or>
        counter_entry E i (accts W' i) \<and> (\<forall>w. accts W i \<noteq> Some (WagerAcc w)) \<and>
        tokens (ledger W) i = None"
      if "i \<noteq> ?k" "i \<noteq> config_key E" for i
      using that accts' ready(5,7,9) ap by (auto simp: counter_entry_def apart_def)
    have "vault_ok E (tokens (ledger W')) ?k (stake_in ?s w)"
    proof -
      obtain v where v: "tokens (ledger W) (vault_key E ?k w) = Some v" "t_owner v = ?k"
        "t_mint v = w_mint w" "owed w \<le> unat (t_amount v)"
        by (rule vault_okE [OF vt])
      obtain v' where v': "tokens L (vault_key E ?k w) = Some v'"
        "t_owner v' = t_owner v" "t_mint v' = t_mint v"
        using token_data_Some [OF fun_cong [OF transfer_data [OF pay]]] v(1) tokens1 by metis
      moreover have "unat (t_amount v') = unat (t_amount v) + unat (w_stake w)"
        using transfer_amounts(2) [OF pay vne] v v' vk tokens1 by simp
      ultimately show ?thesis
        using v owed same L' by (simp add: vault_ok_def vault_key_def)
    qed
    then show "accts W' ?k = None \<or> (\<exists>w'. accts W' ?k = Some (WagerAcc w') \<and>
        terms_of w' = terms_of w \<and> life_wf E (clock W) w' \<and>
        vault_ok E (tokens (ledger W')) ?k w')"
      using k' tm joined(2) [OF ne] by simp
    show "unat (c_total_open_value c + w_stake w) + owed w =
        unat (c_total_open_value c) + owed_of (accts W' ?k)"
      using room owed same k' by (simp add: unat_add_no_wrap)
    show "count_of (accts W' i) + exposure E i w =
        count_of (accts W i) + exposure_of E i (accts W' ?k)" for i
    proof (cases "i = ss_counter a")
      case True
      have "unat (x_count x + 1) = unat (x_count x) + 1"
        using byte by (simp add: unat_add_no_wrap)
      with True expo [of E i] ready(5,6) k' accts' show ?thesis by simp
    next
      case False
      with expo [of E i] ready(5) k' accts' distinct k c show ?thesis
        by (cases "i = ?k"; cases "i = config_key E") simp_all
    qed
    show "spares E ?k (tokens (ledger W)) (tokens (ledger W'))"
      using spares_payment [OF pay] t notpda tokens1 L' by auto
  qed (rule clk)
qed

lemma unstake_side_inv:
  assumes inv: "inv E W" and run: "handle_unstake_side E sg a W = Inr W'"
  shows "inv E W'"
proof -
  obtain c w x L where v: "validate_unstake_side E sg a W = Inr (c, w, x)"
    and st: "w_state w = Funding" "clock W \<le>s w_deadline_fund w"
    and part: "is_participant w (us_staker a)" "funded (us_staker a) w"
    and pay: "spl_transfer E (us_vault a) (us_staker_token a) (us_wager a) (w_stake w) (ledger W) = Inr L"
    and W': "W' = put_acct (us_counter a) (CounterAcc (x\<lparr>x_count := saturating_sub (x_count x) 1\<rparr>))
      (put_acct (us_wager a) (WagerAcc (stake_out (us_staker a) w))
      (put_acct (us_config a) (ConfigAcc (c\<lparr>c_total_open_value :=
        saturating_sub (c_total_open_value c) (w_stake w)\<rparr>))
      (emit_cpi (SideUnstaked (us_wager a) (us_staker a) (w_stake w)) (W\<lparr>ledger := L\<rparr>))))"
    by (rule unstake_side_success [OF run]) blast
  from v have k: "accts W (us_wager a) = Some (WagerAcc w)"
    and c: "accts W (us_config a) = Some (ConfigAcc c)"
    and x: "accts W (us_counter a) = Some (CounterAcc x)"
      "pda_at E (counter_seeds (us_staker a)) (x_bump x) (us_counter a)"
    and vk: "us_vault a = vault_key E (us_wager a) w"
    and mg: "mut_guard E [us_config a, us_wager a, us_counter a, us_staker_token a, us_vault a]"
    unfolding validate_unstake_side_Inr by blast+
  have life: "life_wf E (clock W) w" and ck: "us_config a = config_key E"
    using inv k c by (auto simp: inv_def wagers_ok_def config_ok_def)
  note out = stake_out_wager [OF life st part]
  show ?thesis
  proof (rule inv_side_out [OF inv k _ x out])
    show "accts W (config_key E) = Some (ConfigAcc c)" using c ck by simp
    show "spl_transfer E (vault_key E (us_wager a) w) (us_staker_token a) (us_wager a) (w_stake w)
        (ledger W) = Inr (ledger W')"
      using pay vk W' by simp
    show "us_staker_token a \<noteq> vault_key E (us_wager a) w" using mg vk by (auto simp: mut_guard_iff)
  qed (use W' ck in simp_all)
qed

end

section \<open>The effects\<close>

text \<open>
  What staking the side of \<open>s\<close> has to do: the stake moves from the staker's account to the
  vault, the accumulator grows by it up to the global cap, the staker's counter by one up to
  the wallet cap; nothing else changes.
\<close>

definition takes_stake :: "env \<Rightarrow> world \<Rightarrow> pubkey \<Rightarrow> pubkey \<Rightarrow> pubkey \<Rightarrow> world \<Rightarrow> bool" where
  "takes_stake E W k s from W' \<longleftrightarrow> (\<exists>w c t.
    accts W k = Some (WagerAcc w) \<and> accts W' k = Some (WagerAcc (stake_in s w)) \<and>
    leaves s (stake_in s w) w \<and>
    accts W (config_key E) = Some (ConfigAcc c) \<and>
    accts W' (config_key E) = Some (ConfigAcc (c\<lparr>c_total_open_value := t\<rparr>)) \<and>
    unat t = unat (c_total_open_value c) + unat (w_stake w) \<and> t \<le> c_max_total_open c \<and>
    count_of (accts W' (counter_key E s)) = count_of (accts W (counter_key E s)) + 1 \<and>
    count_of (accts W' (counter_key E s)) \<le> unat (c_max_open_per_wallet c) \<and>
    (\<forall>j. j \<notin> {config_key E, k, counter_key E s} \<longrightarrow> accts W' j = accts W j) \<and>
    (let V = vault_key E k w
     in amount_at (tokens (ledger W')) from + unat (w_stake w) = amount_at (tokens (ledger W)) from \<and>
        amount_at (tokens (ledger W')) V = amount_at (tokens (ledger W)) V + unat (w_stake w) \<and>
        (\<forall>j. j \<noteq> V \<and> j \<noteq> from \<longrightarrow> tokens (ledger W') j = tokens (ledger W) j)) \<and>
    token_data (tokens (ledger W')) = token_data (tokens (ledger W)) \<and> clock W' = clock W)"

context chain
begin

lemma stake_side_effect:
  assumes real: "real_signers E sg" and inv: "inv E W"
    and run: "handle_stake_side E sg a W = Inr W'"
    and k: "accts W (ss_wager a) = Some (WagerAcc w)"
  shows "takes_stake E W (ss_wager a) (ss_staker a) (ss_staker_token a) W' \<and>
    ss_staker a \<in> sg \<and> w_state w = Funding \<and> clock W \<le>s w_deadline_fund w \<and>
    (\<exists>st. tokens (ledger W) (ss_staker_token a) = Some st \<and> t_owner st = ss_staker a) \<and>
    (w_state (stake_in (ss_staker a) w) = Active \<longleftrightarrow>
      funded (counterparty w (ss_staker a)) w) \<and>
    events W' = events W @ [SideStaked (ss_wager a) (ss_staker a) (ss_staker a = w_side_a w)
      (w_stake w) (funded (counterparty w (ss_staker a)) w)]"
proof -
  let ?s = "ss_staker a" and ?k = "ss_wager a"
  obtain c w1 x W1 L where v: "validate_stake_side E sg a W = Inr (c, w1, x, W1)"
    and st: "w_state w1 = Funding" "clock W \<le>s w_deadline_fund w1"
    and part: "is_participant w1 ?s" "\<not> funded ?s w1"
    and cap: "x_count x < c_max_open_per_wallet c"
    and room: "unat (c_total_open_value c) + unat (w_stake w1) < 2 ^ 64"
    and gcap: "c_total_open_value c + w_stake w1 \<le> c_max_total_open c"
    and pay: "spl_transfer E (ss_staker_token a) (ss_vault a) ?s (w_stake w1) (ledger W1) = Inr L"
    and byte: "unat (x_count x) + 1 < 256"
    and W': "W' = put_acct (ss_counter a) (CounterAcc (x\<lparr>x_count := x_count x + 1,
        x_bump := snd (find_pda E (counter_seeds ?s))\<rparr>))
      (put_acct ?k (WagerAcc (stake_in ?s w1))
      (put_acct (ss_config a) (ConfigAcc (c\<lparr>c_total_open_value :=
        c_total_open_value c + w_stake w1\<rparr>))
      (emit_cpi (SideStaked ?k ?s (?s = w_side_a w1) (w_stake w1)
        (w_state (stake_in ?s w1) = Active))
        (W1\<lparr>ledger := L\<rparr>))))"
    by (rule stake_side_success [OF run]) blast
  have w1: "w1 = w" using v k by (simp add: validate_stake_side_Inr)
  from v have c0: "accts W (ss_config a) = Some (ConfigAcc c)"
    and ini: "init_if_needed_counter E (ss_payer a) (ss_counter a) (counter_seeds ?s) W = Inr (x, W1)"
    and vk: "ss_vault a = vault_key E ?k w" and sg: "?s \<in> sg"
    and tok: "\<exists>st. tokens (ledger W) (ss_staker_token a) = Some st \<and> t_owner st = ?s"
    and mg: "mut_guard E [ss_config a, ?k, ss_staker_token a, ss_vault a]"
    unfolding validate_stake_side_Inr w1 by blast+
  note ready = counter_ready [OF ini]
  have life: "life_wf E (clock W) w" and ck: "ss_config a = config_key E"
    and ne: "w_side_a w \<noteq> w_side_b w"
    using inv k c0 by (auto simp: inv_def wagers_ok_def config_ok_def terms_wf_def)
  have c: "accts W (config_key E) = Some (ConfigAcc c)" using c0 ck by simp
  have notpda: "\<not> is_pda E ?s" using real sg by (simp add: real_signers_def)
  note joined = stake_in_wager [OF life st [unfolded w1] part [unfolded w1] notpda ne]
  have distinct: "ss_counter a \<noteq> ?k" "ss_counter a \<noteq> config_key E" "?k \<noteq> config_key E"
    using k c ready(7) [of w] ready(8) [of c] by auto
  have vne: "ss_staker_token a \<noteq> ss_vault a" using mg by (simp add: mut_guard_iff)
  note am = transfer_amounts [OF pay vne] and dat = transfer_data [OF pay]
  have inc: "unat (x_count x + 1) = unat (x_count x) + 1" using byte by (simp add: unat_add_no_wrap)
  have small: "unat (x_count x) < unat (c_max_open_per_wallet c)" using cap by (simp add: word_less_nat_alt)
  have act: "w_state (stake_in ?s w) = Active \<longleftrightarrow> funded (counterparty w ?s) w"
    using st(1) part(1) ne w1
    by (auto simp: stake_in_def Let_def funded_def counterparty_def is_participant_def)
  have "takes_stake E W ?k ?s (ss_staker_token a) W'"
    unfolding takes_stake_def Let_def
    by (rule exI [of _ w], rule exI [of _ c], rule exI [of _ "c_total_open_value c + w_stake w"],
        intro conjI)
      (use k c W' w1 ck distinct joined room gcap inc small ready am dat vk
        in \<open>simp_all add: unat_add_no_wrap\<close>)
  with sg st tok act W' w1 ready show ?thesis by (simp add: counter_events [OF ini])
qed

lemma unstake_side_effect:
  assumes inv: "inv E W" and run: "handle_unstake_side E sg a W = Inr W'"
    and k: "accts W (us_wager a) = Some (WagerAcc w)"
  shows "returns_stake E W (us_wager a) (us_staker a) (stake_out (us_staker a) w) W' \<and>
    us_staker a \<in> sg \<and> w_state w = Funding \<and> clock W \<le>s w_deadline_fund w \<and>
    events W' = events W @ [SideUnstaked (us_wager a) (us_staker a) (w_stake w)]"
proof -
  let ?s = "us_staker a" and ?k = "us_wager a"
  obtain c w1 x L where v: "validate_unstake_side E sg a W = Inr (c, w1, x)"
    and st: "w_state w1 = Funding" "clock W \<le>s w_deadline_fund w1"
    and part: "is_participant w1 ?s" "funded ?s w1"
    and pay: "spl_transfer E (us_vault a) (us_staker_token a) ?k (w_stake w1) (ledger W) = Inr L"
    and W': "W' = put_acct (us_counter a) (CounterAcc (x\<lparr>x_count := saturating_sub (x_count x) 1\<rparr>))
      (put_acct ?k (WagerAcc (stake_out ?s w1))
      (put_acct (us_config a) (ConfigAcc (c\<lparr>c_total_open_value :=
        saturating_sub (c_total_open_value c) (w_stake w1)\<rparr>))
      (emit_cpi (SideUnstaked ?k ?s (w_stake w1)) (W\<lparr>ledger := L\<rparr>))))"
    by (rule unstake_side_success [OF run]) blast
  have w1: "w1 = w" using v k by (simp add: validate_unstake_side_Inr)
  from v have c: "accts W (us_config a) = Some (ConfigAcc c)"
    and x: "accts W (us_counter a) = Some (CounterAcc x)"
      "pda_at E (counter_seeds ?s) (x_bump x) (us_counter a)"
    and keys: "us_vault a = vault_key E ?k w" "us_staker_token a = ata_address E ?s (w_mint w)"
    and mg: "mut_guard E [us_config a, ?k, us_counter a, us_staker_token a, us_vault a]"
    and sg: "?s \<in> sg"
    unfolding validate_unstake_side_Inr w1 by blast+
  have life: "life_wf E (clock W) w" and ck: "us_config a = config_key E"
    using inv k c by (auto simp: inv_def wagers_ok_def config_ok_def)
  note out = stake_out_wager [OF life st [unfolded w1] part [unfolded w1]]
  have "returns_stake E W ?k ?s (stake_out ?s w) W'"
  proof (rule returned_stake [OF inv k _ x out(1)])
    show "accts W (config_key E) = Some (ConfigAcc c)" using c ck by simp
    show "spl_transfer E (vault_key E ?k w) (ata_address E ?s (w_mint w)) ?k (w_stake w)
        (ledger W) = Inr (ledger W')"
      using pay keys W' w1 by simp
    show "ata_address E ?s (w_mint w) \<noteq> vault_key E ?k w" using mg keys by (auto simp: mut_guard_iff)
  qed (use W' ck w1 in simp_all)
  then show ?thesis using sg st W' w1 by simp
qed

end

section \<open>The two instructions meet the contract\<close>

lemma stake_in_terms [simp]: "terms_of (stake_in s w) = terms_of w"
  by (simp add: stake_in_def Let_def)

lemma stake_out_terms [simp]: "terms_of (stake_out s w) = terms_of w"
  by (simp add: stake_out_def)

lemma stake_side_terms:
  assumes "handle_stake_side E sg a W = Inr W'" "accts W k = Some (WagerAcc w)"
  shows "accts W' k = None \<or> (\<exists>w'. accts W' k = Some (WagerAcc w') \<and> terms_of w' = terms_of w)"
  by (rule stake_side_success [OF assms(1)])
    (use assms(2) in \<open>auto simp: validate_stake_side_Inr result_simps\<close>)

lemma stake_side_time:
  "handle_stake_side E sg a W = Inr W' \<Longrightarrow> clock W' = clock W \<and> program_data W' = program_data W"
  by (erule stake_side_success) (auto simp: validate_stake_side_Inr result_simps)

lemma unstake_side_terms:
  assumes "handle_unstake_side E sg a W = Inr W'" "accts W k = Some (WagerAcc w)"
  shows "accts W' k = None \<or> (\<exists>w'. accts W' k = Some (WagerAcc w') \<and> terms_of w' = terms_of w)"
  by (rule unstake_side_success [OF assms(1)])
    (use assms(2) in \<open>auto simp: validate_unstake_side_Inr\<close>)

lemma unstake_side_time:
  "handle_unstake_side E sg a W = Inr W' \<Longrightarrow> clock W' = clock W \<and> program_data W' = program_data W"
  by (erule unstake_side_success) simp

interpretation stake: instruction handle_stake_side
  by unfold_locales (fact chain.stake_side_inv stake_side_terms stake_side_time)+

interpretation unstake: instruction handle_unstake_side
  by unfold_locales (rule chain.unstake_side_inv unstake_side_terms unstake_side_time; assumption)+

end
