(* ===== verification/Settlement.thy ===== *)
theory Settlement
  imports Payout
begin

text \<open>
  The two ways a locked wager pays a winner (\<^verbatim>\<open>resolve.rs\<close>, \<^verbatim>\<open>concede.rs\<close>): the resolver names
  one of the participants, or a participant gives the wager to the other.
\<close>

section \<open>resolve\<close>

record resolve_accounts =
  rs_resolver :: pubkey
  rs_config :: pubkey
  rs_wager :: pubkey
  rs_winner :: pubkey
  rs_winner_token :: pubkey
  rs_fee_token :: pubkey
  rs_vault :: pubkey
  rs_counter_a :: pubkey
  rs_counter_b :: pubkey
  rs_rent_collector :: pubkey
  rs_token_program :: pubkey

definition validate_resolve ::
  "env \<Rightarrow> pubkey set \<Rightarrow> resolve_accounts \<Rightarrow> world \<Rightarrow>
    error + config \<times> wager \<times> exposure_counter \<times> exposure_counter" where
  "validate_resolve E sg a W =
    require (rs_resolver a \<in> sg) (Anchor AccountNotSigner)
    (try_bind (load_config W (rs_config a)) (\<lambda>c.
    try_bind (load_wager W (rs_wager a)) (\<lambda>w.
    try_bind (load_token (ledger W) (rs_winner_token a)) (\<lambda>winner_token.
    try_bind (load_token (ledger W) (rs_fee_token a)) (\<lambda>_.
    try_bind (load_token (ledger W) (rs_vault a)) (\<lambda>vault.
    try_bind (load_counter W (rs_counter_a a)) (\<lambda>xa.
    try_bind (load_counter W (rs_counter_b a)) (\<lambda>xb.
    require (rs_token_program a = token_program_id E) (Anchor InvalidProgramId)
    (require (mut_guard E [rs_config a, rs_wager a, rs_winner_token a, rs_fee_token a, rs_vault a,
        rs_counter_a a, rs_counter_b a]) (Anchor ConstraintDuplicateMutableAccount)
    (require (rs_resolver a = w_resolver w) (Shake NotResolver)
    (require (pda_at E config_seeds (c_bump c) (rs_config a)) (Anchor ConstraintSeeds)
    (require (pda_at E (wager_seeds (w_side_a w) (w_nonce w)) (w_bump w) (rs_wager a))
      (Anchor ConstraintSeeds)
    (require (rs_wager a \<noteq> rs_rent_collector a) (Anchor ConstraintClose)
    (try_bind (check_ata E (rs_winner_token a) winner_token (w_mint w) (rs_winner a)) (\<lambda>_.
    require (rs_fee_token a = w_fee_destination w) (Shake WrongFeeDestination)
    (try_bind (check_ata E (rs_vault a) vault (w_mint w) (rs_wager a)) (\<lambda>_.
    require (pda_at E (counter_seeds (w_side_a w)) (x_bump xa) (rs_counter_a a))
      (Anchor ConstraintSeeds)
    (require (pda_at E (counter_seeds (w_side_b w)) (x_bump xb) (rs_counter_b a))
      (Anchor ConstraintSeeds)
    (require (rs_rent_collector a = w_rent_collector w) (Shake WrongRentCollector)
      (Inr (c, w, xa, xb)))))))))))))))))))))"

definition handle_resolve ::
  "env \<Rightarrow> pubkey set \<Rightarrow> resolve_accounts \<Rightarrow> pubkey \<Rightarrow> world \<Rightarrow> error + world" where
  "handle_resolve E sg a winner W =
    try_bind (validate_resolve E sg a W) (\<lambda>(c, w, xa, xb).
    let now = clock W
    in require (w_state w = Active) (Shake NotActive)
    (require (now \<le>s w_deadline_resolve w) (Shake ResolveExpired)
    (require (is_participant w winner) (Shake WinnerNotParticipant)
    (require (rs_winner a = winner) (Shake WinnerNotParticipant)
    (try_bind (split_pot (w_stake w) (w_fee_bps w)) (\<lambda>(payout, fee).
    try_bind (ok_or (checked_add payout fee) (Panic ArithmeticOverflow)) (\<lambda>pot.
    try_bind (pay_winner_and_close_vault E (rs_wager a) (signer_seeds w) (rs_vault a)
      (rs_winner_token a) (rs_fee_token a) (rs_rent_collector a) payout fee (ledger W))
      (\<lambda>(surplus, L).
    let xa1 = xa\<lparr>x_count := saturating_sub (x_count xa) 1\<rparr>;
        xb1 = xb\<lparr>x_count := saturating_sub (x_count xb) 1\<rparr>;
        c1 = c\<lparr>c_total_open_value := saturating_sub (c_total_open_value c) pot\<rparr>;
        w1 = w\<lparr>w_state := Resolved\<rparr>
    in Inr (put_acct (rs_counter_b a) (CounterAcc xb1)
         (put_acct (rs_counter_a a) (CounterAcc xa1)
         (close_acct (rs_wager a) (rs_rent_collector a)
         (put_acct (rs_wager a) (WagerAcc w1)
         (put_acct (rs_config a) (ConfigAcc c1)
         (emit_cpi (WagerClosed (rs_wager a) surplus)
         (emit_cpi (WagerResolved (rs_wager a) winner payout fee)
           (W\<lparr>ledger := L\<rparr>))))))))))))))))"

section \<open>concede\<close>

record concede_accounts =
  cc_conceder :: pubkey
  cc_config :: pubkey
  cc_wager :: pubkey
  cc_winner :: pubkey
  cc_winner_token :: pubkey
  cc_fee_token :: pubkey
  cc_vault :: pubkey
  cc_counter_a :: pubkey
  cc_counter_b :: pubkey
  cc_rent_collector :: pubkey
  cc_token_program :: pubkey

definition validate_concede ::
  "env \<Rightarrow> pubkey set \<Rightarrow> concede_accounts \<Rightarrow> world \<Rightarrow>
    error + config \<times> wager \<times> exposure_counter \<times> exposure_counter" where
  "validate_concede E sg a W =
    require (cc_conceder a \<in> sg) (Anchor AccountNotSigner)
    (try_bind (load_config W (cc_config a)) (\<lambda>c.
    try_bind (load_wager W (cc_wager a)) (\<lambda>w.
    try_bind (load_token (ledger W) (cc_winner_token a)) (\<lambda>winner_token.
    try_bind (load_token (ledger W) (cc_fee_token a)) (\<lambda>_.
    try_bind (load_token (ledger W) (cc_vault a)) (\<lambda>vault.
    try_bind (load_counter W (cc_counter_a a)) (\<lambda>xa.
    try_bind (load_counter W (cc_counter_b a)) (\<lambda>xb.
    require (cc_token_program a = token_program_id E) (Anchor InvalidProgramId)
    (require (mut_guard E [cc_config a, cc_wager a, cc_winner_token a, cc_fee_token a, cc_vault a,
        cc_counter_a a, cc_counter_b a]) (Anchor ConstraintDuplicateMutableAccount)
    (require (pda_at E config_seeds (c_bump c) (cc_config a)) (Anchor ConstraintSeeds)
    (require (pda_at E (wager_seeds (w_side_a w) (w_nonce w)) (w_bump w) (cc_wager a))
      (Anchor ConstraintSeeds)
    (require (cc_wager a \<noteq> cc_rent_collector a) (Anchor ConstraintClose)
    (try_bind (check_ata E (cc_winner_token a) winner_token (w_mint w) (cc_winner a)) (\<lambda>_.
    require (cc_fee_token a = w_fee_destination w) (Shake WrongFeeDestination)
    (try_bind (check_ata E (cc_vault a) vault (w_mint w) (cc_wager a)) (\<lambda>_.
    require (pda_at E (counter_seeds (w_side_a w)) (x_bump xa) (cc_counter_a a))
      (Anchor ConstraintSeeds)
    (require (pda_at E (counter_seeds (w_side_b w)) (x_bump xb) (cc_counter_b a))
      (Anchor ConstraintSeeds)
    (require (cc_rent_collector a = w_rent_collector w) (Shake WrongRentCollector)
      (Inr (c, w, xa, xb))))))))))))))))))))"

definition handle_concede ::
  "env \<Rightarrow> pubkey set \<Rightarrow> concede_accounts \<Rightarrow> world \<Rightarrow> error + world" where
  "handle_concede E sg a W =
    try_bind (validate_concede E sg a W) (\<lambda>(c, w, xa, xb).
    let now = clock W;
        conceder = cc_conceder a
    in require (w_state w = Active) (Shake NotActive)
    (require (now \<le>s w_deadline_resolve w) (Shake ResolveExpired)
    (require (is_participant w conceder) (Shake NotAParticipant)
    (let winner = (if conceder = w_side_a w then w_side_b w else w_side_a w)
     in require (cc_winner a = winner) (Shake NotCounterparty)
    (try_bind (split_pot (w_stake w) (w_fee_bps w)) (\<lambda>(payout, fee).
    try_bind (ok_or (checked_add payout fee) (Panic ArithmeticOverflow)) (\<lambda>pot.
    try_bind (pay_winner_and_close_vault E (cc_wager a) (signer_seeds w) (cc_vault a)
      (cc_winner_token a) (cc_fee_token a) (cc_rent_collector a) payout fee (ledger W))
      (\<lambda>(surplus, L).
    let xa1 = xa\<lparr>x_count := saturating_sub (x_count xa) 1\<rparr>;
        xb1 = xb\<lparr>x_count := saturating_sub (x_count xb) 1\<rparr>;
        c1 = c\<lparr>c_total_open_value := saturating_sub (c_total_open_value c) pot\<rparr>;
        w1 = w\<lparr>w_state := Resolved\<rparr>
    in Inr (put_acct (cc_counter_b a) (CounterAcc xb1)
         (put_acct (cc_counter_a a) (CounterAcc xa1)
         (close_acct (cc_wager a) (cc_rent_collector a)
         (put_acct (cc_wager a) (WagerAcc w1)
         (put_acct (cc_config a) (ConfigAcc c1)
         (emit_cpi (WagerClosed (cc_wager a) surplus)
         (emit_cpi (WagerConceded (cc_wager a) conceder winner payout fee)
           (W\<lparr>ledger := L\<rparr>))))))))))))))))"

section \<open>What a success means\<close>

lemma validate_resolve_Inr:
  "validate_resolve E sg a W = Inr (c, w, xa, xb) \<longleftrightarrow>
    rs_resolver a \<in> sg \<and>
    accts W (rs_config a) = Some (ConfigAcc c) \<and> accts W (rs_wager a) = Some (WagerAcc w) \<and>
    accts W (rs_counter_a a) = Some (CounterAcc xa) \<and>
    accts W (rs_counter_b a) = Some (CounterAcc xb) \<and>
    (\<exists>t f v. tokens (ledger W) (rs_winner_token a) = Some t \<and> t_owner t = rs_winner a \<and>
      tokens (ledger W) (rs_fee_token a) = Some f \<and>
      tokens (ledger W) (rs_vault a) = Some v \<and> t_owner v = rs_wager a) \<and>
    rs_winner_token a = ata_address E (rs_winner a) (w_mint w) \<and>
    rs_fee_token a = w_fee_destination w \<and>
    rs_vault a = vault_key E (rs_wager a) w \<and>
    rs_rent_collector a = w_rent_collector w \<and> rs_wager a \<noteq> rs_rent_collector a \<and>
    rs_token_program a = token_program_id E \<and>
    mut_guard E [rs_config a, rs_wager a, rs_winner_token a, rs_fee_token a, rs_vault a,
      rs_counter_a a, rs_counter_b a] \<and>
    rs_resolver a = w_resolver w \<and>
    pda_at E config_seeds (c_bump c) (rs_config a) \<and>
    create_pda E (signer_seeds w) = Some (rs_wager a) \<and>
    pda_at E (counter_seeds (w_side_a w)) (x_bump xa) (rs_counter_a a) \<and>
    pda_at E (counter_seeds (w_side_b w)) (x_bump xb) (rs_counter_b a)"
  by (auto simp: validate_resolve_def result_simps pda_at_signer_seeds vault_key_def)

lemma validate_concede_Inr:
  "validate_concede E sg a W = Inr (c, w, xa, xb) \<longleftrightarrow>
    cc_conceder a \<in> sg \<and>
    accts W (cc_config a) = Some (ConfigAcc c) \<and> accts W (cc_wager a) = Some (WagerAcc w) \<and>
    accts W (cc_counter_a a) = Some (CounterAcc xa) \<and>
    accts W (cc_counter_b a) = Some (CounterAcc xb) \<and>
    (\<exists>t f v. tokens (ledger W) (cc_winner_token a) = Some t \<and> t_owner t = cc_winner a \<and>
      tokens (ledger W) (cc_fee_token a) = Some f \<and>
      tokens (ledger W) (cc_vault a) = Some v \<and> t_owner v = cc_wager a) \<and>
    cc_winner_token a = ata_address E (cc_winner a) (w_mint w) \<and>
    cc_fee_token a = w_fee_destination w \<and>
    cc_vault a = vault_key E (cc_wager a) w \<and>
    cc_rent_collector a = w_rent_collector w \<and> cc_wager a \<noteq> cc_rent_collector a \<and>
    cc_token_program a = token_program_id E \<and>
    mut_guard E [cc_config a, cc_wager a, cc_winner_token a, cc_fee_token a, cc_vault a,
      cc_counter_a a, cc_counter_b a] \<and>
    pda_at E config_seeds (c_bump c) (cc_config a) \<and>
    create_pda E (signer_seeds w) = Some (cc_wager a) \<and>
    pda_at E (counter_seeds (w_side_a w)) (x_bump xa) (cc_counter_a a) \<and>
    pda_at E (counter_seeds (w_side_b w)) (x_bump xb) (cc_counter_b a)"
  by (auto simp: validate_concede_def result_simps pda_at_signer_seeds vault_key_def)

lemma resolve_success:
  assumes "handle_resolve E sg a winner W = Inr W'"
  obtains c w xa xb p f surplus L where
    "validate_resolve E sg a W = Inr (c, w, xa, xb)"
    "w_state w = Active" "clock W \<le>s w_deadline_resolve w"
    "is_participant w winner" "rs_winner a = winner"
    "split_pot (w_stake w) (w_fee_bps w) = Inr (p, f)"
    "pay_winner_and_close_vault E (rs_wager a) (signer_seeds w) (rs_vault a) (rs_winner_token a)
      (rs_fee_token a) (rs_rent_collector a) p f (ledger W) = Inr (surplus, L)"
    "W' = put_acct (rs_counter_b a) (CounterAcc (xb\<lparr>x_count := saturating_sub (x_count xb) 1\<rparr>))
      (put_acct (rs_counter_a a) (CounterAcc (xa\<lparr>x_count := saturating_sub (x_count xa) 1\<rparr>))
      (close_acct (rs_wager a) (rs_rent_collector a)
      (put_acct (rs_wager a) (WagerAcc (w\<lparr>w_state := Resolved\<rparr>))
      (put_acct (rs_config a) (ConfigAcc (c\<lparr>c_total_open_value :=
        saturating_sub (c_total_open_value c) (p + f)\<rparr>))
      (emit_cpi (WagerClosed (rs_wager a) surplus)
      (emit_cpi (WagerResolved (rs_wager a) winner p f) (W\<lparr>ledger := L\<rparr>)))))))"
  using assms by (auto simp: handle_resolve_def Let_def result_simps checked_add_Some)

lemma concede_success:
  assumes "handle_concede E sg a W = Inr W'"
  obtains c w xa xb p f surplus L where
    "validate_concede E sg a W = Inr (c, w, xa, xb)"
    "w_state w = Active" "clock W \<le>s w_deadline_resolve w"
    "is_participant w (cc_conceder a)" "cc_winner a = counterparty w (cc_conceder a)"
    "split_pot (w_stake w) (w_fee_bps w) = Inr (p, f)"
    "pay_winner_and_close_vault E (cc_wager a) (signer_seeds w) (cc_vault a) (cc_winner_token a)
      (cc_fee_token a) (cc_rent_collector a) p f (ledger W) = Inr (surplus, L)"
    "W' = put_acct (cc_counter_b a) (CounterAcc (xb\<lparr>x_count := saturating_sub (x_count xb) 1\<rparr>))
      (put_acct (cc_counter_a a) (CounterAcc (xa\<lparr>x_count := saturating_sub (x_count xa) 1\<rparr>))
      (close_acct (cc_wager a) (cc_rent_collector a)
      (put_acct (cc_wager a) (WagerAcc (w\<lparr>w_state := Resolved\<rparr>))
      (put_acct (cc_config a) (ConfigAcc (c\<lparr>c_total_open_value :=
        saturating_sub (c_total_open_value c) (p + f)\<rparr>))
      (emit_cpi (WagerClosed (cc_wager a) surplus)
      (emit_cpi (WagerConceded (cc_wager a) (cc_conceder a) (cc_winner a) p f)
        (W\<lparr>ledger := L\<rparr>)))))))"
  using assms
  by (auto simp: handle_concede_def Let_def result_simps checked_add_Some counterparty_def)

section \<open>What it keeps\<close>

context chain
begin

lemma resolve_inv:
  assumes inv: "inv E W" and run: "handle_resolve E sg a winner W = Inr W'"
  shows "inv E W'"
  using run
proof (rule resolve_success)
  fix c w xa xb p f surplus L
  let ?k = "rs_wager a"
  assume v: "validate_resolve E sg a W = Inr (c, w, xa, xb)"
    and both: "w_state w = Active" "clock W \<le>s w_deadline_resolve w"
    and pot: "split_pot (w_stake w) (w_fee_bps w) = Inr (p, f)"
    and pay: "pay_winner_and_close_vault E ?k (signer_seeds w) (rs_vault a) (rs_winner_token a)
      (rs_fee_token a) (rs_rent_collector a) p f (ledger W) = Inr (surplus, L)"
    and W': "W' = put_acct (rs_counter_b a) (CounterAcc (xb\<lparr>x_count := saturating_sub (x_count xb) 1\<rparr>))
      (put_acct (rs_counter_a a) (CounterAcc (xa\<lparr>x_count := saturating_sub (x_count xa) 1\<rparr>))
      (close_acct ?k (rs_rent_collector a)
      (put_acct ?k (WagerAcc (w\<lparr>w_state := Resolved\<rparr>))
      (put_acct (rs_config a) (ConfigAcc (c\<lparr>c_total_open_value :=
        saturating_sub (c_total_open_value c) (p + f)\<rparr>))
      (emit_cpi (WagerClosed ?k surplus)
      (emit_cpi (WagerResolved ?k winner p f) (W\<lparr>ledger := L\<rparr>)))))))"
  from v have k: "accts W ?k = Some (WagerAcc w)" and c: "accts W (rs_config a) = Some (ConfigAcc c)"
    and xa: "accts W (rs_counter_a a) = Some (CounterAcc xa)"
      "pda_at E (counter_seeds (w_side_a w)) (x_bump xa) (rs_counter_a a)"
    and xb: "accts W (rs_counter_b a) = Some (CounterAcc xb)"
      "pda_at E (counter_seeds (w_side_b w)) (x_bump xb) (rs_counter_b a)"
    and mg: "mut_guard E [rs_config a, ?k, rs_winner_token a, rs_fee_token a, rs_vault a,
      rs_counter_a a, rs_counter_b a]"
    unfolding validate_resolve_Inr by blast+
  have owner: "owned_by ?k (rs_vault a) (ledger W)"
    using v by (auto simp: validate_resolve_Inr owned_by_def)
  have ck: "rs_config a = config_key E" using inv c by (simp add: inv_def config_ok_def)
  have ne: "rs_counter_a a \<noteq> rs_counter_b a" using mg by (simp add: mut_guard_iff)
  show ?thesis
    by (rule inv_both_out [OF inv k _ xa xb ne both payout.pot_sum [OF pot]])
      (use W' c ck pay_winner_spares [OF pay owner] in simp_all)
qed

lemma concede_inv:
  assumes inv: "inv E W" and run: "handle_concede E sg a W = Inr W'"
  shows "inv E W'"
  using run
proof (rule concede_success)
  fix c w xa xb p f surplus L
  let ?k = "cc_wager a"
  assume v: "validate_concede E sg a W = Inr (c, w, xa, xb)"
    and both: "w_state w = Active" "clock W \<le>s w_deadline_resolve w"
    and pot: "split_pot (w_stake w) (w_fee_bps w) = Inr (p, f)"
    and pay: "pay_winner_and_close_vault E ?k (signer_seeds w) (cc_vault a) (cc_winner_token a)
      (cc_fee_token a) (cc_rent_collector a) p f (ledger W) = Inr (surplus, L)"
    and W': "W' = put_acct (cc_counter_b a) (CounterAcc (xb\<lparr>x_count := saturating_sub (x_count xb) 1\<rparr>))
      (put_acct (cc_counter_a a) (CounterAcc (xa\<lparr>x_count := saturating_sub (x_count xa) 1\<rparr>))
      (close_acct ?k (cc_rent_collector a)
      (put_acct ?k (WagerAcc (w\<lparr>w_state := Resolved\<rparr>))
      (put_acct (cc_config a) (ConfigAcc (c\<lparr>c_total_open_value :=
        saturating_sub (c_total_open_value c) (p + f)\<rparr>))
      (emit_cpi (WagerClosed ?k surplus)
      (emit_cpi (WagerConceded ?k (cc_conceder a) (cc_winner a) p f) (W\<lparr>ledger := L\<rparr>)))))))"
  from v have k: "accts W ?k = Some (WagerAcc w)" and c: "accts W (cc_config a) = Some (ConfigAcc c)"
    and xa: "accts W (cc_counter_a a) = Some (CounterAcc xa)"
      "pda_at E (counter_seeds (w_side_a w)) (x_bump xa) (cc_counter_a a)"
    and xb: "accts W (cc_counter_b a) = Some (CounterAcc xb)"
      "pda_at E (counter_seeds (w_side_b w)) (x_bump xb) (cc_counter_b a)"
    and mg: "mut_guard E [cc_config a, ?k, cc_winner_token a, cc_fee_token a, cc_vault a,
      cc_counter_a a, cc_counter_b a]"
    unfolding validate_concede_Inr by blast+
  have owner: "owned_by ?k (cc_vault a) (ledger W)"
    using v by (auto simp: validate_concede_Inr owned_by_def)
  have ck: "cc_config a = config_key E" using inv c by (simp add: inv_def config_ok_def)
  have ne: "cc_counter_a a \<noteq> cc_counter_b a" using mg by (simp add: mut_guard_iff)
  show ?thesis
    by (rule inv_both_out [OF inv k _ xa xb ne both payout.pot_sum [OF pot]])
      (use W' c ck pay_winner_spares [OF pay owner] in simp_all)
qed

end

section \<open>The settlement\<close>

text \<open>
  What either instruction has to do to the wager at \<open>k\<close>, in exact arithmetic: the winner's
  token account gets the pot less the fee; the fee account gets the rest of the vault, the
  fee and any surplus; vault and wager are gone and their rent is the collector's; the
  accumulator drops by the pot and the counters of both sides by one; nothing else changes.
\<close>

definition settles :: "env \<Rightarrow> world \<Rightarrow> pubkey \<Rightarrow> pubkey \<Rightarrow> world \<Rightarrow> bool" where
  "settles E W k winner W' \<longleftrightarrow> (\<exists>w c c'.
    accts W k = Some (WagerAcc w) \<and> w_state w = Active \<and> clock W \<le>s w_deadline_resolve w \<and>
    is_participant w winner \<and>
    accts W (config_key E) = Some (ConfigAcc c) \<and>
    accts W' (config_key E) = Some (ConfigAcc (c\<lparr>c_total_open_value := c'\<rparr>)) \<and>
    unat c' + 2 * unat (w_stake w) = unat (c_total_open_value c) \<and>
    accts W' k = None \<and>
    (\<forall>s \<in> {w_side_a w, w_side_b w}.
      count_of (accts W' (counter_key E s)) + 1 = count_of (accts W (counter_key E s))) \<and>
    (\<forall>j. j \<notin> {config_key E, k, counter_key E (w_side_a w), counter_key E (w_side_b w)} \<longrightarrow>
      accts W' j = accts W j) \<and>
    (let V = vault_key E k w;
         payout = 2 * unat (w_stake w) - fee_of (unat (w_stake w)) (unat (w_fee_bps w));
         held = amount_at (tokens (ledger W)) V
     in 2 * unat (w_stake w) \<le> held \<and>
        fee_of (unat (w_stake w)) (unat (w_fee_bps w)) \<le> 2 * unat (w_stake w) \<and>
        token_data (tokens (ledger W')) = (token_data (tokens (ledger W)))(V := None) \<and>
        (\<forall>j. j \<noteq> V \<longrightarrow> amount_at (tokens (ledger W')) j = amount_at (tokens (ledger W)) j +
           (if j = ata_address E winner (w_mint w) then payout else 0) +
           (if j = w_fee_destination w then held - payout else 0)) \<and>
        lamports (ledger W') = drain_lamports k (w_rent_collector w)
          (drain_lamports V (w_rent_collector w) (lamports (ledger W)))) \<and>
    mints (ledger W') = mints (ledger W) \<and> clock W' = clock W)"

context chain
begin

lemma settlement_effect:
  assumes inv: "inv E W"
    and k: "accts W k = Some (WagerAcc w)" and c: "accts W (config_key E) = Some (ConfigAcc c)"
    and xa: "accts W ja = Some (CounterAcc xa)" "pda_at E (counter_seeds (w_side_a w)) (x_bump xa) ja"
    and xb: "accts W jb = Some (CounterAcc xb)" "pda_at E (counter_seeds (w_side_b w)) (x_bump xb) jb"
    and ne: "ja \<noteq> jb" "vault_key E k w \<noteq> ata_address E winner (w_mint w)"
    and both: "w_state w = Active" "clock W \<le>s w_deadline_resolve w" "is_participant w winner"
    and pot: "split_pot (w_stake w) (w_fee_bps w) = Inr (p, f)"
    and pay: "pay_winner_and_close_vault E k seeds (vault_key E k w)
      (ata_address E winner (w_mint w)) (w_fee_destination w) (w_rent_collector w) p f (ledger W) =
      Inr (surplus, L)"
    and token: "w_mint w \<noteq> native_mint E"
    and W': "accts W' = (accts W)
        (config_key E \<mapsto> ConfigAcc (c\<lparr>c_total_open_value :=
            saturating_sub (c_total_open_value c) (p + f)\<rparr>),
         k := None,
         ja \<mapsto> CounterAcc (xa\<lparr>x_count := saturating_sub (x_count xa) 1\<rparr>),
         jb \<mapsto> CounterAcc (xb\<lparr>x_count := saturating_sub (x_count xb) 1\<rparr>))"
      "ledger W' = L\<lparr>lamports := drain_lamports k (w_rent_collector w) (lamports L)\<rparr>"
      "clock W' = clock W"
  shows "settles E W k winner W'"
    and "unat p = 2 * unat (w_stake w) - fee_of (unat (w_stake w)) (unat (w_fee_bps w))"
    and "unat f = fee_of (unat (w_stake w)) (unat (w_fee_bps w))"
    and "unat surplus = amount_at (tokens (ledger W)) (vault_key E k w) - 2 * unat (w_stake w)"
proof -
  let ?V = "vault_key E k w"
  have ct: "counters_ok E (accts W)" and bk: "books_ok E (accts W)"
    and life: "life_wf E (clock W) w" and vt: "vault_ok E (tokens (ledger W)) k w"
    using inv k by (auto simp: inv_def wagers_ok_def vaults_ok_def)
  note both_in = active_both_open [OF life both(1,2)]
  have owed: "owed w = 2 * unat (w_stake w)" using both_in by (simp add: owed_def)
  have keys: "counter_key E (w_side_a w) = ja" "counter_key E (w_side_b w) = jb"
    using counter_found [OF ct xa] counter_found [OF ct xb] .
  have distinct: "ja \<noteq> k" "ja \<noteq> config_key E" "jb \<noteq> k" "jb \<noteq> config_key E" "k \<noteq> config_key E"
    using k c xa(1) xb(1) by auto
  obtain v where v: "tokens (ledger W) ?V = Some v" "t_mint v = w_mint w"
    "owed w \<le> unat (t_amount v)" by (rule vault_okE [OF vt])
  have nn: "t_mint v \<noteq> native_mint E" using v(2) token by simp
  note paid = pay_winner_effect [OF pay v(1) nn ne(2)]
  have pf: "unat p + unat f = 2 * unat (w_stake w)" "unat (p + f) = 2 * unat (w_stake w)"
    "unat f = fee_of (unat (w_stake w)) (unat (w_fee_bps w))"
    using payout.split_total [OF pot] payout.pot_sum [OF pot] payout.split_fee [OF pot] .
  show p: "unat p = 2 * unat (w_stake w) - fee_of (unat (w_stake w)) (unat (w_fee_bps w))"
    and "unat f = fee_of (unat (w_stake w)) (unat (w_fee_bps w))"
    using pf by simp_all
  show "unat surplus = amount_at (tokens (ledger W)) ?V - 2 * unat (w_stake w)"
    using paid(3) pf v(1) by simp
  have "exposure E ja w \<le> unat (x_count xa)" "exposure E jb w \<le> unat (x_count xb)"
    using books_count [OF bk k, of ja] books_count [OF bk k, of jb] xa(1) xb(1) by simp_all
  then have counts: "1 \<le> unat (x_count xa)" "1 \<le> unat (x_count xb)"
    using both_in keys by (simp_all add: exposure_def)
  have A': "accts W' (config_key E) = Some (ConfigAcc (c\<lparr>c_total_open_value :=
      saturating_sub (c_total_open_value c) (p + f)\<rparr>))" "accts W' k = None"
    using W'(1) distinct by simp_all
  have dec: "\<forall>s \<in> {w_side_a w, w_side_b w}.
      count_of (accts W' (counter_key E s)) + 1 = count_of (accts W (counter_key E s))"
    using W'(1) keys distinct ne(1) counts xa(1) xb(1) by (simp add: unat_saturating_sub)
  have rest: "\<forall>j. j \<notin> {config_key E, k, counter_key E (w_side_a w), counter_key E (w_side_b w)} \<longrightarrow>
      accts W' j = accts W j"
    using W'(1) keys by simp
  have total: "unat (saturating_sub (c_total_open_value c) (p + f)) + 2 * unat (w_stake w) =
      unat (c_total_open_value c)"
    using books_total [OF bk c k] owed pf(2) by (simp add: unat_saturating_sub)
  have amounts: "amount_at (tokens (ledger W')) j = amount_at (tokens (ledger W)) j +
      (if j = ata_address E winner (w_mint w) then unat p else 0) +
      (if j = w_fee_destination w then amount_at (tokens (ledger W)) ?V - unat p else 0)"
    if "j \<noteq> ?V" for j
    using that paid(4) [of j] W'(2) v(1) by simp
  have held: "2 * unat (w_stake w) \<le> amount_at (tokens (ledger W)) ?V"
    using owed v(1,3) by simp
  show "settles E W k winner W'"
    unfolding settles_def Let_def
    by (rule exI [of _ w], rule exI [of _ c],
        rule exI [of _ "saturating_sub (c_total_open_value c) (p + f)"],
        intro conjI)
      (use k c both A' dec rest total held amounts p pf paid(5-7) W'(2,3) in simp_all)
qed

end

context chain
begin

lemma resolve_effect:
  assumes inv: "inv E W" and run: "handle_resolve E sg a winner W = Inr W'"
    and k: "accts W (rs_wager a) = Some (WagerAcc w)" and token: "w_mint w \<noteq> native_mint E"
  shows "settles E W (rs_wager a) (winner) W' \<and> w_resolver w \<in> sg \<and>
    (\<exists>payout fee surplus. events W' = events W @
        [WagerResolved (rs_wager a) winner payout fee, WagerClosed (rs_wager a) surplus] \<and>
      unat fee = 2 * unat (w_stake w) * unat (w_fee_bps w) div 10000 \<and>
      unat payout + unat fee = 2 * unat (w_stake w) \<and>
      unat surplus + 2 * unat (w_stake w) =
        amount_at (tokens (ledger W)) (vault_key E (rs_wager a) w))"
  using run
proof (rule resolve_success)
  fix c w1 xa xb p f surplus L
  let ?k = "rs_wager a"
  assume v: "validate_resolve E sg a W = Inr (c, w1, xa, xb)"
    and both: "w_state w1 = Active" "clock W \<le>s w_deadline_resolve w1"
    and part: "is_participant w1 winner" "rs_winner a = winner"
    and pot: "split_pot (w_stake w1) (w_fee_bps w1) = Inr (p, f)"
    and pay: "pay_winner_and_close_vault E ?k (signer_seeds w1) (rs_vault a) (rs_winner_token a)
      (rs_fee_token a) (rs_rent_collector a) p f (ledger W) = Inr (surplus, L)"
    and W': "W' = put_acct (rs_counter_b a) (CounterAcc (xb\<lparr>x_count := saturating_sub (x_count xb) 1\<rparr>))
      (put_acct (rs_counter_a a) (CounterAcc (xa\<lparr>x_count := saturating_sub (x_count xa) 1\<rparr>))
      (close_acct ?k (rs_rent_collector a)
      (put_acct ?k (WagerAcc (w1\<lparr>w_state := Resolved\<rparr>))
      (put_acct (rs_config a) (ConfigAcc (c\<lparr>c_total_open_value :=
        saturating_sub (c_total_open_value c) (p + f)\<rparr>))
      (emit_cpi (WagerClosed ?k surplus)
      (emit_cpi (WagerResolved ?k winner p f) (W\<lparr>ledger := L\<rparr>)))))))"
  have w1: "w1 = w" using v k by (simp add: validate_resolve_Inr)
  from v have c: "accts W (rs_config a) = Some (ConfigAcc c)"
    and xa: "accts W (rs_counter_a a) = Some (CounterAcc xa)"
      "pda_at E (counter_seeds (w_side_a w)) (x_bump xa) (rs_counter_a a)"
    and xb: "accts W (rs_counter_b a) = Some (CounterAcc xb)"
      "pda_at E (counter_seeds (w_side_b w)) (x_bump xb) (rs_counter_b a)"
    and keys: "rs_vault a = vault_key E ?k w" "rs_fee_token a = w_fee_destination w"
      "rs_rent_collector a = w_rent_collector w"
      "rs_winner_token a = ata_address E (rs_winner a) (w_mint w)"
    and mg: "mut_guard E [rs_config a, ?k, rs_winner_token a, rs_fee_token a, rs_vault a,
      rs_counter_a a, rs_counter_b a]"
    and sg: "rs_resolver a \<in> sg" "rs_resolver a = w_resolver w"
    unfolding validate_resolve_Inr w1 by blast+
  have ck: "rs_config a = config_key E" and terms: "terms_wf w"
    using inv c k by (auto simp: inv_def config_ok_def wagers_ok_def)
  have ne: "rs_counter_a a \<noteq> rs_counter_b a" "vault_key E ?k w \<noteq> ata_address E (rs_winner a) (w_mint w)"
    using mg keys by (auto simp: mut_guard_iff)
  have part': "is_participant w (rs_winner a)"
    using part w1 by simp
  note both' = both [unfolded w1] and pot' = pot [unfolded w1]
  have pay': "pay_winner_and_close_vault E ?k (signer_seeds w) (vault_key E ?k w)
      (ata_address E (rs_winner a) (w_mint w)) (w_fee_destination w) (w_rent_collector w) p f (ledger W) =
      Inr (surplus, L)"
    using pay w1 keys by simp
  have c': "accts W (config_key E) = Some (ConfigAcc c)" using c ck by simp
  have A': "accts W' = (accts W)
        (config_key E \<mapsto> ConfigAcc (c\<lparr>c_total_open_value :=
            saturating_sub (c_total_open_value c) (p + f)\<rparr>),
         ?k := None,
         rs_counter_a a \<mapsto> CounterAcc (xa\<lparr>x_count := saturating_sub (x_count xa) 1\<rparr>),
         rs_counter_b a \<mapsto> CounterAcc (xb\<lparr>x_count := saturating_sub (x_count xb) 1\<rparr>))"
    and L': "ledger W' = L\<lparr>lamports := drain_lamports ?k (w_rent_collector w) (lamports L)\<rparr>"
      "clock W' = clock W"
    using W' ck keys(3) by (simp_all add: close_acct_def put_acct_def emit_cpi_def)
  note eff = settlement_effect [OF inv k c' xa xb ne both' part' pot' pay' token A' L']
  have held: "2 * unat (w_stake w) \<le> amount_at (tokens (ledger W)) (vault_key E ?k w)"
    using eff(1) k by (auto simp: settles_def Let_def)
  have fee: "fee_of (unat (w_stake w)) (unat (w_fee_bps w)) \<le> 2 * unat (w_stake w)"
    using eff(1) k by (auto simp: settles_def Let_def)
  show ?thesis
    using eff part sg held fee W' w1
    by (auto simp: fee_of_def intro!: exI [of _ p] exI [of _ f] exI [of _ surplus])
qed

lemma concede_effect:
  assumes inv: "inv E W" and run: "handle_concede E sg a W = Inr W'"
    and k: "accts W (cc_wager a) = Some (WagerAcc w)" and token: "w_mint w \<noteq> native_mint E"
  shows "settles E W (cc_wager a) (counterparty w (cc_conceder a)) W' \<and> cc_conceder a \<in> sg \<and> is_participant w (cc_conceder a) \<and>
    (\<exists>payout fee surplus. events W' = events W @
        [WagerConceded (cc_wager a) (cc_conceder a) (counterparty w (cc_conceder a)) payout fee, WagerClosed (cc_wager a) surplus] \<and>
      unat fee = 2 * unat (w_stake w) * unat (w_fee_bps w) div 10000 \<and>
      unat payout + unat fee = 2 * unat (w_stake w) \<and>
      unat surplus + 2 * unat (w_stake w) =
        amount_at (tokens (ledger W)) (vault_key E (cc_wager a) w))"
  using run
proof (rule concede_success)
  fix c w1 xa xb p f surplus L
  let ?k = "cc_wager a"
  assume v: "validate_concede E sg a W = Inr (c, w1, xa, xb)"
    and both: "w_state w1 = Active" "clock W \<le>s w_deadline_resolve w1"
    and part: "is_participant w1 (cc_conceder a)" "cc_winner a = counterparty w1 (cc_conceder a)"
    and pot: "split_pot (w_stake w1) (w_fee_bps w1) = Inr (p, f)"
    and pay: "pay_winner_and_close_vault E ?k (signer_seeds w1) (cc_vault a) (cc_winner_token a)
      (cc_fee_token a) (cc_rent_collector a) p f (ledger W) = Inr (surplus, L)"
    and W': "W' = put_acct (cc_counter_b a) (CounterAcc (xb\<lparr>x_count := saturating_sub (x_count xb) 1\<rparr>))
      (put_acct (cc_counter_a a) (CounterAcc (xa\<lparr>x_count := saturating_sub (x_count xa) 1\<rparr>))
      (close_acct ?k (cc_rent_collector a)
      (put_acct ?k (WagerAcc (w1\<lparr>w_state := Resolved\<rparr>))
      (put_acct (cc_config a) (ConfigAcc (c\<lparr>c_total_open_value :=
        saturating_sub (c_total_open_value c) (p + f)\<rparr>))
      (emit_cpi (WagerClosed ?k surplus)
      (emit_cpi (WagerConceded ?k (cc_conceder a) (cc_winner a) p f) (W\<lparr>ledger := L\<rparr>)))))))"
  have w1: "w1 = w" using v k by (simp add: validate_concede_Inr)
  from v have c: "accts W (cc_config a) = Some (ConfigAcc c)"
    and xa: "accts W (cc_counter_a a) = Some (CounterAcc xa)"
      "pda_at E (counter_seeds (w_side_a w)) (x_bump xa) (cc_counter_a a)"
    and xb: "accts W (cc_counter_b a) = Some (CounterAcc xb)"
      "pda_at E (counter_seeds (w_side_b w)) (x_bump xb) (cc_counter_b a)"
    and keys: "cc_vault a = vault_key E ?k w" "cc_fee_token a = w_fee_destination w"
      "cc_rent_collector a = w_rent_collector w"
      "cc_winner_token a = ata_address E (cc_winner a) (w_mint w)"
    and mg: "mut_guard E [cc_config a, ?k, cc_winner_token a, cc_fee_token a, cc_vault a,
      cc_counter_a a, cc_counter_b a]"
    and sg: "cc_conceder a \<in> sg"
    unfolding validate_concede_Inr w1 by blast+
  have ck: "cc_config a = config_key E" and terms: "terms_wf w"
    using inv c k by (auto simp: inv_def config_ok_def wagers_ok_def)
  have ne: "cc_counter_a a \<noteq> cc_counter_b a" "vault_key E ?k w \<noteq> ata_address E (cc_winner a) (w_mint w)"
    using mg keys by (auto simp: mut_guard_iff)
  have part': "is_participant w (cc_winner a)"
    using part w1 by (auto simp: is_participant_def counterparty_def)
  note both' = both [unfolded w1] and pot' = pot [unfolded w1]
  have pay': "pay_winner_and_close_vault E ?k (signer_seeds w) (vault_key E ?k w)
      (ata_address E (cc_winner a) (w_mint w)) (w_fee_destination w) (w_rent_collector w) p f (ledger W) =
      Inr (surplus, L)"
    using pay w1 keys by simp
  have c': "accts W (config_key E) = Some (ConfigAcc c)" using c ck by simp
  have A': "accts W' = (accts W)
        (config_key E \<mapsto> ConfigAcc (c\<lparr>c_total_open_value :=
            saturating_sub (c_total_open_value c) (p + f)\<rparr>),
         ?k := None,
         cc_counter_a a \<mapsto> CounterAcc (xa\<lparr>x_count := saturating_sub (x_count xa) 1\<rparr>),
         cc_counter_b a \<mapsto> CounterAcc (xb\<lparr>x_count := saturating_sub (x_count xb) 1\<rparr>))"
    and L': "ledger W' = L\<lparr>lamports := drain_lamports ?k (w_rent_collector w) (lamports L)\<rparr>"
      "clock W' = clock W"
    using W' ck keys(3) by (simp_all add: close_acct_def put_acct_def emit_cpi_def)
  note eff = settlement_effect [OF inv k c' xa xb ne both' part' pot' pay' token A' L']
  have held: "2 * unat (w_stake w) \<le> amount_at (tokens (ledger W)) (vault_key E ?k w)"
    using eff(1) k by (auto simp: settles_def Let_def)
  have fee: "fee_of (unat (w_stake w)) (unat (w_fee_bps w)) \<le> 2 * unat (w_stake w)"
    using eff(1) k by (auto simp: settles_def Let_def)
  show ?thesis
    using eff part sg held fee W' w1
    by (auto simp: fee_of_def counterparty_def intro!: exI [of _ p] exI [of _ f] exI [of _ surplus])
qed

end

section \<open>Conceding is resolving for the other side\<close>

definition as_resolve :: "wager \<Rightarrow> concede_accounts \<Rightarrow> resolve_accounts" where
  "as_resolve w a =
    \<lparr>rs_resolver = w_resolver w, rs_config = cc_config a, rs_wager = cc_wager a,
     rs_winner = cc_winner a, rs_winner_token = cc_winner_token a, rs_fee_token = cc_fee_token a,
     rs_vault = cc_vault a, rs_counter_a = cc_counter_a a, rs_counter_b = cc_counter_b a,
     rs_rent_collector = cc_rent_collector a, rs_token_program = cc_token_program a\<rparr>"

lemma as_resolve_simps [simp]:
  "rs_resolver (as_resolve w a) = w_resolver w"
  "rs_config (as_resolve w a) = cc_config a"
  "rs_wager (as_resolve w a) = cc_wager a"
  "rs_winner (as_resolve w a) = cc_winner a"
  "rs_winner_token (as_resolve w a) = cc_winner_token a"
  "rs_fee_token (as_resolve w a) = cc_fee_token a"
  "rs_vault (as_resolve w a) = cc_vault a"
  "rs_counter_a (as_resolve w a) = cc_counter_a a"
  "rs_counter_b (as_resolve w a) = cc_counter_b a"
  "rs_rent_collector (as_resolve w a) = cc_rent_collector a"
  "rs_token_program (as_resolve w a) = cc_token_program a"
  by (simp_all add: as_resolve_def)

text \<open>
  Where a participant's concession succeeds, the resolver's decision for the other side
  succeeds on the same accounts, and the two worlds differ in one event.
\<close>

lemma concede_as_resolve:
  assumes run: "handle_concede E sg a W = Inr W'"
    and k: "accts W (cc_wager a) = Some (WagerAcc w)" and sg': "w_resolver w \<in> sg'"
  shows "\<exists>V payout fee surplus.
    handle_resolve E sg' (as_resolve w a) (counterparty w (cc_conceder a)) W = Inr V \<and>
    V = W'\<lparr>events := events V\<rparr> \<and>
    events V = events W @ [WagerResolved (cc_wager a) (counterparty w (cc_conceder a)) payout fee,
      WagerClosed (cc_wager a) surplus] \<and>
    events W' = events W @ [WagerConceded (cc_wager a) (cc_conceder a)
      (counterparty w (cc_conceder a)) payout fee, WagerClosed (cc_wager a) surplus]"
  using run
proof (rule concede_success)
  fix c w1 xa xb p f surplus L
  let ?k = "cc_wager a" and ?win = "counterparty w (cc_conceder a)"
  assume v: "validate_concede E sg a W = Inr (c, w1, xa, xb)"
    and both: "w_state w1 = Active" "clock W \<le>s w_deadline_resolve w1"
    and part: "is_participant w1 (cc_conceder a)" "cc_winner a = counterparty w1 (cc_conceder a)"
    and pot: "split_pot (w_stake w1) (w_fee_bps w1) = Inr (p, f)"
    and pay: "pay_winner_and_close_vault E ?k (signer_seeds w1) (cc_vault a) (cc_winner_token a)
      (cc_fee_token a) (cc_rent_collector a) p f (ledger W) = Inr (surplus, L)"
    and W': "W' = put_acct (cc_counter_b a) (CounterAcc (xb\<lparr>x_count := saturating_sub (x_count xb) 1\<rparr>))
      (put_acct (cc_counter_a a) (CounterAcc (xa\<lparr>x_count := saturating_sub (x_count xa) 1\<rparr>))
      (close_acct ?k (cc_rent_collector a)
      (put_acct ?k (WagerAcc (w1\<lparr>w_state := Resolved\<rparr>))
      (put_acct (cc_config a) (ConfigAcc (c\<lparr>c_total_open_value :=
        saturating_sub (c_total_open_value c) (p + f)\<rparr>))
      (emit_cpi (WagerClosed ?k surplus)
      (emit_cpi (WagerConceded ?k (cc_conceder a) (cc_winner a) p f) (W\<lparr>ledger := L\<rparr>)))))))"
  have w1: "w1 = w" using v k by (simp add: validate_concede_Inr)
  have v': "validate_resolve E sg' (as_resolve w a) W = Inr (c, w, xa, xb)"
    using v sg' by (auto simp: validate_resolve_Inr validate_concede_Inr w1)
  have win: "is_participant w ?win" by (simp add: is_participant_def counterparty_def)
  define V where "V = put_acct (cc_counter_b a) (CounterAcc (xb\<lparr>x_count := saturating_sub (x_count xb) 1\<rparr>))
      (put_acct (cc_counter_a a) (CounterAcc (xa\<lparr>x_count := saturating_sub (x_count xa) 1\<rparr>))
      (close_acct ?k (cc_rent_collector a)
      (put_acct ?k (WagerAcc (w\<lparr>w_state := Resolved\<rparr>))
      (put_acct (cc_config a) (ConfigAcc (c\<lparr>c_total_open_value :=
        saturating_sub (c_total_open_value c) (p + f)\<rparr>))
      (emit_cpi (WagerClosed ?k surplus)
      (emit_cpi (WagerResolved ?k ?win p f) (W\<lparr>ledger := L\<rparr>)))))))"
  have "handle_resolve E sg' (as_resolve w a) ?win W = Inr V"
    using both part pot pay win payout.pot_sum_checked [OF pot]
    by (simp add: handle_resolve_def v' Let_def w1 V_def)
  moreover have "V = W'\<lparr>events := events V\<rparr>"
    by (simp add: V_def W' w1 put_acct_def close_acct_def emit_cpi_def)
  moreover have "events V = events W @ [WagerResolved ?k ?win p f, WagerClosed ?k surplus]"
    by (simp add: V_def)
  moreover have "events W' = events W @ [WagerConceded ?k (cc_conceder a) ?win p f, WagerClosed ?k surplus]"
    using W' part(2) w1 by simp
  ultimately show ?thesis by blast
qed

section \<open>The two instructions meet the contract\<close>

lemma resolve_terms:
  assumes "handle_resolve E sg a winner W = Inr W'" "accts W k = Some (WagerAcc w)"
  shows "accts W' k = None \<or> (\<exists>w'. accts W' k = Some (WagerAcc w') \<and> terms_of w' = terms_of w)"
  by (rule resolve_success [OF assms(1)]) (use assms(2) in \<open>auto simp: validate_resolve_Inr\<close>)

lemma resolve_time:
  "handle_resolve E sg a winner W = Inr W' \<Longrightarrow> clock W' = clock W \<and> program_data W' = program_data W"
  by (erule resolve_success) simp

lemma concede_terms:
  assumes "handle_concede E sg a W = Inr W'" "accts W k = Some (WagerAcc w)"
  shows "accts W' k = None \<or> (\<exists>w'. accts W' k = Some (WagerAcc w') \<and> terms_of w' = terms_of w)"
  by (rule concede_success [OF assms(1)]) (use assms(2) in \<open>auto simp: validate_concede_Inr\<close>)

lemma concede_time:
  "handle_concede E sg a W = Inr W' \<Longrightarrow> clock W' = clock W \<and> program_data W' = program_data W"
  by (erule concede_success) simp

interpretation resolve: instruction "\<lambda>E sg (a, winner). handle_resolve E sg a winner"
  by unfold_locales (auto intro: chain.resolve_inv dest: resolve_terms resolve_time)

interpretation concede: instruction handle_concede
  by unfold_locales (rule chain.concede_inv concede_terms concede_time; assumption)+

end
