(* ===== verification/Cancel.thy ===== *)
theory Cancel
  imports Payout
begin

text \<open>
  Cancelling a locked wager by consent (\<^verbatim>\<open>cancel.rs\<close>): a participant proposes, either clears
  the proposal, and the other participant accepts it, which returns both stakes in full.
\<close>

section \<open>cancel_propose and cancel_clear\<close>

record cancel_propose_accounts =
  cp_participant :: pubkey
  cp_wager :: pubkey

definition validate_cancel_propose ::
  "env \<Rightarrow> pubkey set \<Rightarrow> cancel_propose_accounts \<Rightarrow> world \<Rightarrow> error + wager" where
  "validate_cancel_propose E sg a W =
    require (cp_participant a \<in> sg) (Anchor AccountNotSigner)
    (try_bind (load_wager W (cp_wager a)) (\<lambda>w.
    require (mut_guard E [cp_wager a]) (Anchor ConstraintDuplicateMutableAccount)
    (require (pda_at E (wager_seeds (w_side_a w) (w_nonce w)) (w_bump w) (cp_wager a))
      (Anchor ConstraintSeeds)
      (Inr w))))"

definition handle_cancel_propose ::
  "env \<Rightarrow> pubkey set \<Rightarrow> cancel_propose_accounts \<Rightarrow> world \<Rightarrow> error + world" where
  "handle_cancel_propose E sg a W =
    try_bind (validate_cancel_propose E sg a W) (\<lambda>w.
    let now = clock W;
        signer = cp_participant a
    in require (w_state w = Active) (Shake CancelWindowClosed)
    (require (now \<le>s w_deadline_resolve w) (Shake CancelWindowClosed)
    (require (is_participant w signer) (Shake NotAParticipant)
    (require (w_cancel_proposed_by w = default_key) (Shake CancelAlreadyOpen)
    (let w1 = w\<lparr>w_cancel_proposed_by := signer\<rparr>
     in Inr (put_acct (cp_wager a) (WagerAcc w1)
          (emit_cpi (CancelProposed (cp_wager a) signer) W)))))))"

record cancel_clear_accounts =
  cl_participant :: pubkey
  cl_wager :: pubkey

definition validate_cancel_clear ::
  "env \<Rightarrow> pubkey set \<Rightarrow> cancel_clear_accounts \<Rightarrow> world \<Rightarrow> error + wager" where
  "validate_cancel_clear E sg a W =
    require (cl_participant a \<in> sg) (Anchor AccountNotSigner)
    (try_bind (load_wager W (cl_wager a)) (\<lambda>w.
    require (mut_guard E [cl_wager a]) (Anchor ConstraintDuplicateMutableAccount)
    (require (pda_at E (wager_seeds (w_side_a w) (w_nonce w)) (w_bump w) (cl_wager a))
      (Anchor ConstraintSeeds)
      (Inr w))))"

definition handle_cancel_clear ::
  "env \<Rightarrow> pubkey set \<Rightarrow> cancel_clear_accounts \<Rightarrow> world \<Rightarrow> error + world" where
  "handle_cancel_clear E sg a W =
    try_bind (validate_cancel_clear E sg a W) (\<lambda>w.
    let signer = cl_participant a
    in require (is_participant w signer) (Shake NotAParticipant)
    (require (w_cancel_proposed_by w \<noteq> default_key) (Shake CancelNotOpen)
    (let w1 = w\<lparr>w_cancel_proposed_by := default_key\<rparr>
     in Inr (put_acct (cl_wager a) (WagerAcc w1)
          (emit_cpi (CancelCleared (cl_wager a) signer) W)))))"

section \<open>cancel_accept\<close>

record cancel_accept_accounts =
  ac_acceptor :: pubkey
  ac_config :: pubkey
  ac_wager :: pubkey
  ac_side_a :: pubkey
  ac_side_b :: pubkey
  ac_side_a_token :: pubkey
  ac_side_b_token :: pubkey
  ac_counter_a :: pubkey
  ac_counter_b :: pubkey
  ac_fee_token :: pubkey
  ac_vault :: pubkey
  ac_rent_collector :: pubkey
  ac_token_program :: pubkey

definition validate_cancel_accept ::
  "env \<Rightarrow> pubkey set \<Rightarrow> cancel_accept_accounts \<Rightarrow> world \<Rightarrow>
    error + config \<times> wager \<times> exposure_counter \<times> exposure_counter" where
  "validate_cancel_accept E sg a W =
    require (ac_acceptor a \<in> sg) (Anchor AccountNotSigner)
    (try_bind (load_config W (ac_config a)) (\<lambda>c.
    try_bind (load_wager W (ac_wager a)) (\<lambda>w.
    try_bind (load_token (ledger W) (ac_side_a_token a)) (\<lambda>side_a_token.
    try_bind (load_token (ledger W) (ac_side_b_token a)) (\<lambda>side_b_token.
    try_bind (load_counter W (ac_counter_a a)) (\<lambda>xa.
    try_bind (load_counter W (ac_counter_b a)) (\<lambda>xb.
    try_bind (load_token (ledger W) (ac_fee_token a)) (\<lambda>_.
    try_bind (load_token (ledger W) (ac_vault a)) (\<lambda>vault.
    require (ac_token_program a = token_program_id E) (Anchor InvalidProgramId)
    (require (mut_guard E [ac_config a, ac_wager a, ac_side_a_token a, ac_side_b_token a,
        ac_counter_a a, ac_counter_b a, ac_fee_token a, ac_vault a])
      (Anchor ConstraintDuplicateMutableAccount)
    (require (pda_at E config_seeds (c_bump c) (ac_config a)) (Anchor ConstraintSeeds)
    (require (pda_at E (wager_seeds (w_side_a w) (w_nonce w)) (w_bump w) (ac_wager a))
      (Anchor ConstraintSeeds)
    (require (ac_wager a \<noteq> ac_rent_collector a) (Anchor ConstraintClose)
    (require (ac_side_a a = w_side_a w) (Shake NotAParticipant)
    (require (ac_side_b a = w_side_b w) (Shake NotAParticipant)
    (try_bind (check_ata E (ac_side_a_token a) side_a_token (w_mint w) (ac_side_a a)) (\<lambda>_.
    try_bind (check_ata E (ac_side_b_token a) side_b_token (w_mint w) (ac_side_b a)) (\<lambda>_.
    require (pda_at E (counter_seeds (w_side_a w)) (x_bump xa) (ac_counter_a a))
      (Anchor ConstraintSeeds)
    (require (pda_at E (counter_seeds (w_side_b w)) (x_bump xb) (ac_counter_b a))
      (Anchor ConstraintSeeds)
    (require (ac_fee_token a = w_fee_destination w) (Shake WrongFeeDestination)
    (try_bind (check_ata E (ac_vault a) vault (w_mint w) (ac_wager a)) (\<lambda>_.
    require (ac_rent_collector a = w_rent_collector w) (Shake WrongRentCollector)
      (Inr (c, w, xa, xb))))))))))))))))))))))))"

definition handle_cancel_accept ::
  "env \<Rightarrow> pubkey set \<Rightarrow> cancel_accept_accounts \<Rightarrow> world \<Rightarrow> error + world" where
  "handle_cancel_accept E sg a W =
    try_bind (validate_cancel_accept E sg a W) (\<lambda>(c, w, xa, xb).
    let now = clock W;
        signer = ac_acceptor a
    in require (w_state w = Active) (Shake CancelWindowClosed)
    (require (now \<le>s w_deadline_resolve w) (Shake CancelWindowClosed)
    (require (w_cancel_proposed_by w \<noteq> default_key) (Shake CancelNotOpen)
    (require (is_participant w signer) (Shake NotAParticipant)
    (require (signer \<noteq> w_cancel_proposed_by w) (Shake CannotAcceptOwnProposal)
    (let stake = w_stake w
     in try_bind (transfer_with_seeds E (signer_seeds w) (ac_wager a) (ac_vault a)
        (ac_side_a_token a) stake (ledger W)) (\<lambda>L1.
    try_bind (transfer_with_seeds E (signer_seeds w) (ac_wager a) (ac_vault a)
        (ac_side_b_token a) stake L1) (\<lambda>L2.
    try_bind (load_token L2 (ac_vault a)) (\<lambda>v.
    let surplus = t_amount v
    in try_bind (if 0 < surplus
        then transfer_with_seeds E (signer_seeds w) (ac_wager a) (ac_vault a) (ac_fee_token a)
          surplus L2
        else Inr L2) (\<lambda>L3.
    try_bind (close_with_seeds E (signer_seeds w) (ac_wager a) (ac_vault a) (ac_rent_collector a)
      L3) (\<lambda>L4.
    let xa1 = xa\<lparr>x_count := saturating_sub (x_count xa) 1\<rparr>;
        xb1 = xb\<lparr>x_count := saturating_sub (x_count xb) 1\<rparr>;
        c1 = c\<lparr>c_total_open_value :=
          saturating_sub (c_total_open_value c) (saturating_mul stake 2)\<rparr>;
        w1 = w\<lparr>w_state := Cancelled, w_refunded_a := True, w_refunded_b := True\<rparr>
    in Inr (put_acct (ac_counter_b a) (CounterAcc xb1)
         (put_acct (ac_counter_a a) (CounterAcc xa1)
         (close_acct (ac_wager a) (ac_rent_collector a)
         (put_acct (ac_wager a) (WagerAcc w1)
         (put_acct (ac_config a) (ConfigAcc c1)
         (emit_cpi (WagerClosed (ac_wager a) surplus)
         (emit_cpi (WagerCancelled (ac_wager a))
           (W\<lparr>ledger := L4\<rparr>)))))))))))))))))))"

section \<open>What a success means\<close>

lemma validate_cancel_propose_Inr:
  "validate_cancel_propose E sg a W = Inr w \<longleftrightarrow>
    cp_participant a \<in> sg \<and> accts W (cp_wager a) = Some (WagerAcc w) \<and>
    mut_guard E [cp_wager a] \<and> create_pda E (signer_seeds w) = Some (cp_wager a)"
  by (auto simp: validate_cancel_propose_def result_simps pda_at_signer_seeds)

lemma cancel_propose_success:
  assumes "handle_cancel_propose E sg a W = Inr W'"
  obtains w where
    "validate_cancel_propose E sg a W = Inr w"
    "w_state w = Active" "clock W \<le>s w_deadline_resolve w"
    "is_participant w (cp_participant a)" "w_cancel_proposed_by w = default_key"
    "W' = put_acct (cp_wager a) (WagerAcc (w\<lparr>w_cancel_proposed_by := cp_participant a\<rparr>))
      (emit_cpi (CancelProposed (cp_wager a) (cp_participant a)) W)"
  using assms by (auto simp: handle_cancel_propose_def Let_def result_simps)

lemma validate_cancel_clear_Inr:
  "validate_cancel_clear E sg a W = Inr w \<longleftrightarrow>
    cl_participant a \<in> sg \<and> accts W (cl_wager a) = Some (WagerAcc w) \<and>
    mut_guard E [cl_wager a] \<and> create_pda E (signer_seeds w) = Some (cl_wager a)"
  by (auto simp: validate_cancel_clear_def result_simps pda_at_signer_seeds)

lemma cancel_clear_success:
  assumes "handle_cancel_clear E sg a W = Inr W'"
  obtains w where
    "validate_cancel_clear E sg a W = Inr w"
    "is_participant w (cl_participant a)" "w_cancel_proposed_by w \<noteq> default_key"
    "W' = put_acct (cl_wager a) (WagerAcc (w\<lparr>w_cancel_proposed_by := default_key\<rparr>))
      (emit_cpi (CancelCleared (cl_wager a) (cl_participant a)) W)"
  using assms by (auto simp: handle_cancel_clear_def Let_def result_simps)

lemma validate_cancel_accept_Inr:
  "validate_cancel_accept E sg a W = Inr (c, w, xa, xb) \<longleftrightarrow>
    ac_acceptor a \<in> sg \<and>
    accts W (ac_config a) = Some (ConfigAcc c) \<and> accts W (ac_wager a) = Some (WagerAcc w) \<and>
    accts W (ac_counter_a a) = Some (CounterAcc xa) \<and>
    accts W (ac_counter_b a) = Some (CounterAcc xb) \<and>
    (\<exists>ta tb f v. tokens (ledger W) (ac_side_a_token a) = Some ta \<and> t_owner ta = w_side_a w \<and>
      tokens (ledger W) (ac_side_b_token a) = Some tb \<and> t_owner tb = w_side_b w \<and>
      tokens (ledger W) (ac_fee_token a) = Some f \<and>
      tokens (ledger W) (ac_vault a) = Some v \<and> t_owner v = ac_wager a) \<and>
    ac_side_a a = w_side_a w \<and> ac_side_b a = w_side_b w \<and>
    ac_side_a_token a = ata_address E (w_side_a w) (w_mint w) \<and>
    ac_side_b_token a = ata_address E (w_side_b w) (w_mint w) \<and>
    ac_fee_token a = w_fee_destination w \<and>
    ac_vault a = vault_key E (ac_wager a) w \<and>
    ac_rent_collector a = w_rent_collector w \<and> ac_wager a \<noteq> ac_rent_collector a \<and>
    ac_token_program a = token_program_id E \<and>
    mut_guard E [ac_config a, ac_wager a, ac_side_a_token a, ac_side_b_token a, ac_counter_a a,
      ac_counter_b a, ac_fee_token a, ac_vault a] \<and>
    pda_at E config_seeds (c_bump c) (ac_config a) \<and>
    create_pda E (signer_seeds w) = Some (ac_wager a) \<and>
    pda_at E (counter_seeds (w_side_a w)) (x_bump xa) (ac_counter_a a) \<and>
    pda_at E (counter_seeds (w_side_b w)) (x_bump xb) (ac_counter_b a)"
  by (auto simp: validate_cancel_accept_def result_simps pda_at_signer_seeds vault_key_def)

lemma cancel_accept_success:
  assumes "handle_cancel_accept E sg a W = Inr W'"
  obtains c w xa xb L1 L2 v L3 L4 where
    "validate_cancel_accept E sg a W = Inr (c, w, xa, xb)"
    "w_state w = Active" "clock W \<le>s w_deadline_resolve w" "w_cancel_proposed_by w \<noteq> default_key"
    "is_participant w (ac_acceptor a)" "ac_acceptor a \<noteq> w_cancel_proposed_by w"
    "spl_transfer E (ac_vault a) (ac_side_a_token a) (ac_wager a) (w_stake w) (ledger W) = Inr L1"
    "spl_transfer E (ac_vault a) (ac_side_b_token a) (ac_wager a) (w_stake w) L1 = Inr L2"
    "tokens L2 (ac_vault a) = Some v"
    "(if 0 < t_amount v then transfer_with_seeds E (signer_seeds w) (ac_wager a) (ac_vault a)
        (ac_fee_token a) (t_amount v) L2 else Inr L2) = Inr L3"
    "spl_close_account E (ac_vault a) (ac_rent_collector a) (ac_wager a) L3 = Inr L4"
    "W' = put_acct (ac_counter_b a) (CounterAcc (xb\<lparr>x_count := saturating_sub (x_count xb) 1\<rparr>))
      (put_acct (ac_counter_a a) (CounterAcc (xa\<lparr>x_count := saturating_sub (x_count xa) 1\<rparr>))
      (close_acct (ac_wager a) (ac_rent_collector a)
      (put_acct (ac_wager a) (WagerAcc (w\<lparr>w_state := Cancelled, w_refunded_a := True,
        w_refunded_b := True\<rparr>))
      (put_acct (ac_config a) (ConfigAcc (c\<lparr>c_total_open_value :=
        saturating_sub (c_total_open_value c) (saturating_mul (w_stake w) 2)\<rparr>))
      (emit_cpi (WagerClosed (ac_wager a) (t_amount v))
      (emit_cpi (WagerCancelled (ac_wager a)) (W\<lparr>ledger := L4\<rparr>)))))))"
  using assms by (auto simp: handle_cancel_accept_def Let_def result_simps)

section \<open>What it keeps\<close>

context chain
begin

text \<open>A new cancel proposal, or none, changes no book.\<close>

lemma inv_proposal:
  assumes inv: "inv E W" and k: "accts W k = Some (WagerAcc w)"
    and p: "p \<noteq> default_key \<Longrightarrow> w_state w = Active \<and> is_participant w p"
    and W': "accts W' = (accts W)(k \<mapsto> WagerAcc (w\<lparr>w_cancel_proposed_by := p\<rparr>))"
      "clock W' = clock W" "ledger W' = ledger W"
  shows "inv E W'"
proof -
  let ?w = "w\<lparr>w_cancel_proposed_by := p\<rparr>"
  obtain c where c: "accts W (config_key E) = Some (ConfigAcc c)"
    using inv k by (auto simp: inv_def wagers_ok_def)
  have ne: "k \<noteq> config_key E" using k c by auto
  have life: "life_wf E (clock W) w" and vt: "vault_ok E (tokens (ledger W)) k w"
    using inv k by (auto simp: inv_def wagers_ok_def vaults_ok_def)
  have sides: "open_a ?w = open_a w" "open_b ?w = open_b w"
    by (simp_all add: open_a_def open_b_def)
  have "life_wf E (clock W) ?w" using life p by (auto simp: life_wf_def is_participant_def)
  moreover have owed: "owed ?w = owed w" using sides by (simp add: owed_def)
  moreover have "vault_ok E (tokens (ledger W')) k ?w"
    using vt W'(3) owed by (simp add: vault_ok_def vault_key_def split: option.splits)
  moreover have "exposure E x ?w = exposure E x w" for x using sides by (simp add: exposure_def)
  ultimately show ?thesis
    using W' k c ne by (intro inv_step [OF inv k c, where t = "c_total_open_value c"]) simp_all
qed

lemma cancel_propose_inv:
  assumes inv: "inv E W" and run: "handle_cancel_propose E sg a W = Inr W'"
  shows "inv E W'"
  using run
  by (rule cancel_propose_success)
    (rule inv_proposal [OF inv], auto simp: validate_cancel_propose_Inr)

lemma cancel_clear_inv:
  assumes inv: "inv E W" and run: "handle_cancel_clear E sg a W = Inr W'"
  shows "inv E W'"
  using run
  by (rule cancel_clear_success)
    (rule inv_proposal [OF inv], auto simp: validate_cancel_clear_Inr)

lemma cancel_accept_inv:
  assumes inv: "inv E W" and run: "handle_cancel_accept E sg a W = Inr W'"
  shows "inv E W'"
  using run
proof (rule cancel_accept_success)
  fix c w xa xb L1 L2 v L3 L4
  let ?k = "ac_wager a"
  assume v: "validate_cancel_accept E sg a W = Inr (c, w, xa, xb)"
    and both: "w_state w = Active" "clock W \<le>s w_deadline_resolve w"
    and t1: "spl_transfer E (ac_vault a) (ac_side_a_token a) ?k (w_stake w) (ledger W) = Inr L1"
    and t2: "spl_transfer E (ac_vault a) (ac_side_b_token a) ?k (w_stake w) L1 = Inr L2"
    and t3: "(if 0 < t_amount v then transfer_with_seeds E (signer_seeds w) ?k (ac_vault a)
        (ac_fee_token a) (t_amount v) L2 else Inr L2) = Inr L3"
    and cl: "spl_close_account E (ac_vault a) (ac_rent_collector a) ?k L3 = Inr L4"
    and W': "W' = put_acct (ac_counter_b a) (CounterAcc (xb\<lparr>x_count := saturating_sub (x_count xb) 1\<rparr>))
      (put_acct (ac_counter_a a) (CounterAcc (xa\<lparr>x_count := saturating_sub (x_count xa) 1\<rparr>))
      (close_acct ?k (ac_rent_collector a)
      (put_acct ?k (WagerAcc (w\<lparr>w_state := Cancelled, w_refunded_a := True,
        w_refunded_b := True\<rparr>))
      (put_acct (ac_config a) (ConfigAcc (c\<lparr>c_total_open_value :=
        saturating_sub (c_total_open_value c) (saturating_mul (w_stake w) 2)\<rparr>))
      (emit_cpi (WagerClosed ?k (t_amount v))
      (emit_cpi (WagerCancelled ?k) (W\<lparr>ledger := L4\<rparr>)))))))"
  from v have k: "accts W ?k = Some (WagerAcc w)" and c: "accts W (ac_config a) = Some (ConfigAcc c)"
    and xa: "accts W (ac_counter_a a) = Some (CounterAcc xa)"
      "pda_at E (counter_seeds (w_side_a w)) (x_bump xa) (ac_counter_a a)"
    and xb: "accts W (ac_counter_b a) = Some (CounterAcc xb)"
      "pda_at E (counter_seeds (w_side_b w)) (x_bump xb) (ac_counter_b a)"
    and mg: "mut_guard E [ac_config a, ?k, ac_side_a_token a, ac_side_b_token a, ac_counter_a a,
      ac_counter_b a, ac_fee_token a, ac_vault a]"
    unfolding validate_cancel_accept_Inr by blast+
  have o: "owned_by ?k (ac_vault a) (ledger W)"
    using v by (auto simp: validate_cancel_accept_Inr owned_by_def)
  have ck: "ac_config a = config_key E" and terms: "terms_wf w"
    using inv c k by (auto simp: inv_def config_ok_def wagers_ok_def)
  have ne: "ac_counter_a a \<noteq> ac_counter_b a" using mg by (simp add: mut_guard_iff)
  have pot: "unat (saturating_mul (w_stake w) 2) = 2 * unat (w_stake w)"
    using terms by (simp add: unat_saturating_mul terms_wf_def)
  note s1 = transfer_spares(1) [OF t1 o] and o1 = transfer_spares(2) [OF t1 o o]
  note s2 = transfer_spares(1) [OF t2 o1] and o2 = transfer_spares(2) [OF t2 o1 o1]
  note s3 = payment_spares [OF t3 o2]
  have "spares E ?k (tokens (ledger W)) (tokens (ledger W'))"
    using spares_trans [OF spares_trans [OF spares_trans [OF s1 s2] s3(1)]
        close_spares [OF cl s3(2)]] W' by simp
  then show ?thesis
    by (intro inv_both_out [OF inv k _ xa xb ne both pot]) (use W' c ck in simp_all)
qed

end

section \<open>The effect of accepting\<close>

text \<open>
  Accepting a cancellation returns both stakes in full, without a fee: each side's own token
  account gets its stake, the pinned fee account only what was in the vault beyond them.
\<close>

context chain
begin

lemma cancel_accept_effect:
  assumes inv: "inv E W" and run: "handle_cancel_accept E sg a W = Inr W'"
    and k: "accts W (ac_wager a) = Some (WagerAcc w)" and token: "w_mint w \<noteq> native_mint E"
  shows "ac_acceptor a \<in> sg \<and> is_participant w (ac_acceptor a) \<and>
    w_cancel_proposed_by w = counterparty w (ac_acceptor a) \<and>
    w_state w = Active \<and> clock W \<le>s w_deadline_resolve w \<and>
    accts W' (ac_wager a) = None \<and>
    (\<exists>c t. accts W (config_key E) = Some (ConfigAcc c) \<and>
      accts W' (config_key E) = Some (ConfigAcc (c\<lparr>c_total_open_value := t\<rparr>)) \<and>
      unat t + 2 * unat (w_stake w) = unat (c_total_open_value c)) \<and>
    2 * unat (w_stake w) \<le> amount_at (tokens (ledger W)) (vault_key E (ac_wager a) w) \<and>
    token_data (tokens (ledger W')) =
      (token_data (tokens (ledger W)))(vault_key E (ac_wager a) w := None) \<and>
    (\<forall>j. j \<noteq> vault_key E (ac_wager a) w \<longrightarrow>
      amount_at (tokens (ledger W')) j = amount_at (tokens (ledger W)) j +
        (if j = ata_address E (w_side_a w) (w_mint w) then unat (w_stake w) else 0) +
        (if j = ata_address E (w_side_b w) (w_mint w) then unat (w_stake w) else 0) +
        (if j = w_fee_destination w
         then amount_at (tokens (ledger W)) (vault_key E (ac_wager a) w) - 2 * unat (w_stake w)
         else 0)) \<and>
    lamports (ledger W') = drain_lamports (ac_wager a) (w_rent_collector w)
      (drain_lamports (vault_key E (ac_wager a) w) (w_rent_collector w) (lamports (ledger W)))"
  using run
proof (rule cancel_accept_success)
  fix c w1 xa xb L1 L2 v2 L3 L4
  let ?k = "ac_wager a" and ?V = "vault_key E (ac_wager a) w" and ?st = "unat (w_stake w)"
  let ?a = "ata_address E (w_side_a w) (w_mint w)" and ?b = "ata_address E (w_side_b w) (w_mint w)"
  assume val: "validate_cancel_accept E sg a W = Inr (c, w1, xa, xb)"
    and both: "w_state w1 = Active" "clock W \<le>s w_deadline_resolve w1"
    and offered: "w_cancel_proposed_by w1 \<noteq> default_key" "is_participant w1 (ac_acceptor a)"
      "ac_acceptor a \<noteq> w_cancel_proposed_by w1"
    and t1: "spl_transfer E (ac_vault a) (ac_side_a_token a) ?k (w_stake w1) (ledger W) = Inr L1"
    and t2: "spl_transfer E (ac_vault a) (ac_side_b_token a) ?k (w_stake w1) L1 = Inr L2"
    and v2: "tokens L2 (ac_vault a) = Some v2"
    and t3: "(if 0 < t_amount v2 then transfer_with_seeds E (signer_seeds w1) ?k (ac_vault a)
        (ac_fee_token a) (t_amount v2) L2 else Inr L2) = Inr L3"
    and cl: "spl_close_account E (ac_vault a) (ac_rent_collector a) ?k L3 = Inr L4"
    and W': "W' = put_acct (ac_counter_b a) (CounterAcc (xb\<lparr>x_count := saturating_sub (x_count xb) 1\<rparr>))
      (put_acct (ac_counter_a a) (CounterAcc (xa\<lparr>x_count := saturating_sub (x_count xa) 1\<rparr>))
      (close_acct ?k (ac_rent_collector a)
      (put_acct ?k (WagerAcc (w1\<lparr>w_state := Cancelled, w_refunded_a := True,
        w_refunded_b := True\<rparr>))
      (put_acct (ac_config a) (ConfigAcc (c\<lparr>c_total_open_value :=
        saturating_sub (c_total_open_value c) (saturating_mul (w_stake w1) 2)\<rparr>))
      (emit_cpi (WagerClosed ?k (t_amount v2))
      (emit_cpi (WagerCancelled ?k) (W\<lparr>ledger := L4\<rparr>)))))))"
  have w1: "w1 = w" using val k by (simp add: validate_cancel_accept_Inr)
  from val have c: "accts W (ac_config a) = Some (ConfigAcc c)"
    and xa: "accts W (ac_counter_a a) = Some (CounterAcc xa)"
    and xb: "accts W (ac_counter_b a) = Some (CounterAcc xb)"
    and keys: "ac_vault a = ?V" "ac_side_a_token a = ?a" "ac_side_b_token a = ?b"
      "ac_fee_token a = w_fee_destination w" "ac_rent_collector a = w_rent_collector w"
    and mg: "mut_guard E [ac_config a, ?k, ac_side_a_token a, ac_side_b_token a, ac_counter_a a,
      ac_counter_b a, ac_fee_token a, ac_vault a]"
    and sg: "ac_acceptor a \<in> sg"
    unfolding validate_cancel_accept_Inr w1 by blast+
  have ne: "?a \<noteq> ?b" "?a \<noteq> ?V" "?b \<noteq> ?V" "w_fee_destination w \<noteq> ?V"
    "w_fee_destination w \<noteq> ?a" "w_fee_destination w \<noteq> ?b"
    using mg keys by (auto simp: mut_guard_iff)
  have ck: "ac_config a = config_key E" and terms: "terms_wf w" and life: "life_wf E (clock W) w"
    and bk: "books_ok E (accts W)" and vt: "vault_ok E (tokens (ledger W)) ?k w"
    using inv c k by (auto simp: inv_def config_ok_def wagers_ok_def vaults_ok_def)
  note both' = both [unfolded w1] and offered' = offered [unfolded w1]
  have owed: "owed w = 2 * ?st"
    using active_both_open [OF life both'] by (simp add: owed_def)
  have proposer: "w_cancel_proposed_by w = counterparty w (ac_acceptor a)"
    using life offered' by (auto simp: life_wf_def is_participant_def counterparty_def)
  obtain v where v: "tokens (ledger W) ?V = Some v" "t_mint v = w_mint w" "owed w \<le> unat (t_amount v)"
    by (rule vault_okE [OF vt])
  note t1' = t1 [unfolded keys w1] and t2' = t2 [unfolded keys w1] and t3' = t3 [unfolded keys w1]
  have d: "token_data (tokens L2) = token_data (tokens (ledger W))"
    using transfer_data [OF t1'] transfer_data [OF t2'] by simp
  have m1: "\<exists>v1. tokens L1 ?V = Some v1 \<and> t_mint v1 = w_mint w"
    using token_data_Some [OF fun_cong [OF transfer_data [OF t1']] v(1)] v(2) by metis
  have m2: "t_mint v2 = w_mint w"
    using token_data_Some [OF fun_cong [OF d] v(1)] v2 keys(1) v(2) by (metis option.inject)
  note p = payment_effect [OF t3' v2 [unfolded keys(1)]]
  obtain v3 where v3: "tokens L3 ?V = Some v3" "t_mint v3 = w_mint w"
    using token_data_Some [OF fun_cong [OF p(3)] v2 [unfolded keys(1)]] m2 by metis
  from cl keys v3 token have L4: "tokens L4 = (tokens L3)(?V := None)"
    "lamports L4 = drain_lamports ?V (w_rent_collector w) (lamports L3)"
    by (auto elim!: closeE)
  have lam: "lamports L3 = lamports (ledger W)"
    using p(5) m2 token m1 transfer_lamports [OF t2'] transfer_lamports [OF t1' v(1)] v(2) by auto
  have rest: "unat (t_amount v2) = amount_at (tokens (ledger W)) ?V - 2 * ?st"
    using transfer_amount_at [OF t2', of ?V] transfer_amount_at [OF t1', of ?V] ne v2 keys(1)
    by simp
  have am: "amount_at (tokens (ledger W')) j = amount_at (tokens (ledger W)) j +
      (if j = ?a then ?st else 0) + (if j = ?b then ?st else 0) +
      (if j = w_fee_destination w then amount_at (tokens (ledger W)) ?V - 2 * ?st else 0)"
    if "j \<noteq> ?V" for j
    using p(2) [of j] transfer_amount_at [OF t2', of j] transfer_amount_at [OF t1', of j] that ne
      rest W' L4(1) by auto
  have pot: "unat (saturating_mul (w_stake w) 2) = 2 * ?st"
    using terms by (simp add: unat_saturating_mul terms_wf_def)
  have c': "accts W (config_key E) = Some (ConfigAcc c)" using c ck by simp
  have distinct: "ac_counter_a a \<noteq> ?k" "ac_counter_a a \<noteq> config_key E" "ac_counter_b a \<noteq> ?k"
    "ac_counter_b a \<noteq> config_key E" "?k \<noteq> config_key E"
    using k c' xa xb by auto
  have A': "accts W' ?k = None" "accts W' (config_key E) = Some (ConfigAcc (c\<lparr>c_total_open_value :=
        saturating_sub (c_total_open_value c) (saturating_mul (w_stake w) 2)\<rparr>))"
    using W' distinct ck w1 by simp_all
  have total: "unat (saturating_sub (c_total_open_value c) (saturating_mul (w_stake w) 2)) +
      2 * ?st = unat (c_total_open_value c)"
    using books_total [OF bk c' k] owed pot by (simp add: unat_saturating_sub)
  have held: "2 * ?st \<le> amount_at (tokens (ledger W)) ?V" using owed v(1,3) by simp
  have td: "token_data (tokens (ledger W')) = (token_data (tokens (ledger W)))(?V := None)"
    using W' L4(1) p(3) d by simp
  have lams: "lamports (ledger W') = drain_lamports ?k (w_rent_collector w)
      (drain_lamports ?V (w_rent_collector w) (lamports (ledger W)))"
    using W' L4(2) lam keys(5) by simp
  show ?thesis
    using sg offered' proposer both' A' c' total held td am lams by blast
qed

end

section \<open>The three instructions meet the contract\<close>

lemma cancel_propose_terms:
  assumes "handle_cancel_propose E sg a W = Inr W'" "accts W k = Some (WagerAcc w)"
  shows "accts W' k = None \<or> (\<exists>w'. accts W' k = Some (WagerAcc w') \<and> terms_of w' = terms_of w)"
  by (rule cancel_propose_success [OF assms(1)]) (use assms(2) in \<open>auto simp: validate_cancel_propose_Inr\<close>)

lemma cancel_propose_time:
  "handle_cancel_propose E sg a W = Inr W' \<Longrightarrow> clock W' = clock W \<and> program_data W' = program_data W"
  by (erule cancel_propose_success) simp

lemma cancel_clear_terms:
  assumes "handle_cancel_clear E sg a W = Inr W'" "accts W k = Some (WagerAcc w)"
  shows "accts W' k = None \<or> (\<exists>w'. accts W' k = Some (WagerAcc w') \<and> terms_of w' = terms_of w)"
  by (rule cancel_clear_success [OF assms(1)]) (use assms(2) in \<open>auto simp: validate_cancel_clear_Inr\<close>)

lemma cancel_clear_time:
  "handle_cancel_clear E sg a W = Inr W' \<Longrightarrow> clock W' = clock W \<and> program_data W' = program_data W"
  by (erule cancel_clear_success) simp

lemma cancel_accept_terms:
  assumes "handle_cancel_accept E sg a W = Inr W'" "accts W k = Some (WagerAcc w)"
  shows "accts W' k = None \<or> (\<exists>w'. accts W' k = Some (WagerAcc w') \<and> terms_of w' = terms_of w)"
  by (rule cancel_accept_success [OF assms(1)]) (use assms(2) in \<open>auto simp: validate_cancel_accept_Inr\<close>)

lemma cancel_accept_time:
  "handle_cancel_accept E sg a W = Inr W' \<Longrightarrow> clock W' = clock W \<and> program_data W' = program_data W"
  by (erule cancel_accept_success) simp

interpretation propose: instruction handle_cancel_propose
  by unfold_locales (rule chain.cancel_propose_inv cancel_propose_terms cancel_propose_time; assumption)+

interpretation clear: instruction handle_cancel_clear
  by unfold_locales (rule chain.cancel_clear_inv cancel_clear_terms cancel_clear_time; assumption)+

interpretation accept: instruction handle_cancel_accept
  by unfold_locales (rule chain.cancel_accept_inv cancel_accept_terms cancel_accept_time; assumption)+

end
