(* ===== verification/Timeouts.thy ===== *)
theory Timeouts
  imports Payout
begin

text \<open>
  The permissionless exits (\<^verbatim>\<open>refund_side.rs\<close>, \<^verbatim>\<open>close_expired.rs\<close>): after the deadline anyone
  returns a side's stake to that side, and when no side is left in, anyone closes the wager.
\<close>

section \<open>refund_side\<close>

record refund_side_accounts =
  rf_cranker :: pubkey
  rf_config :: pubkey
  rf_wager :: pubkey
  rf_side :: pubkey
  rf_side_token :: pubkey
  rf_counter :: pubkey
  rf_vault :: pubkey
  rf_token_program :: pubkey

definition validate_refund_side ::
  "env \<Rightarrow> pubkey set \<Rightarrow> refund_side_accounts \<Rightarrow> world \<Rightarrow>
    error + config \<times> wager \<times> exposure_counter" where
  "validate_refund_side E sg a W =
    require (rf_cranker a \<in> sg) (Anchor AccountNotSigner)
    (try_bind (load_config W (rf_config a)) (\<lambda>c.
    try_bind (load_wager W (rf_wager a)) (\<lambda>w.
    try_bind (load_token (ledger W) (rf_side_token a)) (\<lambda>side_token.
    try_bind (load_counter W (rf_counter a)) (\<lambda>x.
    try_bind (load_token (ledger W) (rf_vault a)) (\<lambda>vault.
    require (rf_token_program a = token_program_id E) (Anchor InvalidProgramId)
    (require (mut_guard E [rf_config a, rf_wager a, rf_side_token a, rf_counter a, rf_vault a])
      (Anchor ConstraintDuplicateMutableAccount)
    (require (pda_at E config_seeds (c_bump c) (rf_config a)) (Anchor ConstraintSeeds)
    (require (pda_at E (wager_seeds (w_side_a w) (w_nonce w)) (w_bump w) (rf_wager a))
      (Anchor ConstraintSeeds)
    (try_bind (check_ata E (rf_side_token a) side_token (w_mint w) (rf_side a)) (\<lambda>_.
    require (pda_at E (counter_seeds (rf_side a)) (x_bump x) (rf_counter a))
      (Anchor ConstraintSeeds)
    (try_bind (check_ata E (rf_vault a) vault (w_mint w) (rf_wager a)) (\<lambda>_.
      Inr (c, w, x))))))))))))))"

definition refund_due :: "i64 \<Rightarrow> wager \<Rightarrow> bool" where
  "refund_due now w = (case w_state w of
     Funding \<Rightarrow> w_deadline_fund w <s now
   | Active \<Rightarrow> w_deadline_resolve w <s now
   | Cancelled \<Rightarrow> True
   | Resolved \<Rightarrow> False)"

definition handle_refund_side ::
  "env \<Rightarrow> pubkey set \<Rightarrow> refund_side_accounts \<Rightarrow> world \<Rightarrow> error + world" where
  "handle_refund_side E sg a W =
    try_bind (validate_refund_side E sg a W) (\<lambda>(c, w, x).
    let now = clock W;
        side = rf_side a
    in require (refund_due now w) (Shake RefundNotDue)
    (require (is_participant w side) (Shake NotAParticipant)
    (let is_a = (side = w_side_a w);
         (funded, refunded) =
           (if is_a then (w_funded_a w, w_refunded_a w) else (w_funded_b w, w_refunded_b w))
     in require funded (Shake SideNotFunded)
    (require (\<not> refunded) (Shake AlreadyExited)
    (let amount = w_stake w
     in try_bind (transfer_with_seeds E (signer_seeds w) (rf_wager a) (rf_vault a)
        (rf_side_token a) amount (ledger W)) (\<lambda>L.
    let x1 = x\<lparr>x_count := saturating_sub (x_count x) 1\<rparr>;
        c1 = c\<lparr>c_total_open_value := saturating_sub (c_total_open_value c) amount\<rparr>;
        w1 = (if is_a then w\<lparr>w_refunded_a := True\<rparr> else w\<lparr>w_refunded_b := True\<rparr>)
    in Inr (put_acct (rf_counter a) (CounterAcc x1)
         (put_acct (rf_wager a) (WagerAcc w1)
         (put_acct (rf_config a) (ConfigAcc c1)
         (emit_cpi (SideRefunded (rf_wager a) side amount)
           (W\<lparr>ledger := L\<rparr>)))))))))))"

section \<open>close_expired\<close>

record close_expired_accounts =
  ce_cranker :: pubkey
  ce_wager :: pubkey
  ce_vault :: pubkey
  ce_fee_token :: "pubkey option"
  ce_rent_collector :: pubkey
  ce_token_program :: pubkey

definition validate_close_expired ::
  "env \<Rightarrow> pubkey set \<Rightarrow> close_expired_accounts \<Rightarrow> world \<Rightarrow> error + wager \<times> token_account" where
  "validate_close_expired E sg a W =
    require (ce_cranker a \<in> sg) (Anchor AccountNotSigner)
    (try_bind (load_wager W (ce_wager a)) (\<lambda>w.
    try_bind (load_token (ledger W) (ce_vault a)) (\<lambda>vault.
    try_bind (case ce_fee_token a of
        None \<Rightarrow> Inr ()
      | Some k \<Rightarrow> try_bind (load_token (ledger W) k) (\<lambda>_. Inr ())) (\<lambda>_.
    require (ce_token_program a = token_program_id E) (Anchor InvalidProgramId)
    (require (mut_guard E ([ce_wager a, ce_vault a] @
        (case ce_fee_token a of None \<Rightarrow> [] | Some k \<Rightarrow> [k])))
      (Anchor ConstraintDuplicateMutableAccount)
    (require (pda_at E (wager_seeds (w_side_a w) (w_nonce w)) (w_bump w) (ce_wager a))
      (Anchor ConstraintSeeds)
    (require (ce_wager a \<noteq> ce_rent_collector a) (Anchor ConstraintClose)
    (try_bind (check_ata E (ce_vault a) vault (w_mint w) (ce_wager a)) (\<lambda>_.
    require (ce_rent_collector a = w_rent_collector w) (Shake WrongRentCollector)
      (Inr (w, vault)))))))))))"

definition close_due :: "i64 \<Rightarrow> wager \<Rightarrow> bool" where
  "close_due now w = (case w_state w of
     Funding \<Rightarrow> w_deadline_fund w <s now
   | Active \<Rightarrow> w_deadline_resolve w <s now
   | Cancelled \<Rightarrow> True
   | Resolved \<Rightarrow> False)"

definition handle_close_expired ::
  "env \<Rightarrow> pubkey set \<Rightarrow> close_expired_accounts \<Rightarrow> world \<Rightarrow> error + world" where
  "handle_close_expired E sg a W =
    try_bind (validate_close_expired E sg a W) (\<lambda>(w, vault).
    let now = clock W
    in require (close_due now w) (Shake CloseNotDue)
    (require (fully_exited w) (Shake NotFullyExited)
    (let surplus = t_amount vault
     in try_bind
      (if 0 < surplus
       then try_bind (ok_or (ce_fee_token a) (Shake WrongFeeDestination)) (\<lambda>fee_token.
            require (fee_token = w_fee_destination w) (Shake WrongFeeDestination)
            (transfer_with_seeds E (signer_seeds w) (ce_wager a) (ce_vault a) fee_token surplus
              (ledger W)))
       else Inr (ledger W)) (\<lambda>L1.
    try_bind (close_with_seeds E (signer_seeds w) (ce_wager a) (ce_vault a) (ce_rent_collector a)
      L1) (\<lambda>L2.
    Inr (close_acct (ce_wager a) (ce_rent_collector a)
      (emit_cpi (WagerClosed (ce_wager a) surplus) (W\<lparr>ledger := L2\<rparr>))))))))"

section \<open>What a success means\<close>

text \<open>The wager after a side's refund.\<close>

definition mark_refunded :: "pubkey \<Rightarrow> wager \<Rightarrow> wager" where
  "mark_refunded s w =
    (if s = w_side_a w then w\<lparr>w_refunded_a := True\<rparr> else w\<lparr>w_refunded_b := True\<rparr>)"

text \<open>Whether the stake of \<open>s\<close> is in the vault.\<close>

definition side_in :: "pubkey \<Rightarrow> wager \<Rightarrow> bool" where
  "side_in s w = (if s = w_side_a w then open_a w else open_b w)"

lemma validate_refund_side_Inr:
  "validate_refund_side E sg a W = Inr (c, w, x) \<longleftrightarrow>
    rf_cranker a \<in> sg \<and>
    accts W (rf_config a) = Some (ConfigAcc c) \<and> accts W (rf_wager a) = Some (WagerAcc w) \<and>
    accts W (rf_counter a) = Some (CounterAcc x) \<and>
    (\<exists>t v. tokens (ledger W) (rf_side_token a) = Some t \<and> t_owner t = rf_side a \<and>
      tokens (ledger W) (rf_vault a) = Some v \<and> t_owner v = rf_wager a) \<and>
    rf_side_token a = ata_address E (rf_side a) (w_mint w) \<and>
    rf_vault a = vault_key E (rf_wager a) w \<and>
    rf_token_program a = token_program_id E \<and>
    mut_guard E [rf_config a, rf_wager a, rf_side_token a, rf_counter a, rf_vault a] \<and>
    pda_at E config_seeds (c_bump c) (rf_config a) \<and>
    create_pda E (signer_seeds w) = Some (rf_wager a) \<and>
    pda_at E (counter_seeds (rf_side a)) (x_bump x) (rf_counter a)"
  by (auto simp: validate_refund_side_def result_simps pda_at_signer_seeds vault_key_def)

lemma refund_side_success:
  assumes "handle_refund_side E sg a W = Inr W'"
  obtains c w x L where
    "validate_refund_side E sg a W = Inr (c, w, x)"
    "refund_due (clock W) w" "is_participant w (rf_side a)" "side_in (rf_side a) w"
    "spl_transfer E (rf_vault a) (rf_side_token a) (rf_wager a) (w_stake w) (ledger W) = Inr L"
    "W' = put_acct (rf_counter a) (CounterAcc (x\<lparr>x_count := saturating_sub (x_count x) 1\<rparr>))
      (put_acct (rf_wager a) (WagerAcc (mark_refunded (rf_side a) w))
      (put_acct (rf_config a) (ConfigAcc (c\<lparr>c_total_open_value :=
        saturating_sub (c_total_open_value c) (w_stake w)\<rparr>))
      (emit_cpi (SideRefunded (rf_wager a) (rf_side a) (w_stake w)) (W\<lparr>ledger := L\<rparr>))))"
  using assms
  by (auto simp: handle_refund_side_def Let_def result_simps mark_refunded_def side_in_def
      open_a_def open_b_def split: if_splits)

lemma validate_close_expired_Inr:
  "validate_close_expired E sg a W = Inr (w, v) \<longleftrightarrow>
    ce_cranker a \<in> sg \<and> accts W (ce_wager a) = Some (WagerAcc w) \<and>
    tokens (ledger W) (ce_vault a) = Some v \<and> t_owner v = ce_wager a \<and>
    (\<forall>k. ce_fee_token a = Some k \<longrightarrow> tokens (ledger W) k \<noteq> None) \<and>
    ce_vault a = vault_key E (ce_wager a) w \<and>
    ce_rent_collector a = w_rent_collector w \<and> ce_wager a \<noteq> ce_rent_collector a \<and>
    ce_token_program a = token_program_id E \<and>
    mut_guard E ([ce_wager a, ce_vault a] @
      (case ce_fee_token a of None \<Rightarrow> [] | Some k \<Rightarrow> [k])) \<and>
    create_pda E (signer_seeds w) = Some (ce_wager a)"
  by (cases "ce_fee_token a")
    (auto simp: validate_close_expired_def result_simps pda_at_signer_seeds vault_key_def)

lemma close_expired_success:
  assumes "handle_close_expired E sg a W = Inr W'"
  obtains w v L1 L2 where
    "validate_close_expired E sg a W = Inr (w, v)"
    "close_due (clock W) w" "fully_exited w"
    "0 < t_amount v \<Longrightarrow> ce_fee_token a = Some (w_fee_destination w)"
    "(if 0 < t_amount v then transfer_with_seeds E (signer_seeds w) (ce_wager a) (ce_vault a)
        (w_fee_destination w) (t_amount v) (ledger W) else Inr (ledger W)) = Inr L1"
    "spl_close_account E (ce_vault a) (ce_rent_collector a) (ce_wager a) L1 = Inr L2"
    "W' = close_acct (ce_wager a) (ce_rent_collector a)
      (emit_cpi (WagerClosed (ce_wager a) (t_amount v)) (W\<lparr>ledger := L2\<rparr>))"
proof -
  from assms obtain w v L1 L2 where
    v: "validate_close_expired E sg a W = Inr (w, v)" "close_due (clock W) w" "fully_exited w" and
    pay: "(if 0 < t_amount v
       then try_bind (ok_or (ce_fee_token a) (Shake WrongFeeDestination)) (\<lambda>fee_token.
            require (fee_token = w_fee_destination w) (Shake WrongFeeDestination)
            (transfer_with_seeds E (signer_seeds w) (ce_wager a) (ce_vault a) fee_token
              (t_amount v) (ledger W)))
       else Inr (ledger W)) = Inr L1" and
    rest: "spl_close_account E (ce_vault a) (ce_rent_collector a) (ce_wager a) L1 = Inr L2"
    "W' = close_acct (ce_wager a) (ce_rent_collector a)
      (emit_cpi (WagerClosed (ce_wager a) (t_amount v)) (W\<lparr>ledger := L2\<rparr>))"
    by (auto simp: handle_close_expired_def Let_def result_simps)
  have "0 < t_amount v \<Longrightarrow> ce_fee_token a = Some (w_fee_destination w)"
    "(if 0 < t_amount v then transfer_with_seeds E (signer_seeds w) (ce_wager a) (ce_vault a)
        (w_fee_destination w) (t_amount v) (ledger W) else Inr (ledger W)) = Inr L1"
    using pay by (cases "0 < t_amount v"; simp add: result_simps)+
  with v rest that show thesis by blast
qed

section \<open>What it keeps\<close>

lemma mark_refunded_terms [simp]: "terms_of (mark_refunded s w) = terms_of w"
  by (simp add: mark_refunded_def)

lemma mark_refunded_wager:
  assumes life: "life_wf E now w" and due: "refund_due now w"
    and part: "is_participant w s" "side_in s w"
  shows "leaves s w (mark_refunded s w)" and "life_wf E now (mark_refunded s w)"
proof -
  show "leaves s w (mark_refunded s w)"
    using part
    by (auto simp: leaves_def mark_refunded_def side_in_def is_participant_def open_a_def open_b_def)
  show "life_wf E now (mark_refunded s w)"
  proof -
    have late: "(if w_state w = Active then w_deadline_resolve w else w_deadline_fund w) <s now"
      using life due by (auto simp: life_wf_def refund_due_def)
    show ?thesis
    proof (cases "s = w_side_a w")
      case True
      with part have "w_funded_a w" by (simp add: side_in_def open_a_def)
      with life late True show ?thesis
        by (auto simp: life_wf_def mark_refunded_def is_participant_def)
    next
      case False
      with part have "w_funded_b w" by (simp add: side_in_def open_b_def)
      with life late False show ?thesis
        by (auto simp: life_wf_def mark_refunded_def is_participant_def)
    qed
  qed
qed

context chain
begin

lemma refund_side_inv:
  assumes inv: "inv E W" and run: "handle_refund_side E sg a W = Inr W'"
  shows "inv E W'"
  using run
proof (rule refund_side_success)
  fix c w x L
  let ?k = "rf_wager a" and ?s = "rf_side a"
  assume v: "validate_refund_side E sg a W = Inr (c, w, x)"
    and due: "refund_due (clock W) w" and part: "is_participant w ?s" "side_in ?s w"
    and pay: "spl_transfer E (rf_vault a) (rf_side_token a) ?k (w_stake w) (ledger W) = Inr L"
    and W': "W' = put_acct (rf_counter a) (CounterAcc (x\<lparr>x_count := saturating_sub (x_count x) 1\<rparr>))
      (put_acct ?k (WagerAcc (mark_refunded ?s w))
      (put_acct (rf_config a) (ConfigAcc (c\<lparr>c_total_open_value :=
        saturating_sub (c_total_open_value c) (w_stake w)\<rparr>))
      (emit_cpi (SideRefunded ?k ?s (w_stake w)) (W\<lparr>ledger := L\<rparr>))))"
  from v have k: "accts W ?k = Some (WagerAcc w)"
    and c: "accts W (rf_config a) = Some (ConfigAcc c)"
    and x: "accts W (rf_counter a) = Some (CounterAcc x)"
      "pda_at E (counter_seeds ?s) (x_bump x) (rf_counter a)"
    and vk: "rf_vault a = vault_key E ?k w"
    and mg: "mut_guard E [rf_config a, ?k, rf_side_token a, rf_counter a, rf_vault a]"
    unfolding validate_refund_side_Inr by blast+
  have life: "life_wf E (clock W) w" and ck: "rf_config a = config_key E"
    using inv k c by (auto simp: inv_def wagers_ok_def config_ok_def)
  note out = mark_refunded_wager [OF life due part]
  show ?thesis
  proof (rule inv_side_out [OF inv k _ x out])
    show "accts W (config_key E) = Some (ConfigAcc c)" using c ck by simp
    show "spl_transfer E (vault_key E ?k w) (rf_side_token a) ?k (w_stake w) (ledger W) =
        Inr (ledger W')"
      using pay vk W' by simp
    show "rf_side_token a \<noteq> vault_key E ?k w" using mg vk by (auto simp: mut_guard_iff)
  qed (use W' ck in simp_all)
qed

lemma close_expired_inv:
  assumes inv: "inv E W" and run: "handle_close_expired E sg a W = Inr W'"
  shows "inv E W'"
  using run
proof (rule close_expired_success)
  fix w v L1 L2
  let ?k = "ce_wager a"
  assume v: "validate_close_expired E sg a W = Inr (w, v)" and out: "fully_exited w"
    and pay: "(if 0 < t_amount v then transfer_with_seeds E (signer_seeds w) ?k (ce_vault a)
        (w_fee_destination w) (t_amount v) (ledger W) else Inr (ledger W)) = Inr L1"
    and cl: "spl_close_account E (ce_vault a) (ce_rent_collector a) ?k L1 = Inr L2"
    and W': "W' = close_acct ?k (ce_rent_collector a)
      (emit_cpi (WagerClosed ?k (t_amount v)) (W\<lparr>ledger := L2\<rparr>))"
  from v have k: "accts W ?k = Some (WagerAcc w)" and owner: "owned_by ?k (ce_vault a) (ledger W)"
    by (auto simp: validate_close_expired_Inr owned_by_def)
  obtain c where c: "accts W (config_key E) = Some (ConfigAcc c)"
    using inv k by (auto simp: inv_def wagers_ok_def)
  have ne: "?k \<noteq> config_key E" using k c by auto
  note sp = payment_spares [OF pay owner]
  have "spares E ?k (tokens (ledger W)) (tokens (ledger W'))"
    using spares_trans [OF sp(1) close_spares [OF cl sp(2)]] W' by simp
  moreover have "owed w = 0" "exposure E x w = 0" for x
    using out by (simp_all add: fully_exited_iff owed_def exposure_def)
  ultimately show ?thesis
    using W' k c ne by (intro inv_step [OF inv k c, where t = "c_total_open_value c"]) simp_all
qed

end

section \<open>The effects\<close>

context chain
begin

lemma refund_side_effect:
  assumes inv: "inv E W" and run: "handle_refund_side E sg a W = Inr W'"
    and k: "accts W (rf_wager a) = Some (WagerAcc w)"
  shows "returns_stake E W (rf_wager a) (rf_side a) (mark_refunded (rf_side a) w) W' \<and>
    refund_due (clock W) w \<and> is_participant w (rf_side a) \<and>
    events W' = events W @ [SideRefunded (rf_wager a) (rf_side a) (w_stake w)]"
  using run
proof (rule refund_side_success)
  fix c w1 x L
  let ?k = "rf_wager a" and ?s = "rf_side a"
  assume v: "validate_refund_side E sg a W = Inr (c, w1, x)"
    and due: "refund_due (clock W) w1" and part: "is_participant w1 ?s" "side_in ?s w1"
    and pay: "spl_transfer E (rf_vault a) (rf_side_token a) ?k (w_stake w1) (ledger W) = Inr L"
    and W': "W' = put_acct (rf_counter a) (CounterAcc (x\<lparr>x_count := saturating_sub (x_count x) 1\<rparr>))
      (put_acct ?k (WagerAcc (mark_refunded ?s w1))
      (put_acct (rf_config a) (ConfigAcc (c\<lparr>c_total_open_value :=
        saturating_sub (c_total_open_value c) (w_stake w1)\<rparr>))
      (emit_cpi (SideRefunded ?k ?s (w_stake w1)) (W\<lparr>ledger := L\<rparr>))))"
  have w1: "w1 = w" using v k by (simp add: validate_refund_side_Inr)
  from v have c: "accts W (rf_config a) = Some (ConfigAcc c)"
    and x: "accts W (rf_counter a) = Some (CounterAcc x)"
      "pda_at E (counter_seeds ?s) (x_bump x) (rf_counter a)"
    and keys: "rf_vault a = vault_key E ?k w" "rf_side_token a = ata_address E ?s (w_mint w)"
    and mg: "mut_guard E [rf_config a, ?k, rf_side_token a, rf_counter a, rf_vault a]"
    unfolding validate_refund_side_Inr w1 by blast+
  have life: "life_wf E (clock W) w" and ck: "rf_config a = config_key E"
    using inv k c by (auto simp: inv_def wagers_ok_def config_ok_def)
  note out = mark_refunded_wager [OF life due [unfolded w1] part [unfolded w1]]
  have "returns_stake E W ?k ?s (mark_refunded ?s w) W'"
  proof (rule returned_stake [OF inv k _ x out(1)])
    show "accts W (config_key E) = Some (ConfigAcc c)" using c ck by simp
    show "spl_transfer E (vault_key E ?k w) (ata_address E ?s (w_mint w)) ?k (w_stake w)
        (ledger W) = Inr (ledger W')"
      using pay keys W' w1 by simp
    show "ata_address E ?s (w_mint w) \<noteq> vault_key E ?k w" using mg keys by (auto simp: mut_guard_iff)
  qed (use W' ck w1 in simp_all)
  then show ?thesis using due part W' w1 by simp
qed

text \<open>
  Closing gives the pinned fee account whatever is left in the vault, which is nobody's
  stake, and the rent of vault and wager to the pinned collector.
\<close>

lemma close_expired_effect:
  assumes inv: "inv E W" and run: "handle_close_expired E sg a W = Inr W'"
    and k: "accts W (ce_wager a) = Some (WagerAcc w)" and token: "w_mint w \<noteq> native_mint E"
  shows "close_due (clock W) w \<and> owed w = 0 \<and> accts W' = (accts W)(ce_wager a := None) \<and>
    token_data (tokens (ledger W')) =
      (token_data (tokens (ledger W)))(vault_key E (ce_wager a) w := None) \<and>
    (\<forall>j. j \<noteq> vault_key E (ce_wager a) w \<longrightarrow>
      amount_at (tokens (ledger W')) j = amount_at (tokens (ledger W)) j +
        (if j = w_fee_destination w
         then amount_at (tokens (ledger W)) (vault_key E (ce_wager a) w) else 0)) \<and>
    lamports (ledger W') = drain_lamports (ce_wager a) (w_rent_collector w)
      (drain_lamports (vault_key E (ce_wager a) w) (w_rent_collector w) (lamports (ledger W))) \<and>
    mints (ledger W') = mints (ledger W) \<and> clock W' = clock W"
  using run
proof (rule close_expired_success)
  fix w1 v L1 L2
  let ?k = "ce_wager a" and ?V = "vault_key E (ce_wager a) w"
  assume val: "validate_close_expired E sg a W = Inr (w1, v)" and due: "close_due (clock W) w1"
    and out: "fully_exited w1"
    and pay: "(if 0 < t_amount v then transfer_with_seeds E (signer_seeds w1) ?k (ce_vault a)
        (w_fee_destination w1) (t_amount v) (ledger W) else Inr (ledger W)) = Inr L1"
    and cl: "spl_close_account E (ce_vault a) (ce_rent_collector a) ?k L1 = Inr L2"
    and W': "W' = close_acct ?k (ce_rent_collector a)
      (emit_cpi (WagerClosed ?k (t_amount v)) (W\<lparr>ledger := L2\<rparr>))"
  have w1: "w1 = w" using val k by (simp add: validate_close_expired_Inr)
  from val have keys: "ce_vault a = ?V" "ce_rent_collector a = w_rent_collector w"
    and v: "tokens (ledger W) ?V = Some v" "t_owner v = ?k"
    unfolding validate_close_expired_Inr w1 by auto
  have "vault_ok E (tokens (ledger W)) ?k w" using inv k by (simp add: inv_def vaults_ok_def)
  with v have mint: "t_mint v \<noteq> native_mint E" using token by (simp add: vault_ok_def)
  note p = payment_effect [OF pay [unfolded keys w1] v(1)]
  obtain v1 where v1: "tokens L1 ?V = Some v1" "t_mint v1 = t_mint v"
    using token_data_Some [OF fun_cong [OF p(3)] v(1)] by metis
  from cl keys v1 mint have zero: "t_amount v1 = 0" and L2: "tokens L2 = (tokens L1)(?V := None)"
    "mints L2 = mints L1" "lamports L2 = drain_lamports ?V (w_rent_collector w) (lamports L1)"
    by (auto elim!: closeE)
  have held: "amount_at (tokens (ledger W)) ?V = unat (t_amount v)" using v(1) by simp
  have z: "w_fee_destination w = ?V \<Longrightarrow> unat (t_amount v) = 0"
    using p(2) [of ?V] v1(1) zero held by simp
  have "amount_at (tokens (ledger W')) j = amount_at (tokens (ledger W)) j +
      (if j = w_fee_destination w then amount_at (tokens (ledger W)) ?V else 0)" if "j \<noteq> ?V" for j
    using p(2) [of j] that z W' L2(1) held by (auto simp: v(1))
  then show ?thesis
    using W' due out L2 p(3-5) mint keys(2) w1
    by (simp add: fully_exited_owed)
qed

end

section \<open>The two instructions meet the contract\<close>

lemma refund_side_terms:
  assumes "handle_refund_side E sg a W = Inr W'" "accts W k = Some (WagerAcc w)"
  shows "accts W' k = None \<or> (\<exists>w'. accts W' k = Some (WagerAcc w') \<and> terms_of w' = terms_of w)"
  by (rule refund_side_success [OF assms(1)]) (use assms(2) in \<open>auto simp: validate_refund_side_Inr\<close>)

lemma refund_side_time:
  "handle_refund_side E sg a W = Inr W' \<Longrightarrow> clock W' = clock W \<and> program_data W' = program_data W"
  by (erule refund_side_success) simp

lemma close_expired_terms:
  assumes "handle_close_expired E sg a W = Inr W'" "accts W k = Some (WagerAcc w)"
  shows "accts W' k = None \<or> (\<exists>w'. accts W' k = Some (WagerAcc w') \<and> terms_of w' = terms_of w)"
  by (rule close_expired_success [OF assms(1)]) (use assms(2) in simp)

lemma close_expired_time:
  "handle_close_expired E sg a W = Inr W' \<Longrightarrow> clock W' = clock W \<and> program_data W' = program_data W"
  by (erule close_expired_success) simp

interpretation refund: instruction handle_refund_side
  by unfold_locales (rule chain.refund_side_inv refund_side_terms refund_side_time; assumption)+

interpretation close: instruction handle_close_expired
  by unfold_locales (rule chain.close_expired_inv close_expired_terms close_expired_time; assumption)+

end
