(* ===== verification/Program.thy ===== *)
theory Program
  imports Config_Admin Create_Wager Staking Settlement Cancel Timeouts
begin

text \<open>
  The program's entry points (\<^verbatim>\<open>lib.rs\<close>) and the chain it runs on: which steps change the
  world, and which worlds they reach from one where the program has no accounts.
\<close>

section \<open>The entry points\<close>

datatype call =
    Initialize_Config initialize_config_accounts initialize_config_args
  | Update_Config update_config_accounts update_config_args
  | Create_Wager create_wager_accounts create_wager_args
  | Stake_Side stake_side_accounts
  | Unstake_Side unstake_side_accounts
  | Propose_Admin propose_admin_accounts pubkey
  | Accept_Admin accept_admin_accounts
  | Cancel_Admin_Transfer cancel_admin_transfer_accounts
  | Resolve resolve_accounts pubkey
  | Concede concede_accounts
  | Refund_Side refund_side_accounts
  | Cancel_Propose cancel_propose_accounts
  | Cancel_Clear cancel_clear_accounts
  | Cancel_Accept cancel_accept_accounts
  | Close_Expired close_expired_accounts

fun exec :: "env \<Rightarrow> pubkey set \<Rightarrow> call \<Rightarrow> world \<Rightarrow> error + world" where
  "exec E sg (Initialize_Config a args) W = handle_initialize_config E sg a args W"
| "exec E sg (Update_Config a args) W = handle_update_config E sg a args W"
| "exec E sg (Create_Wager a args) W = handle_create_wager E sg a args W"
| "exec E sg (Stake_Side a) W = handle_stake_side E sg a W"
| "exec E sg (Unstake_Side a) W = handle_unstake_side E sg a W"
| "exec E sg (Propose_Admin a new_admin) W = handle_propose_admin E sg a new_admin W"
| "exec E sg (Accept_Admin a) W = handle_accept_admin E sg a W"
| "exec E sg (Cancel_Admin_Transfer a) W = handle_cancel_admin_transfer E sg a W"
| "exec E sg (Resolve a winner) W = handle_resolve E sg a winner W"
| "exec E sg (Concede a) W = handle_concede E sg a W"
| "exec E sg (Refund_Side a) W = handle_refund_side E sg a W"
| "exec E sg (Cancel_Propose a) W = handle_cancel_propose E sg a W"
| "exec E sg (Cancel_Clear a) W = handle_cancel_clear E sg a W"
| "exec E sg (Cancel_Accept a) W = handle_cancel_accept E sg a W"
| "exec E sg (Close_Expired a) W = handle_close_expired E sg a W"

text \<open>The contract of the handlers is the contract of the program.\<close>

interpretation program: instruction exec
proof
  fix E sg W i W'
  assume ok: "chain E" "real_signers E sg" "inv E W" and run: "exec E sg i W = Inr W'"
  note pairs = initialize.keeps_inv [where i = "(a, b)" for a b, simplified, OF ok]
    update.keeps_inv [where i = "(a, b)" for a b, simplified, OF ok]
    create.keeps_inv [where i = "(a, b)" for a b, simplified, OF ok]
    propose_admin.keeps_inv [where i = "(a, b)" for a b, simplified, OF ok]
    resolve.keeps_inv [where i = "(a, b)" for a b, simplified, OF ok]
  note singles = stake.keeps_inv unstake.keeps_inv accept_admin.keeps_inv cancel_admin.keeps_inv
    concede.keeps_inv refund.keeps_inv propose.keeps_inv clear.keeps_inv accept.keeps_inv
    close.keeps_inv
  show "inv E W'"
    using run by (cases i) (simp_all add: pairs singles [OF ok])
next
  fix E sg i W W' k w
  assume run: "exec E sg i W = Inr W'" and k: "accts W k = Some (WagerAcc w)"
  show "accts W' k = None \<or> (\<exists>w'. accts W' k = Some (WagerAcc w') \<and> terms_of w' = terms_of w)"
    using run initialize_config_terms [OF _ k] update_config_terms [OF _ k]
      create_wager_keeps [OF _ k] stake_side_terms [OF _ k] unstake_side_terms [OF _ k]
      propose_admin_terms [OF _ k] accept_admin_terms [OF _ k] cancel_admin_transfer_terms [OF _ k]
      resolve_terms [OF _ k] concede_terms [OF _ k] refund_side_terms [OF _ k]
      cancel_propose_terms [OF _ k] cancel_clear_terms [OF _ k] cancel_accept_terms [OF _ k]
      close_expired_terms [OF _ k]
    by (cases i) (simp_all only: exec.simps)
next
  fix E sg i W W'
  assume "exec E sg i W = Inr W'"
  then show "clock W' = clock W \<and> program_data W' = program_data W"
    using initialize_config_time update_config_time create_wager_time stake_side_time
      unstake_side_time propose_admin_time accept_admin_time cancel_admin_transfer_time
      resolve_time concede_time refund_side_time cancel_propose_time cancel_clear_time
      cancel_accept_time close_expired_time
    by (cases i) (simp_all only: exec.simps)
qed

section \<open>The chain\<close>

text \<open>
  What other programs may do to the token accounts. The runtime lets nobody but this program
  sign for an address derived from it, so an account with such an owner keeps its owner, its
  mint and its close authority, and loses nothing; it may be credited, and the mint's freeze
  authority may freeze or thaw it. No token account appears at an address of this program.
\<close>

definition outside_ok ::
  "env \<Rightarrow> account_map \<Rightarrow> (pubkey \<Rightarrow> token_account option) \<Rightarrow>
    (pubkey \<Rightarrow> token_account option) \<Rightarrow> bool"
where
  "outside_ok E A T T' \<longleftrightarrow> (\<forall>j. A j \<noteq> None \<longrightarrow> T' j = None) \<and> (\<forall>j v. T j = Some v \<and> is_pda E (t_owner v) \<longrightarrow>
    (\<exists>v'. T' j = Some v' \<and> t_owner v' = t_owner v \<and> t_mint v' = t_mint v \<and>
      t_close_authority v' = t_close_authority v \<and> t_amount v \<le> t_amount v'))"

text \<open>
  One step: a transaction that succeeds (one that fails changes nothing), time passing, other
  programs changing the ledger, or a change of the recorded upgrade authorities.
\<close>

inductive chain_step :: "env \<Rightarrow> world \<Rightarrow> world \<Rightarrow> bool" for E where
  transaction: "real_signers E sg \<Longrightarrow> run_transaction exec E sg is W = Inr W' \<Longrightarrow> chain_step E W W'"
| tick: "clock W \<le>s t \<Longrightarrow> chain_step E W (W\<lparr>clock := t\<rparr>)"
| outside: "outside_ok E (accts W) (tokens (ledger W)) (tokens L) \<Longrightarrow> chain_step E W (W\<lparr>ledger := L\<rparr>)"
| upgrade: "chain_step E W (W\<lparr>program_data := pd\<rparr>)"

inductive_cases chain_stepE: "chain_step E W W'"

text \<open>The worlds reached from one without program accounts.\<close>

inductive reachable :: "env \<Rightarrow> world \<Rightarrow> bool" for E where
  genesis: "accts W = (\<lambda>_. None) \<Longrightarrow> events W = [] \<Longrightarrow> reachable E W"
| step: "reachable E W \<Longrightarrow> chain_step E W W' \<Longrightarrow> reachable E W'"

lemma genesis_inv: "accts W = (\<lambda>_. None) \<Longrightarrow> inv E W"
  by (simp add: inv_def config_ok_def transfers_ok_def counters_ok_def wagers_ok_def books_ok_def
      vaults_ok_def apart_def total_exposure_def)

lemma life_wf_later:
  assumes "life_wf E now w" "now \<le>s t"
  shows "life_wf E t w"
  using assms unfolding life_wf_def by (auto split: if_splits intro: signed.less_le_trans)

lemma tick_inv:
  assumes "inv E W" "clock W \<le>s t"
  shows "inv E (W\<lparr>clock := t\<rparr>)"
  using assms life_wf_later [OF _ assms(2)] by (auto simp: inv_def wagers_ok_def apart_def)

lemma outside_inv:
  assumes inv: "inv E W" and out: "outside_ok E (accts W) (tokens (ledger W)) (tokens L)"
  shows "inv E (W\<lparr>ledger := L\<rparr>)"
proof -
  have "vaults_ok E (accts W) (tokens L)"
    unfolding vaults_ok_def
  proof (intro allI impI)
    fix k w assume k: "accts W k = Some (WagerAcc w)"
    then have vt: "vault_ok E (tokens (ledger W)) k w" and "create_pda E (signer_seeds w) = Some k"
      using inv by (auto simp: inv_def vaults_ok_def wagers_ok_def)
    then have pda: "is_pda E k" by (auto simp: is_pda_def)
    obtain v where v: "tokens (ledger W) (vault_key E k w) = Some v" "t_owner v = k"
      "t_mint v = w_mint w" "owed w \<le> unat (t_amount v)"
      by (rule vault_okE [OF vt])
    with out pda obtain v' where "tokens L (vault_key E k w) = Some v'" "t_owner v' = k"
      "t_mint v' = w_mint w" "t_amount v \<le> t_amount v'"
      unfolding outside_ok_def by metis
    with v show "vault_ok E (tokens L) k w" by (simp add: vault_ok_def word_le_nat_alt)
  qed
  with inv out show ?thesis by (simp add: inv_def apart_def outside_ok_def)
qed

lemma chain_step_inv:
  assumes "chain E" "inv E W" "chain_step E W W'"
  shows "inv E W'"
  using assms(3)
proof (rule chain_stepE)
  fix sg "is"
  assume "real_signers E sg" "run_transaction exec E sg is W = Inr W'"
  with assms(1,2) show ?thesis by (blast intro: program.transaction_inv)
next
  fix t assume "W' = W\<lparr>clock := t\<rparr>" "clock W \<le>s t"
  with assms(2) tick_inv show ?thesis by simp
next
  fix L assume "W' = W\<lparr>ledger := L\<rparr>" "outside_ok E (accts W) (tokens (ledger W)) (tokens L)"
  with assms(2) outside_inv show ?thesis by simp
next
  fix pd assume "W' = W\<lparr>program_data := pd\<rparr>"
  with assms(2) show ?thesis by (simp add: inv_def apart_def)
qed

lemma reachable_inv:
  assumes "chain E" "reachable E W"
  shows "inv E W"
  using assms(2) by induction (auto intro: genesis_inv chain_step_inv [OF assms(1)])

end
