(* ===== verification/Wire.thy ===== *)
theory Wire
  imports Create_Wager Config_Admin
begin

text \<open>
  The bytes of the program's data: how the accounts, the arguments of the instructions and the
  events are written and read. Program and client declare the structs independently and derive
  both directions from their own declarations (\<^verbatim>\<open>AnchorSerialize\<close> in \<^verbatim>\<open>state.rs\<close>, \<^verbatim>\<open>events.rs\<close> and the
  files of the instructions, \<^verbatim>\<open>BorshDeserialize\<close> in \<^verbatim>\<open>types.rs\<close>): the fields in their order, an
  enum as the index of its variant. Of each pair the direction that crosses over is modelled. For an
  account or an event \<open>put_x\<close> follows the declaration of the program, which writes it, and
  \<open>get_x\<close> that of the client, which reads it; for an argument \<open>put_x\<close> follows the client and
  \<open>get_x\<close> the program. The encodings of the library types are the fields of the record \<open>borsh\<close>,
  and the locale \<open>wire_format\<close> states what the Borsh format promises of them.
\<close>

section \<open>Writing and reading\<close>

type_synonym 'a reader = "bytes \<Rightarrow> ('a \<times> bytes) option"

record 'a codec =
  put :: "'a \<Rightarrow> bytes"
  get :: "bytes \<Rightarrow> ('a \<times> bytes) option"

definition return_read :: "'a \<Rightarrow> 'a reader" where
  "return_read x bs = Some (x, bs)"

definition and_then :: "'a reader \<Rightarrow> ('a \<Rightarrow> 'b reader) \<Rightarrow> 'b reader" where
  "and_then r f bs = (case r bs of None \<Rightarrow> None | Some (x, rest) \<Rightarrow> f x rest)"

definition reads_back :: "('a \<Rightarrow> bool) \<Rightarrow> 'a codec \<Rightarrow> bool" where
  "reads_back P c \<longleftrightarrow> (\<forall>x rest. P x \<longrightarrow> get c (put c x @ rest) = Some (x, rest))"

definition has_width :: "('a \<Rightarrow> bool) \<Rightarrow> nat \<Rightarrow> 'a codec \<Rightarrow> bool" where
  "has_width P n c \<longleftrightarrow> (\<forall>x. P x \<longrightarrow> length (put c x) = n)"

text \<open>The encodings of numbers, keys, hashes, arrays, vectors and options.\<close>

record borsh =
  b_u8 :: "u8 codec"
  b_u16 :: "u16 codec"
  b_u64 :: "u64 codec"
  b_i64 :: "i64 codec"
  b_bool :: "bool codec"
  b_key :: "pubkey codec"
  b_hash :: "hash32 codec"
  b_allowlist :: "pubkey list codec"
  b_keys :: "pubkey list codec"
  b_opt_u8 :: "u8 option codec"
  b_opt_u16 :: "u16 option codec"
  b_opt_u64 :: "u64 option codec"
  b_opt_i64 :: "i64 option codec"
  b_opt_bool :: "bool option codec"
  b_opt_key :: "pubkey option codec"
  b_opt_keys :: "pubkey list option codec"

text \<open>The length of a vector is written in 32 bits, that of an array is fixed by its type.\<close>

definition vec_fits :: "pubkey list \<Rightarrow> bool" where
  "vec_fits ks \<longleftrightarrow> length ks < 2 ^ 32"

definition allowlist_fits :: "pubkey list \<Rightarrow> bool" where
  "allowlist_fits ks \<longleftrightarrow> length ks = RESOLVER_ALLOWLIST_LEN"

definition opt_vec_fits :: "pubkey list option \<Rightarrow> bool" where
  "opt_vec_fits x \<longleftrightarrow> (case x of None \<Rightarrow> True | Some ks \<Rightarrow> vec_fits ks)"

section \<open>Accounts\<close>

definition put_wager_state :: "borsh \<Rightarrow> wager_state \<Rightarrow> bytes" where
  "put_wager_state B s = put (b_u8 B) (of_nat (state_rank s))"

definition get_wager_state :: "borsh \<Rightarrow> wager_state reader" where
  "get_wager_state B =
    and_then (get (b_u8 B)) (\<lambda>n bs.
      if n = 0 then Some (Funding, bs) else if n = 1 then Some (Active, bs)
      else if n = 2 then Some (Resolved, bs) else if n = 3 then Some (Cancelled, bs) else None)"

definition put_admin_transfer :: "borsh \<Rightarrow> admin_transfer \<Rightarrow> bytes" where
  "put_admin_transfer B a =
    put (b_key B) (at_proposed a) @ put (b_u8 B) (at_bump a)"

definition get_admin_transfer :: "borsh \<Rightarrow> admin_transfer reader" where
  "get_admin_transfer B =
    and_then (get (b_key B)) (\<lambda>proposed. and_then (get (b_u8 B)) (\<lambda>bump.
    return_read (\<lparr>at_proposed = proposed, at_bump = bump\<rparr>)))"

definition put_config :: "borsh \<Rightarrow> config \<Rightarrow> bytes" where
  "put_config B c =
    put (b_key B) (c_admin c) @ put (b_key B) (c_mint c) @ put (b_u16 B) (c_fee_bps c) @
    put (b_key B) (c_fee_destination c) @ put (b_key B) (c_rent_collector c) @
    put (b_u64 B) (c_min_stake c) @ put (b_u64 B) (c_max_stake c) @
    put (b_u8 B) (c_max_open_per_wallet c) @ put (b_allowlist B) (c_resolver_allowlist c) @
    put (b_u8 B) (c_resolver_count c) @ put (b_bool B) (c_paused c) @
    put (b_i64 B) (c_max_window c) @ put (b_u64 B) (c_max_total_open c) @
    put (b_u64 B) (c_total_open_value c) @ put (b_u8 B) (c_bump c)"

definition get_config :: "borsh \<Rightarrow> config reader" where
  "get_config B =
    and_then (get (b_key B)) (\<lambda>admin. and_then (get (b_key B)) (\<lambda>mint.
    and_then (get (b_u16 B)) (\<lambda>fee_bps.
    and_then (get (b_key B)) (\<lambda>fee_destination.
    and_then (get (b_key B)) (\<lambda>rent_collector.
    and_then (get (b_u64 B)) (\<lambda>min_stake. and_then (get (b_u64 B)) (\<lambda>max_stake.
    and_then (get (b_u8 B)) (\<lambda>max_open_per_wallet.
    and_then (get (b_allowlist B)) (\<lambda>resolver_allowlist.
    and_then (get (b_u8 B)) (\<lambda>resolver_count.
    and_then (get (b_bool B)) (\<lambda>paused. and_then (get (b_i64 B)) (\<lambda>max_window.
    and_then (get (b_u64 B)) (\<lambda>max_total_open.
    and_then (get (b_u64 B)) (\<lambda>total_open_value. and_then (get (b_u8 B)) (\<lambda>bump.
    return_read (\<lparr>c_admin = admin, c_mint = mint, c_fee_bps = fee_bps,
    c_fee_destination = fee_destination, c_rent_collector = rent_collector,
    c_min_stake = min_stake, c_max_stake = max_stake,
    c_max_open_per_wallet = max_open_per_wallet, c_resolver_allowlist = resolver_allowlist,
    c_resolver_count = resolver_count, c_paused = paused, c_max_window = max_window,
    c_max_total_open = max_total_open, c_total_open_value = total_open_value,
    c_bump = bump\<rparr>))))))))))))))))"

definition put_exposure_counter :: "borsh \<Rightarrow> exposure_counter \<Rightarrow> bytes" where
  "put_exposure_counter B x =
    put (b_u8 B) (x_count x) @ put (b_u8 B) (x_bump x)"

definition get_exposure_counter :: "borsh \<Rightarrow> exposure_counter reader" where
  "get_exposure_counter B =
    and_then (get (b_u8 B)) (\<lambda>count. and_then (get (b_u8 B)) (\<lambda>bump.
    return_read (\<lparr>x_count = count, x_bump = bump\<rparr>)))"

definition put_wager :: "borsh \<Rightarrow> wager \<Rightarrow> bytes" where
  "put_wager B w =
    put_wager_state B (w_state w) @ put (b_key B) (w_side_a w) @ put (b_key B) (w_side_b w) @
    put (b_u64 B) (w_stake w) @ put (b_key B) (w_mint w) @ put (b_bool B) (w_funded_a w) @
    put (b_bool B) (w_funded_b w) @ put (b_bool B) (w_refunded_a w) @
    put (b_bool B) (w_refunded_b w) @ put (b_key B) (w_resolver w) @
    put (b_hash B) (w_terms_hash w) @ put (b_i64 B) (w_deadline_fund w) @
    put (b_i64 B) (w_deadline_resolve w) @ put (b_u16 B) (w_fee_bps w) @
    put (b_key B) (w_fee_destination w) @ put (b_key B) (w_rent_collector w) @
    put (b_u64 B) (w_nonce w) @ put (b_key B) (w_cancel_proposed_by w) @ put (b_u8 B) (w_bump w)"

definition get_wager :: "borsh \<Rightarrow> wager reader" where
  "get_wager B =
    and_then (get_wager_state B) (\<lambda>st. and_then (get (b_key B)) (\<lambda>side_a.
    and_then (get (b_key B)) (\<lambda>side_b. and_then (get (b_u64 B)) (\<lambda>stake.
    and_then (get (b_key B)) (\<lambda>mint. and_then (get (b_bool B)) (\<lambda>funded_a.
    and_then (get (b_bool B)) (\<lambda>funded_b.
    and_then (get (b_bool B)) (\<lambda>refunded_a.
    and_then (get (b_bool B)) (\<lambda>refunded_b. and_then (get (b_key B)) (\<lambda>resolver.
    and_then (get (b_hash B)) (\<lambda>terms_hash.
    and_then (get (b_i64 B)) (\<lambda>deadline_fund.
    and_then (get (b_i64 B)) (\<lambda>deadline_resolve.
    and_then (get (b_u16 B)) (\<lambda>fee_bps.
    and_then (get (b_key B)) (\<lambda>fee_destination.
    and_then (get (b_key B)) (\<lambda>rent_collector. and_then (get (b_u64 B)) (\<lambda>nonce.
    and_then (get (b_key B)) (\<lambda>cancel_proposed_by.
    and_then (get (b_u8 B)) (\<lambda>bump.
    return_read (\<lparr>w_state = st, w_side_a = side_a, w_side_b = side_b, w_stake = stake,
    w_mint = mint, w_funded_a = funded_a, w_funded_b = funded_b, w_refunded_a = refunded_a,
    w_refunded_b = refunded_b, w_resolver = resolver, w_terms_hash = terms_hash,
    w_deadline_fund = deadline_fund, w_deadline_resolve = deadline_resolve, w_fee_bps = fee_bps,
    w_fee_destination = fee_destination, w_rent_collector = rent_collector, w_nonce = nonce,
    w_cancel_proposed_by = cancel_proposed_by, w_bump = bump\<rparr>))))))))))))))))))))"

text \<open>The data of an account after its discriminator, and the space its type reserves.\<close>

fun put_account :: "borsh \<Rightarrow> account_data \<Rightarrow> bytes" where
  "put_account B (ConfigAcc c) = put_config B c"
| "put_account B (WagerAcc w) = put_wager B w"
| "put_account B (TransferAcc a) = put_admin_transfer B a"
| "put_account B (CounterAcc x) = put_exposure_counter B x"

fun get_account_like :: "borsh \<Rightarrow> account_data \<Rightarrow> account_data reader" where
  "get_account_like B (ConfigAcc _) = and_then (get_config B) (\<lambda>c. return_read (ConfigAcc c))"
| "get_account_like B (WagerAcc _) = and_then (get_wager B) (\<lambda>w. return_read (WagerAcc w))"
| "get_account_like B (TransferAcc _) =
    and_then (get_admin_transfer B) (\<lambda>a. return_read (TransferAcc a))"
| "get_account_like B (CounterAcc _) =
    and_then (get_exposure_counter B) (\<lambda>x. return_read (CounterAcc x))"

fun account_space :: "account_data \<Rightarrow> nat" where
  "account_space (ConfigAcc _) = CONFIG_INIT_SPACE"
| "account_space (WagerAcc _) = WAGER_INIT_SPACE"
| "account_space (TransferAcc _) = ADMIN_TRANSFER_INIT_SPACE"
| "account_space (CounterAcc _) = COUNTER_INIT_SPACE"

fun account_fits :: "account_data \<Rightarrow> bool" where
  "account_fits (ConfigAcc c) = allowlist_fits (c_resolver_allowlist c)"
| "account_fits _ = True"

section \<open>Arguments\<close>

definition put_create_wager_args :: "borsh \<Rightarrow> create_wager_args \<Rightarrow> bytes" where
  "put_create_wager_args B c =
    put (b_u64 B) (ca_nonce c) @ put (b_key B) (ca_side_a c) @ put (b_key B) (ca_side_b c) @
    put (b_u64 B) (ca_stake c) @ put (b_hash B) (ca_terms_hash c) @
    put (b_i64 B) (ca_deadline_fund c) @ put (b_i64 B) (ca_deadline_resolve c) @
    put (b_key B) (ca_resolver c)"

definition get_create_wager_args :: "borsh \<Rightarrow> create_wager_args reader" where
  "get_create_wager_args B =
    and_then (get (b_u64 B)) (\<lambda>nonce. and_then (get (b_key B)) (\<lambda>side_a.
    and_then (get (b_key B)) (\<lambda>side_b. and_then (get (b_u64 B)) (\<lambda>stake.
    and_then (get (b_hash B)) (\<lambda>terms_hash.
    and_then (get (b_i64 B)) (\<lambda>deadline_fund.
    and_then (get (b_i64 B)) (\<lambda>deadline_resolve.
    and_then (get (b_key B)) (\<lambda>resolver.
    return_read (\<lparr>ca_nonce = nonce, ca_side_a = side_a, ca_side_b = side_b,
    ca_stake = stake, ca_terms_hash = terms_hash, ca_deadline_fund = deadline_fund,
    ca_deadline_resolve = deadline_resolve, ca_resolver = resolver\<rparr>)))))))))"

definition put_initialize_config_args :: "borsh \<Rightarrow> initialize_config_args \<Rightarrow> bytes" where
  "put_initialize_config_args B i =
    put (b_key B) (ia_mint i) @ put (b_u16 B) (ia_fee_bps i) @
    put (b_key B) (ia_fee_destination i) @ put (b_key B) (ia_rent_collector i) @
    put (b_u64 B) (ia_min_stake i) @ put (b_u64 B) (ia_max_stake i) @
    put (b_u8 B) (ia_max_open_per_wallet i) @ put (b_keys B) (ia_resolvers i) @
    put (b_i64 B) (ia_max_window i) @ put (b_u64 B) (ia_max_total_open i)"

definition get_initialize_config_args :: "borsh \<Rightarrow> initialize_config_args reader" where
  "get_initialize_config_args B =
    and_then (get (b_key B)) (\<lambda>mint. and_then (get (b_u16 B)) (\<lambda>fee_bps.
    and_then (get (b_key B)) (\<lambda>fee_destination.
    and_then (get (b_key B)) (\<lambda>rent_collector.
    and_then (get (b_u64 B)) (\<lambda>min_stake. and_then (get (b_u64 B)) (\<lambda>max_stake.
    and_then (get (b_u8 B)) (\<lambda>max_open_per_wallet.
    and_then (get (b_keys B)) (\<lambda>resolvers.
    and_then (get (b_i64 B)) (\<lambda>max_window.
    and_then (get (b_u64 B)) (\<lambda>max_total_open.
    return_read (\<lparr>ia_mint = mint, ia_fee_bps = fee_bps,
    ia_fee_destination = fee_destination, ia_rent_collector = rent_collector,
    ia_min_stake = min_stake, ia_max_stake = max_stake,
    ia_max_open_per_wallet = max_open_per_wallet, ia_resolvers = resolvers,
    ia_max_window = max_window, ia_max_total_open = max_total_open\<rparr>)))))))))))"

definition put_update_config_args :: "borsh \<Rightarrow> update_config_args \<Rightarrow> bytes" where
  "put_update_config_args B u =
    put (b_opt_u16 B) (ua_fee_bps u) @ put (b_opt_key B) (ua_fee_destination u) @
    put (b_opt_key B) (ua_rent_collector u) @ put (b_opt_u64 B) (ua_min_stake u) @
    put (b_opt_u64 B) (ua_max_stake u) @ put (b_opt_u8 B) (ua_max_open_per_wallet u) @
    put (b_opt_keys B) (ua_resolvers u) @ put (b_opt_bool B) (ua_paused u) @
    put (b_opt_i64 B) (ua_max_window u) @ put (b_opt_u64 B) (ua_max_total_open u)"

definition get_update_config_args :: "borsh \<Rightarrow> update_config_args reader" where
  "get_update_config_args B =
    and_then (get (b_opt_u16 B)) (\<lambda>fee_bps.
    and_then (get (b_opt_key B)) (\<lambda>fee_destination.
    and_then (get (b_opt_key B)) (\<lambda>rent_collector.
    and_then (get (b_opt_u64 B)) (\<lambda>min_stake.
    and_then (get (b_opt_u64 B)) (\<lambda>max_stake.
    and_then (get (b_opt_u8 B)) (\<lambda>max_open_per_wallet.
    and_then (get (b_opt_keys B)) (\<lambda>resolvers.
    and_then (get (b_opt_bool B)) (\<lambda>paused.
    and_then (get (b_opt_i64 B)) (\<lambda>max_window.
    and_then (get (b_opt_u64 B)) (\<lambda>max_total_open.
    return_read (\<lparr>ua_fee_bps = fee_bps, ua_fee_destination = fee_destination,
    ua_rent_collector = rent_collector, ua_min_stake = min_stake, ua_max_stake = max_stake,
    ua_max_open_per_wallet = max_open_per_wallet, ua_resolvers = resolvers, ua_paused = paused,
    ua_max_window = max_window, ua_max_total_open = max_total_open\<rparr>)))))))))))"

section \<open>Events\<close>

definition put_admin_transfer_cancelled :: "borsh \<Rightarrow> event \<Rightarrow> bytes" where
  "put_admin_transfer_cancelled B e =
    put (b_key B) (e_proposed e)"

definition get_admin_transfer_cancelled :: "borsh \<Rightarrow> event reader" where
  "get_admin_transfer_cancelled B =
    and_then (get (b_key B)) (\<lambda>proposed.
    return_read (AdminTransferCancelled proposed))"

definition put_admin_transfer_proposed :: "borsh \<Rightarrow> event \<Rightarrow> bytes" where
  "put_admin_transfer_proposed B e =
    put (b_key B) (e_proposed e)"

definition get_admin_transfer_proposed :: "borsh \<Rightarrow> event reader" where
  "get_admin_transfer_proposed B =
    and_then (get (b_key B)) (\<lambda>proposed.
    return_read (AdminTransferProposed proposed))"

definition put_admin_transferred :: "borsh \<Rightarrow> event \<Rightarrow> bytes" where
  "put_admin_transferred B e =
    put (b_key B) (e_previous e) @ put (b_key B) (e_admin e)"

definition get_admin_transferred :: "borsh \<Rightarrow> event reader" where
  "get_admin_transferred B =
    and_then (get (b_key B)) (\<lambda>previous. and_then (get (b_key B)) (\<lambda>admin.
    return_read (AdminTransferred previous admin)))"

definition put_cancel_cleared :: "borsh \<Rightarrow> event \<Rightarrow> bytes" where
  "put_cancel_cleared B e =
    put (b_key B) (e_wager e) @ put (b_key B) (e_by e)"

definition get_cancel_cleared :: "borsh \<Rightarrow> event reader" where
  "get_cancel_cleared B =
    and_then (get (b_key B)) (\<lambda>wager. and_then (get (b_key B)) (\<lambda>signer.
    return_read (CancelCleared wager signer)))"

definition put_cancel_proposed :: "borsh \<Rightarrow> event \<Rightarrow> bytes" where
  "put_cancel_proposed B e =
    put (b_key B) (e_wager e) @ put (b_key B) (e_by e)"

definition get_cancel_proposed :: "borsh \<Rightarrow> event reader" where
  "get_cancel_proposed B =
    and_then (get (b_key B)) (\<lambda>wager. and_then (get (b_key B)) (\<lambda>signer.
    return_read (CancelProposed wager signer)))"

definition put_side_refunded :: "borsh \<Rightarrow> event \<Rightarrow> bytes" where
  "put_side_refunded B e =
    put (b_key B) (e_wager e) @ put (b_key B) (e_side e) @ put (b_u64 B) (e_amount e)"

definition get_side_refunded :: "borsh \<Rightarrow> event reader" where
  "get_side_refunded B =
    and_then (get (b_key B)) (\<lambda>wager. and_then (get (b_key B)) (\<lambda>side.
    and_then (get (b_u64 B)) (\<lambda>amount.
    return_read (SideRefunded wager side amount))))"

definition put_side_staked :: "borsh \<Rightarrow> event \<Rightarrow> bytes" where
  "put_side_staked B e =
    put (b_key B) (e_wager e) @ put (b_key B) (e_staker e) @ put (b_bool B) (e_is_side_a e) @
    put (b_u64 B) (e_amount e) @ put (b_bool B) (e_now_active e)"

definition get_side_staked :: "borsh \<Rightarrow> event reader" where
  "get_side_staked B =
    and_then (get (b_key B)) (\<lambda>wager. and_then (get (b_key B)) (\<lambda>staker.
    and_then (get (b_bool B)) (\<lambda>is_side_a. and_then (get (b_u64 B)) (\<lambda>amount.
    and_then (get (b_bool B)) (\<lambda>now_active.
    return_read (SideStaked wager staker is_side_a amount now_active))))))"

definition put_side_unstaked :: "borsh \<Rightarrow> event \<Rightarrow> bytes" where
  "put_side_unstaked B e =
    put (b_key B) (e_wager e) @ put (b_key B) (e_staker e) @ put (b_u64 B) (e_amount e)"

definition get_side_unstaked :: "borsh \<Rightarrow> event reader" where
  "get_side_unstaked B =
    and_then (get (b_key B)) (\<lambda>wager. and_then (get (b_key B)) (\<lambda>staker.
    and_then (get (b_u64 B)) (\<lambda>amount.
    return_read (SideUnstaked wager staker amount))))"

definition put_wager_cancelled :: "borsh \<Rightarrow> event \<Rightarrow> bytes" where
  "put_wager_cancelled B e =
    put (b_key B) (e_wager e)"

definition get_wager_cancelled :: "borsh \<Rightarrow> event reader" where
  "get_wager_cancelled B =
    and_then (get (b_key B)) (\<lambda>wager.
    return_read (WagerCancelled wager))"

definition put_wager_closed :: "borsh \<Rightarrow> event \<Rightarrow> bytes" where
  "put_wager_closed B e =
    put (b_key B) (e_wager e) @ put (b_u64 B) (e_surplus_swept e)"

definition get_wager_closed :: "borsh \<Rightarrow> event reader" where
  "get_wager_closed B =
    and_then (get (b_key B)) (\<lambda>wager. and_then (get (b_u64 B)) (\<lambda>surplus_swept.
    return_read (WagerClosed wager surplus_swept)))"

definition put_wager_conceded :: "borsh \<Rightarrow> event \<Rightarrow> bytes" where
  "put_wager_conceded B e =
    put (b_key B) (e_wager e) @ put (b_key B) (e_conceder e) @ put (b_key B) (e_winner e) @
    put (b_u64 B) (e_payout e) @ put (b_u64 B) (e_fee e)"

definition get_wager_conceded :: "borsh \<Rightarrow> event reader" where
  "get_wager_conceded B =
    and_then (get (b_key B)) (\<lambda>wager. and_then (get (b_key B)) (\<lambda>conceder.
    and_then (get (b_key B)) (\<lambda>winner. and_then (get (b_u64 B)) (\<lambda>payout.
    and_then (get (b_u64 B)) (\<lambda>fee.
    return_read (WagerConceded wager conceder winner payout fee))))))"

definition put_wager_created :: "borsh \<Rightarrow> event \<Rightarrow> bytes" where
  "put_wager_created B e =
    put (b_key B) (e_wager e) @ put (b_key B) (e_side_a e) @ put (b_key B) (e_side_b e) @
    put (b_u64 B) (e_stake e) @ put (b_key B) (e_mint e) @ put (b_key B) (e_resolver e) @
    put (b_hash B) (e_terms_hash e) @ put (b_i64 B) (e_deadline_fund e) @
    put (b_i64 B) (e_deadline_resolve e) @ put (b_u64 B) (e_nonce e)"

definition get_wager_created :: "borsh \<Rightarrow> event reader" where
  "get_wager_created B =
    and_then (get (b_key B)) (\<lambda>wager. and_then (get (b_key B)) (\<lambda>side_a.
    and_then (get (b_key B)) (\<lambda>side_b. and_then (get (b_u64 B)) (\<lambda>stake.
    and_then (get (b_key B)) (\<lambda>mint. and_then (get (b_key B)) (\<lambda>resolver.
    and_then (get (b_hash B)) (\<lambda>terms_hash.
    and_then (get (b_i64 B)) (\<lambda>deadline_fund.
    and_then (get (b_i64 B)) (\<lambda>deadline_resolve.
    and_then (get (b_u64 B)) (\<lambda>nonce.
    return_read (WagerCreated wager side_a side_b stake mint resolver terms_hash deadline_fund
    deadline_resolve nonce)))))))))))"

definition put_wager_resolved :: "borsh \<Rightarrow> event \<Rightarrow> bytes" where
  "put_wager_resolved B e =
    put (b_key B) (e_wager e) @ put (b_key B) (e_winner e) @ put (b_u64 B) (e_payout e) @
    put (b_u64 B) (e_fee e)"

definition get_wager_resolved :: "borsh \<Rightarrow> event reader" where
  "get_wager_resolved B =
    and_then (get (b_key B)) (\<lambda>wager. and_then (get (b_key B)) (\<lambda>winner.
    and_then (get (b_u64 B)) (\<lambda>payout. and_then (get (b_u64 B)) (\<lambda>fee.
    return_read (WagerResolved wager winner payout fee)))))"

fun put_event :: "borsh \<Rightarrow> event \<Rightarrow> bytes" where
  "put_event B (AdminTransferCancelled a) = put_admin_transfer_cancelled B (AdminTransferCancelled a)"
| "put_event B (AdminTransferProposed a) = put_admin_transfer_proposed B (AdminTransferProposed a)"
| "put_event B (AdminTransferred a b) = put_admin_transferred B (AdminTransferred a b)"
| "put_event B (CancelCleared a b) = put_cancel_cleared B (CancelCleared a b)"
| "put_event B (CancelProposed a b) = put_cancel_proposed B (CancelProposed a b)"
| "put_event B (SideRefunded a b c) = put_side_refunded B (SideRefunded a b c)"
| "put_event B (SideStaked a b c d e) = put_side_staked B (SideStaked a b c d e)"
| "put_event B (SideUnstaked a b c) = put_side_unstaked B (SideUnstaked a b c)"
| "put_event B (WagerCancelled a) = put_wager_cancelled B (WagerCancelled a)"
| "put_event B (WagerClosed a b) = put_wager_closed B (WagerClosed a b)"
| "put_event B (WagerConceded a b c d e) = put_wager_conceded B (WagerConceded a b c d e)"
| "put_event B (WagerCreated a b c d e f g h i j) = put_wager_created B (WagerCreated a b c d e f g h i j)"
| "put_event B (WagerResolved a b c d) = put_wager_resolved B (WagerResolved a b c d)"

text \<open>The reader of the type of an event.\<close>

fun get_event_like :: "borsh \<Rightarrow> event \<Rightarrow> event reader" where
  "get_event_like B (AdminTransferCancelled _) = get_admin_transfer_cancelled B"
| "get_event_like B (AdminTransferProposed _) = get_admin_transfer_proposed B"
| "get_event_like B (AdminTransferred _ _) = get_admin_transferred B"
| "get_event_like B (CancelCleared _ _) = get_cancel_cleared B"
| "get_event_like B (CancelProposed _ _) = get_cancel_proposed B"
| "get_event_like B (SideRefunded _ _ _) = get_side_refunded B"
| "get_event_like B (SideStaked _ _ _ _ _) = get_side_staked B"
| "get_event_like B (SideUnstaked _ _ _) = get_side_unstaked B"
| "get_event_like B (WagerCancelled _) = get_wager_cancelled B"
| "get_event_like B (WagerClosed _ _) = get_wager_closed B"
| "get_event_like B (WagerConceded _ _ _ _ _) = get_wager_conceded B"
| "get_event_like B (WagerCreated _ _ _ _ _ _ _ _ _ _) = get_wager_created B"
| "get_event_like B (WagerResolved _ _ _ _) = get_wager_resolved B"

section \<open>What the format promises\<close>

text \<open>
  Every value is read back from what was written, whatever follows; the types of fixed size have
  their width.
\<close>

locale wire_format =
  fixes B :: borsh
  assumes numbers:
      "reads_back (\<lambda>_. True) (b_u8 B)"
      "reads_back (\<lambda>_. True) (b_u16 B)"
      "reads_back (\<lambda>_. True) (b_u64 B)"
      "reads_back (\<lambda>_. True) (b_i64 B)"
    and others:
      "reads_back (\<lambda>_. True) (b_bool B)"
      "reads_back (\<lambda>_. True) (b_key B)"
      "reads_back (\<lambda>_. True) (b_hash B)"
      "reads_back allowlist_fits (b_allowlist B)"
      "reads_back vec_fits (b_keys B)"
    and options:
      "reads_back (\<lambda>_. True) (b_opt_u8 B)"
      "reads_back (\<lambda>_. True) (b_opt_u16 B)"
      "reads_back (\<lambda>_. True) (b_opt_u64 B)"
      "reads_back (\<lambda>_. True) (b_opt_i64 B)"
      "reads_back (\<lambda>_. True) (b_opt_bool B)"
      "reads_back (\<lambda>_. True) (b_opt_key B)"
      "reads_back opt_vec_fits (b_opt_keys B)"
    and widths:
      "has_width (\<lambda>_. True) 1 (b_u8 B)"
      "has_width (\<lambda>_. True) 2 (b_u16 B)"
      "has_width (\<lambda>_. True) 8 (b_u64 B)"
      "has_width (\<lambda>_. True) 8 (b_i64 B)"
      "has_width (\<lambda>_. True) 1 (b_bool B)"
      "has_width (\<lambda>_. True) 32 (b_key B)"
      "has_width (\<lambda>_. True) 32 (b_hash B)"
      "has_width allowlist_fits (32 * RESOLVER_ALLOWLIST_LEN) (b_allowlist B)"
begin

lemma get_put:
  "get (b_u8 B) (put (b_u8 B) x_u8 @ rest) = Some (x_u8, rest)"
  "get (b_u16 B) (put (b_u16 B) x_u16 @ rest) = Some (x_u16, rest)"
  "get (b_u64 B) (put (b_u64 B) x_u64 @ rest) = Some (x_u64, rest)"
  "get (b_i64 B) (put (b_i64 B) x_i64 @ rest) = Some (x_i64, rest)"
  "get (b_bool B) (put (b_bool B) x_bool @ rest) = Some (x_bool, rest)"
  "get (b_key B) (put (b_key B) x_key @ rest) = Some (x_key, rest)"
  "get (b_hash B) (put (b_hash B) x_hash @ rest) = Some (x_hash, rest)"
  "allowlist_fits ks \<Longrightarrow> get (b_allowlist B) (put (b_allowlist B) ks @ rest) = Some (ks, rest)"
  "vec_fits ks \<Longrightarrow> get (b_keys B) (put (b_keys B) ks @ rest) = Some (ks, rest)"
  "get (b_opt_u8 B) (put (b_opt_u8 B) x_opt_u8 @ rest) = Some (x_opt_u8, rest)"
  "get (b_opt_u16 B) (put (b_opt_u16 B) x_opt_u16 @ rest) = Some (x_opt_u16, rest)"
  "get (b_opt_u64 B) (put (b_opt_u64 B) x_opt_u64 @ rest) = Some (x_opt_u64, rest)"
  "get (b_opt_i64 B) (put (b_opt_i64 B) x_opt_i64 @ rest) = Some (x_opt_i64, rest)"
  "get (b_opt_bool B) (put (b_opt_bool B) x_opt_bool @ rest) = Some (x_opt_bool, rest)"
  "get (b_opt_key B) (put (b_opt_key B) x_opt_key @ rest) = Some (x_opt_key, rest)"
  "opt_vec_fits xs \<Longrightarrow> get (b_opt_keys B) (put (b_opt_keys B) xs @ rest) = Some (xs, rest)"
  using numbers others options by (simp_all add: reads_back_def)

lemma put_width:
  "length (put (b_u8 B) x_u8) = 1"
  "length (put (b_u16 B) x_u16) = 2"
  "length (put (b_u64 B) x_u64) = 8"
  "length (put (b_i64 B) x_i64) = 8"
  "length (put (b_bool B) x_bool) = 1"
  "length (put (b_key B) x_key) = 32"
  "length (put (b_hash B) x_hash) = 32"
  "allowlist_fits ks \<Longrightarrow> length (put (b_allowlist B) ks) = 32 * RESOLVER_ALLOWLIST_LEN"
  using widths by (simp_all add: has_width_def)

lemmas read_simps = and_then_def return_read_def get_put

lemma get_put_wager_state: "get_wager_state B (put_wager_state B s @ rest) = Some (s, rest)"
  by (cases s) (simp_all add: get_wager_state_def put_wager_state_def read_simps)

lemma put_wager_state_width: "length (put_wager_state B s) = 1"
  by (simp add: put_wager_state_def put_width)

lemma get_put_config:
  "allowlist_fits (c_resolver_allowlist c) \<Longrightarrow>
    get_config B (put_config B c @ rest) = Some (c, rest)"
  by (simp add: get_config_def put_config_def read_simps)

lemma get_put_wager: "get_wager B (put_wager B w @ rest) = Some (w, rest)"
  by (simp add: get_wager_def put_wager_def read_simps get_put_wager_state)

lemma get_put_admin_transfer:
  "get_admin_transfer B (put_admin_transfer B a @ rest) = Some (a, rest)"
  by (simp add: get_admin_transfer_def put_admin_transfer_def read_simps)

lemma get_put_exposure_counter:
  "get_exposure_counter B (put_exposure_counter B x @ rest) = Some (x, rest)"
  by (simp add: get_exposure_counter_def put_exposure_counter_def read_simps)

lemma put_config_width:
  "allowlist_fits (c_resolver_allowlist c) \<Longrightarrow> length (put_config B c) = CONFIG_INIT_SPACE"
  by (simp add: put_config_def put_width CONFIG_INIT_SPACE_def)

lemma put_wager_width: "length (put_wager B w) = WAGER_INIT_SPACE"
  by (simp add: put_wager_def put_width put_wager_state_width WAGER_INIT_SPACE_def)

lemma account_reads_back:
  "account_fits d \<Longrightarrow> get_account_like B d (put_account B d @ rest) = Some (d, rest)"
  by (cases d) (simp_all add: and_then_def return_read_def get_put_config get_put_wager
      get_put_admin_transfer get_put_exposure_counter)

lemma account_width: "account_fits d \<Longrightarrow> length (put_account B d) = account_space d"
  by (cases d) (simp_all add: put_config_width put_wager_width put_admin_transfer_def
      put_exposure_counter_def put_width ADMIN_TRANSFER_INIT_SPACE_def COUNTER_INIT_SPACE_def)

lemma get_put_create_wager_args:
  "get_create_wager_args B (put_create_wager_args B c @ rest) = Some (c, rest)"
  by (simp add: get_create_wager_args_def put_create_wager_args_def read_simps)

lemma get_put_initialize_config_args:
  "vec_fits (ia_resolvers i) \<Longrightarrow>
    get_initialize_config_args B (put_initialize_config_args B i @ rest) = Some (i, rest)"
  by (simp add: get_initialize_config_args_def put_initialize_config_args_def read_simps)

lemma get_put_update_config_args:
  "opt_vec_fits (ua_resolvers u) \<Longrightarrow>
    get_update_config_args B (put_update_config_args B u @ rest) = Some (u, rest)"
  by (simp add: get_update_config_args_def put_update_config_args_def read_simps)

lemma event_reads_back: "get_event_like B e (put_event B e @ rest) = Some (e, rest)"
  by (cases e) (simp_all add: read_simps
      get_admin_transfer_cancelled_def put_admin_transfer_cancelled_def
      get_admin_transfer_proposed_def put_admin_transfer_proposed_def
      get_admin_transferred_def put_admin_transferred_def
      get_cancel_cleared_def put_cancel_cleared_def
      get_cancel_proposed_def put_cancel_proposed_def
      get_side_refunded_def put_side_refunded_def get_side_staked_def put_side_staked_def
      get_side_unstaked_def put_side_unstaked_def
      get_wager_cancelled_def put_wager_cancelled_def get_wager_closed_def put_wager_closed_def
      get_wager_conceded_def put_wager_conceded_def get_wager_created_def put_wager_created_def
      get_wager_resolved_def put_wager_resolved_def)

end

end
