(* ===== verification/Client.thy ===== *)
theory Client
  imports Wire
begin

text \<open>
  What the instruction builders of the client (\<^verbatim>\<open>types.rs\<close>) have in common: account metas, the builder,
  the addresses written as literals, and the instruction that is sent. The structs of every
  instruction have the same shape, \<^verbatim>\<open>accounts\<close>, \<^verbatim>\<open>data\<close> and \<^verbatim>\<open>remaining_accounts\<close>: they are one record over the
  types of the first two. The theories \<open>Client_Admin\<close> and \<open>Client_Wager\<close> hold the builders.
\<close>

section \<open>Account metas\<close>

text \<open>
  \<^verbatim>\<open>AccountMeta::new(key, signer)\<close> asks for a writable account, \<^verbatim>\<open>AccountMeta::new_readonly\<close> for a
  read-only one.
\<close>

record account_meta =
  am_key :: pubkey
  am_signer :: bool
  am_writable :: bool

definition meta_new :: "pubkey \<Rightarrow> bool \<Rightarrow> account_meta" where
  "meta_new k s = \<lparr>am_key = k, am_signer = s, am_writable = True\<rparr>"

definition meta_new_readonly :: "pubkey \<Rightarrow> bool \<Rightarrow> account_meta" where
  "meta_new_readonly k s = \<lparr>am_key = k, am_signer = s, am_writable = False\<rparr>"

definition meta_default :: account_meta where
  "meta_default = \<lparr>am_key = default_key, am_signer = False, am_writable = False\<rparr>"

lemma meta_simps [simp]:
  "am_key (meta_new k s) = k" "am_signer (meta_new k s) = s" "am_writable (meta_new k s)"
  "am_key (meta_new_readonly k s) = k" "am_signer (meta_new_readonly k s) = s"
  "\<not> am_writable (meta_new_readonly k s)"
  by (simp_all add: meta_new_def meta_new_readonly_def)

section \<open>Addresses\<close>

text \<open>\<^verbatim>\<open>pubkey!("...")\<close>: an address in base 58.\<close>

definition base58_alphabet :: string where
  "base58_alphabet = ''123456789ABCDEFGHJKLMNPQRSTUVWXYZabcdefghijkmnopqrstuvwxyz''"

definition base58_digit :: "char \<Rightarrow> nat" where
  "base58_digit c = length (takeWhile (\<lambda>d. d \<noteq> c) base58_alphabet)"

definition pubkey_literal :: "string \<Rightarrow> pubkey" where
  "pubkey_literal s = foldl (\<lambda>n c. 58 * n + of_nat (base58_digit c)) 0 s"

definition PROGRAM_ID :: pubkey where
  "PROGRAM_ID = pubkey_literal ''Hv4f6R9GgZ9nvK8HvA3KYwxPTrmiqyiE9KFvrENjgD67''"

definition TOKEN_PROGRAM_ID :: pubkey where
  "TOKEN_PROGRAM_ID = pubkey_literal ''TokenkegQfeZyiNwAJbNbGKPFXCWuBvf9Ss623VQ5DA''"

definition ASSOCIATED_TOKEN_PROGRAM_ID :: pubkey where
  "ASSOCIATED_TOKEN_PROGRAM_ID =
    pubkey_literal ''ATokenGPvbdGVxr1b2hvZbsiqW5xWH25efTNsLJA8knL''"

definition SYSTEM_PROGRAM_ID :: pubkey where
  "SYSTEM_PROGRAM_ID = pubkey_literal ''11111111111111111111111111111111''"

section \<open>The builder\<close>

record ('m, 'd) builder =
  i_accounts :: 'm
  i_data :: 'd
  i_remaining :: "account_meta list"

definition with_remaining :: "('m, 'd) builder \<Rightarrow> account_meta list \<Rightarrow> ('m, 'd) builder" where
  "with_remaining i r = i\<lparr>i_remaining := r\<rparr>"

text \<open>\<^verbatim>\<open>Instruction::new_with_bytes(program_id, data, accounts)\<close>.\<close>

record wire_instruction =
  ix_program :: pubkey
  ix_accounts :: "account_meta list"
  ix_data :: bytes

named_theorems built_metas \<open>the account metas a finished builder sends\<close>
named_theorems built_data \<open>the data a finished builder holds\<close>

end
