(* ===== verification/Reference_Runtime.thy ===== *)
theory Reference_Runtime
  imports Program Client
begin

text \<open>
  A concrete runtime that meets the documented behaviour of the locale \<open>chain\<close>, simple enough
  to evaluate: addresses are a polynomial of the seeds, and even; the token
  program is a direct transcription of its rules; the programs are at the addresses the client
  names. It shows that the assumptions of the
  development are satisfiable, and the concrete transactions of the theory \<open>Scenario\<close> run on it.
\<close>

definition ref_hash :: "bytes \<Rightarrow> pubkey" where
  "ref_hash bs = foldl (\<lambda>h b. 2 * h + ucast b + 1) 0 bs"

definition ref_pda :: "bytes list \<Rightarrow> pubkey" where
  "ref_pda s = 2 * ref_hash (concat s)"

definition ref_create_pda :: "bytes list \<Rightarrow> pubkey option" where
  "ref_create_pda s = (if s \<noteq> [] \<and> last s = [255] then Some (ref_pda (butlast s)) else None)"

definition ref_ata :: "pubkey \<Rightarrow> pubkey \<Rightarrow> pubkey" where
  "ref_ata wallet m = 1024 * wallet + m"

definition ref_native_mint :: pubkey where
  "ref_native_mint = 99"

definition ref_transfer :: "pubkey \<Rightarrow> pubkey \<Rightarrow> pubkey \<Rightarrow> u64 \<Rightarrow> ledger \<Rightarrow> nat + ledger" where
  "ref_transfer f t a n L =
    (case (tokens L f, tokens L t) of
       (Some sf, Some st) \<Rightarrow>
         require (\<not> t_frozen sf \<and> \<not> t_frozen st) 17
         (require (n \<le> t_amount sf) 1
         (require (t_mint sf = t_mint st) 3
         (require (t_owner sf = a) 4
         (require (f \<noteq> t \<longrightarrow> unat (t_amount st) + unat n < 2 ^ 64) 14
           (Inr (L\<lparr>tokens := move_tokens f t n (tokens L),
             lamports := (if t_mint sf = ref_native_mint
               then (lamports L)(f := lamports L f - unat n, t := lamports L t + unat n)
               else lamports L)\<rparr>))))))
     | _ \<Rightarrow> Inl 2)"

definition ref_close :: "pubkey \<Rightarrow> pubkey \<Rightarrow> pubkey \<Rightarrow> ledger \<Rightarrow> nat + ledger" where
  "ref_close k d a L =
    (case tokens L k of
       None \<Rightarrow> Inl 2
     | Some v \<Rightarrow>
         require (d \<noteq> k) 2
         (require (t_amount v = 0 \<or> t_mint v = ref_native_mint) 11
         (require ((case t_close_authority v of None \<Rightarrow> t_owner v | Some c \<Rightarrow> c) = a) 4
           (Inr (L\<lparr>tokens := (tokens L)(k := None),
             lamports := drain_lamports k d (lamports L)\<rparr>)))))"

text \<open>The rent exemption of \<open>n\<close> bytes of data.\<close>

definition ref_rent :: "nat \<Rightarrow> nat" where
  "ref_rent n = (128 + n) * 6960"

definition ref_create_account :: "pubkey \<Rightarrow> pubkey \<Rightarrow> nat \<Rightarrow> ledger \<Rightarrow> nat + ledger" where
  "ref_create_account p k n L =
    require (tokens L k = None) 0
    (require (ref_rent n \<le> lamports L p) 1
      (Inr (L\<lparr>lamports := (lamports L)
        (p := lamports L p - ref_rent n, k := lamports L k + ref_rent n)\<rparr>)))"

definition ref_create_ata :: "pubkey \<Rightarrow> pubkey \<Rightarrow> pubkey \<Rightarrow> ledger \<Rightarrow> nat + ledger" where
  "ref_create_ata p wallet m L =
    (let k = ref_ata wallet m in
     require (tokens L k = None) 0
     (require (m \<in> mints L) 2
     (require (ref_rent 165 \<le> lamports L p) 1
       (Inr (L\<lparr>tokens := (tokens L)(k \<mapsto>
          \<lparr>t_owner = wallet, t_mint = m, t_amount = 0, t_frozen = False,
            t_close_authority = None\<rparr>),
          lamports := (lamports L)
            (p := lamports L p - ref_rent 165, k := lamports L k + ref_rent 165)\<rparr>)))))"

definition ref_env :: env where
  "ref_env =
    \<lparr>create_pda = ref_create_pda,
     find_pda = (\<lambda>s. (ref_pda s, 255)),
     ata_address = ref_ata,
     spl_transfer = ref_transfer,
     spl_close_account = ref_close,
     create_account = ref_create_account,
     create_ata = ref_create_ata,
     mut_guard = distinct,
     program_id = PROGRAM_ID,
     token_program_id = TOKEN_PROGRAM_ID,
     ata_program_id = ASSOCIATED_TOKEN_PROGRAM_ID,
     system_program_id = SYSTEM_PROGRAM_ID,
     native_mint = ref_native_mint,
     programdata_address = Some 1005\<rparr>"

lemma ref_env_simps [simp]:
  "create_pda ref_env = ref_create_pda"
  "find_pda ref_env s = (ref_pda s, 255)"
  "ata_address ref_env = ref_ata"
  "spl_transfer ref_env = ref_transfer"
  "spl_close_account ref_env = ref_close"
  "create_account ref_env = ref_create_account"
  "create_ata ref_env = ref_create_ata"
  "mut_guard ref_env = distinct"
  "native_mint ref_env = ref_native_mint"
  by (simp_all add: ref_env_def)

lemma ref_transfer_Inr:
  "ref_transfer f t a n L = Inr L' \<longleftrightarrow>
    (\<exists>sf st. tokens L f = Some sf \<and> tokens L t = Some st \<and> \<not> t_frozen sf \<and> \<not> t_frozen st \<and>
      n \<le> t_amount sf \<and> t_mint sf = t_mint st \<and> t_owner sf = a \<and>
      (f \<noteq> t \<longrightarrow> unat (t_amount st) + unat n < 2 ^ 64) \<and>
      L' = L\<lparr>tokens := move_tokens f t n (tokens L),
        lamports := (if t_mint sf = ref_native_mint
          then (lamports L)(f := lamports L f - unat n, t := lamports L t + unat n)
          else lamports L)\<rparr>)"
  by (auto simp: ref_transfer_def require_Inr split: option.splits)

lemma ref_close_Inr:
  "ref_close k d a L = Inr L' \<longleftrightarrow>
    (\<exists>v. tokens L k = Some v \<and> d \<noteq> k \<and> (t_amount v = 0 \<or> t_mint v = ref_native_mint) \<and>
      (case t_close_authority v of None \<Rightarrow> t_owner v | Some c \<Rightarrow> c) = a \<and>
      L' = L\<lparr>tokens := (tokens L)(k := None), lamports := drain_lamports k d (lamports L)\<rparr>)"
  by (auto simp: ref_close_def require_Inr split: option.splits)

lemma ref_find_create: "ref_create_pda (s @ [[255]]) = Some (ref_pda s)"
  by (simp add: ref_create_pda_def)

interpretation ref: chain ref_env
proof
  fix s s' and k :: pubkey and b :: u8
  show "find_pda ref_env s = (k, b) \<Longrightarrow> create_pda ref_env (s @ [[b]]) = Some k"
    using ref_find_create by auto
  show "create_pda ref_env (counter_seeds x @ [[snd (find_pda ref_env (counter_seeds y))]]) =
      Some (counter_key ref_env y) \<Longrightarrow> counter_key ref_env x = counter_key ref_env y" for x y
    by (simp add: ref_find_create counter_key_def)
  show "snd (find_pda ref_env (counter_seeds x)) = snd (find_pda ref_env (counter_seeds y))" for x y
    by simp
next
  fix f t a n L L'
  show "spl_transfer ref_env f t a n L = Inr L' \<Longrightarrow>
      \<exists>sf st. tokens L f = Some sf \<and> tokens L t = Some st \<and> t_mint sf = t_mint st \<and>
        n \<le> t_amount sf \<and> (f \<noteq> t \<longrightarrow> unat (t_amount st) + unat n < 2 ^ 64) \<and>
        tokens L' = move_tokens f t n (tokens L) \<and> mints L' = mints L"
    unfolding ref_env_simps ref_transfer_Inr by (elim exE conjE) simp
  show "spl_transfer ref_env f t a n L = Inr L' \<Longrightarrow> tokens L f = Some sf \<Longrightarrow>
      t_mint sf \<noteq> native_mint ref_env \<Longrightarrow> lamports L' = lamports L" for sf
    unfolding ref_env_simps ref_transfer_Inr by (elim exE conjE) simp
  show "spl_transfer ref_env f t a n L = Inr L' \<Longrightarrow> x \<noteq> f \<Longrightarrow> x \<noteq> t \<Longrightarrow>
      lamports L' x = lamports L x" for x
    unfolding ref_env_simps ref_transfer_Inr by (elim exE conjE) simp
  show "tokens L f = Some sf \<Longrightarrow> tokens L t = Some st \<Longrightarrow> t_owner sf = a \<Longrightarrow>
      t_mint sf = t_mint st \<Longrightarrow> \<not> t_frozen sf \<Longrightarrow> \<not> t_frozen st \<Longrightarrow> n \<le> t_amount sf \<Longrightarrow>
      f \<noteq> t \<Longrightarrow> unat (t_amount st) + unat n < 2 ^ 64 \<Longrightarrow>
      \<exists>L'. spl_transfer ref_env f t a n L = Inr L'" for sf st
    by (simp add: ref_transfer_Inr)
next
  fix k d a L L' v
  show "spl_close_account ref_env k d a L = Inr L' \<Longrightarrow>
      \<exists>v. tokens L k = Some v \<and> (t_amount v = 0 \<or> t_mint v = native_mint ref_env) \<and> d \<noteq> k \<and>
        tokens L' = (tokens L)(k := None) \<and> mints L' = mints L \<and>
        lamports L' = drain_lamports k d (lamports L)"
    unfolding ref_env_simps ref_close_Inr by (elim exE conjE) simp
  show "tokens L k = Some v \<Longrightarrow> t_owner v = a \<Longrightarrow> t_close_authority v = None \<Longrightarrow>
      t_amount v = 0 \<Longrightarrow> \<not> t_frozen v \<Longrightarrow> d \<noteq> k \<Longrightarrow>
      \<exists>L'. spl_close_account ref_env k d a L = Inr L'"
    by (simp add: ref_close_Inr)
next
  fix p k n L L' wallet m
  show "create_account ref_env p k n L = Inr L' \<Longrightarrow>
      tokens L k = None \<and> tokens L' = tokens L \<and> mints L' = mints L \<and>
      (\<forall>x. x \<noteq> p \<and> x \<noteq> k \<longrightarrow> lamports L' x = lamports L x)"
    by (auto simp: ref_create_account_def require_Inr)
  show "create_ata ref_env p wallet m L = Inr L' \<Longrightarrow>
      tokens L (ata_address ref_env wallet m) = None \<and>
      (\<exists>v. t_owner v = wallet \<and> t_mint v = m \<and> t_close_authority v = None \<and>
        (m \<noteq> native_mint ref_env \<longrightarrow> t_amount v = 0) \<and>
        tokens L' = (tokens L)(ata_address ref_env wallet m \<mapsto> v)) \<and> mints L' = mints L \<and>
      (\<forall>x. x \<noteq> p \<and> x \<noteq> ata_address ref_env wallet m \<longrightarrow> lamports L' x = lamports L x)"
    unfolding ref_env_simps ref_create_ata_def Let_def require_Inr
    by (elim conjE, drule sym [of "Inr _"])
      (intro conjI exI [of _ "\<lparr>t_owner = wallet, t_mint = m, t_amount = 0, t_frozen = False,
        t_close_authority = None\<rparr>"]; simp)
qed simp

text \<open>An odd key is not an address of the program.\<close>

lemma ref_is_pda: "is_pda ref_env k \<Longrightarrow> even k"
  by (auto simp: is_pda_def ref_create_pda_def ref_pda_def split: if_splits)

end
