(* ===== verification/Scenario.thy ===== *)
theory Scenario
  imports Reference_Runtime
begin

text \<open>
  Concrete transactions on the reference runtime: a configuration, one wager of 300 between
  two wallets with 1000 tokens each, and the worlds along its life. The worlds are computed
  from an empty chain, so each is reachable; the witnesses of the properties evaluate the
  program on them.
\<close>

section \<open>The participants\<close>

definition admin :: pubkey where "admin = 1"
definition alice :: pubkey where "alice = 3"
definition bob :: pubkey where "bob = 5"
definition judge :: pubkey where "judge = 7"
definition treasury :: pubkey where "treasury = 9"
definition collector :: pubkey where "collector = 11"
definition usd :: pubkey where "usd = 15"
definition anyone :: pubkey where "anyone = 13"
definition usd_of :: "pubkey \<Rightarrow> pubkey" where "usd_of wallet = ref_ata wallet usd"

definition people :: "pubkey set" where
  "people = {admin, alice, bob, judge, anyone}"

definition purse :: "pubkey \<Rightarrow> u64 \<Rightarrow> token_account" where
  "purse wallet n = \<lparr>t_owner = wallet, t_mint = usd, t_amount = n, t_frozen = False,
    t_close_authority = None\<rparr>"

definition house :: "u64 \<Rightarrow> config" where
  "house open_value =
    \<lparr>c_admin = admin, c_mint = usd, c_fee_bps = 250, c_fee_destination = usd_of treasury,
     c_rent_collector = collector, c_min_stake = 100, c_max_stake = 500,
     c_max_open_per_wallet = 2, c_resolver_allowlist = [judge, default_key, default_key, default_key],
     c_resolver_count = 1, c_paused = False, c_max_window = 100, c_max_total_open = 1000,
     c_total_open_value = open_value, c_bump = 255\<rparr>"

definition bet :: wager where
  "bet =
    \<lparr>w_state = Funding, w_side_a = alice, w_side_b = bob, w_stake = 300, w_mint = usd,
     w_funded_a = False, w_funded_b = False, w_refunded_a = False, w_refunded_b = False,
     w_resolver = judge, w_terms_hash = 77, w_deadline_fund = 1050, w_deadline_resolve = 1100,
     w_fee_bps = 250, w_fee_destination = usd_of treasury, w_rent_collector = collector,
     w_nonce = 1, w_cancel_proposed_by = default_key, w_bump = 255\<rparr>"

definition locked_bet :: wager where
  "locked_bet = bet\<lparr>w_state := Active, w_funded_a := True, w_funded_b := True\<rparr>"

definition one :: "u8 \<Rightarrow> exposure_counter" where
  "one n = \<lparr>x_count = n, x_bump = 255\<rparr>"

section \<open>The calls\<close>

definition wager1 :: pubkey where
  "wager1 = ref_pda (wager_seeds alice 1)"

definition vault1 :: pubkey where
  "vault1 = usd_of wager1"

definition config1 :: pubkey where
  "config1 = ref_pda config_seeds"

definition offer1 :: pubkey where
  "offer1 = ref_pda admin_transfer_seeds"

definition counter_of :: "pubkey \<Rightarrow> pubkey" where
  "counter_of wallet = ref_pda (counter_seeds wallet)"

definition initialize_call :: call where
  "initialize_call = Initialize_Config
    \<lparr>ic_authority = admin, ic_config = config1, ic_program = PROGRAM_ID, ic_program_data = 1005,
     ic_system_program = SYSTEM_PROGRAM_ID\<rparr>
    \<lparr>ia_mint = usd, ia_fee_bps = 250, ia_fee_destination = usd_of treasury,
     ia_rent_collector = collector, ia_min_stake = 100, ia_max_stake = 500,
     ia_max_open_per_wallet = 2, ia_resolvers = [judge], ia_max_window = 100,
     ia_max_total_open = 1000\<rparr>"

definition create_call :: call where
  "create_call = Create_Wager
    \<lparr>cw_payer = alice, cw_config = config1, cw_wager = wager1, cw_mint = usd, cw_vault = vault1,
     cw_token_program = TOKEN_PROGRAM_ID,
     cw_associated_token_program = ASSOCIATED_TOKEN_PROGRAM_ID,
     cw_system_program = SYSTEM_PROGRAM_ID\<rparr>
    \<lparr>ca_nonce = 1, ca_side_a = alice, ca_side_b = bob, ca_stake = 300, ca_terms_hash = 77,
     ca_deadline_fund = 1050, ca_deadline_resolve = 1100, ca_resolver = judge\<rparr>"

definition stake_args :: "pubkey \<Rightarrow> stake_side_accounts" where
  "stake_args s =
    \<lparr>ss_staker = s, ss_payer = s, ss_config = config1, ss_wager = wager1,
     ss_counter = counter_of s, ss_staker_token = usd_of s, ss_vault = vault1,
     ss_token_program = TOKEN_PROGRAM_ID, ss_system_program = SYSTEM_PROGRAM_ID\<rparr>"

definition stake_call :: "pubkey \<Rightarrow> call" where
  "stake_call s = Stake_Side (stake_args s)"

definition cancel_propose_call :: "pubkey \<Rightarrow> call" where
  "cancel_propose_call s = Cancel_Propose \<lparr>cp_participant = s, cp_wager = wager1\<rparr>"

definition refund_args :: "pubkey \<Rightarrow> refund_side_accounts" where
  "refund_args s =
    \<lparr>rf_cranker = anyone, rf_config = config1, rf_wager = wager1, rf_side = s,
     rf_side_token = usd_of s, rf_counter = counter_of s, rf_vault = vault1,
     rf_token_program = TOKEN_PROGRAM_ID\<rparr>"

definition resolve_args :: "pubkey \<Rightarrow> resolve_accounts" where
  "resolve_args s =
    \<lparr>rs_resolver = judge, rs_config = config1, rs_wager = wager1, rs_winner = s,
     rs_winner_token = usd_of s, rs_fee_token = usd_of treasury, rs_vault = vault1,
     rs_counter_a = counter_of alice, rs_counter_b = counter_of bob,
     rs_rent_collector = collector, rs_token_program = TOKEN_PROGRAM_ID\<rparr>"

definition concede_args :: concede_accounts where
  "concede_args =
    \<lparr>cc_conceder = alice, cc_config = config1, cc_wager = wager1, cc_winner = bob,
     cc_winner_token = usd_of bob, cc_fee_token = usd_of treasury, cc_vault = vault1,
     cc_counter_a = counter_of alice, cc_counter_b = counter_of bob,
     cc_rent_collector = collector, cc_token_program = TOKEN_PROGRAM_ID\<rparr>"

definition accept_args :: cancel_accept_accounts where
  "accept_args =
    \<lparr>ac_acceptor = bob, ac_config = config1, ac_wager = wager1, ac_side_a = alice,
     ac_side_b = bob, ac_side_a_token = usd_of alice, ac_side_b_token = usd_of bob,
     ac_counter_a = counter_of alice, ac_counter_b = counter_of bob,
     ac_fee_token = usd_of treasury, ac_vault = vault1, ac_rent_collector = collector,
     ac_token_program = TOKEN_PROGRAM_ID\<rparr>"

definition unstake_args :: unstake_side_accounts where
  "unstake_args =
    \<lparr>us_staker = alice, us_config = config1, us_wager = wager1, us_counter = counter_of alice,
     us_staker_token = usd_of alice, us_vault = vault1, us_token_program = TOKEN_PROGRAM_ID\<rparr>"

definition close_args :: close_expired_accounts where
  "close_args =
    \<lparr>ce_cranker = anyone, ce_wager = wager1, ce_vault = vault1, ce_fee_token = None,
     ce_rent_collector = collector, ce_token_program = TOKEN_PROGRAM_ID\<rparr>"

definition accept_admin_args :: accept_admin_accounts where
  "accept_admin_args =
    \<lparr>aa_new_admin = bob, aa_config = config1, aa_admin_transfer = offer1,
     aa_previous_admin = admin\<rparr>"

definition update_accounts :: update_config_accounts where
  "update_accounts = \<lparr>uc_admin = admin, uc_config = config1\<rparr>"

text \<open>A higher fee, another fee destination, a pause.\<close>

definition update_args :: update_config_args where
  "update_args =
    \<lparr>ua_fee_bps = Some 1000, ua_fee_destination = Some (usd_of collector),
     ua_rent_collector = None, ua_min_stake = None, ua_max_stake = None,
     ua_max_open_per_wallet = None, ua_resolvers = Some [judge, anyone], ua_paused = Some True,
     ua_max_window = None, ua_max_total_open = None\<rparr>"

definition offer_call :: call where
  "offer_call = Propose_Admin
    \<lparr>pa_admin = admin, pa_config = config1, pa_admin_transfer = offer1,
      pa_system_program = SYSTEM_PROGRAM_ID\<rparr>
    bob"

section \<open>The worlds\<close>

text \<open>Lamports after paying the rent of an account of \<open>n\<close> bytes.\<close>

definition rent_paid :: "pubkey \<Rightarrow> pubkey \<Rightarrow> nat \<Rightarrow> (pubkey \<Rightarrow> nat) \<Rightarrow> pubkey \<Rightarrow> nat" where
  "rent_paid p k n f = f(p := f p - ref_rent n, k := f k + ref_rent n)"

definition world0 :: world where
  "world0 =
    \<lparr>accts = (\<lambda>_. None),
     ledger =
       \<lparr>tokens = (\<lambda>_. None)(usd_of alice \<mapsto> purse alice 1000, usd_of bob \<mapsto> purse bob 1000,
          usd_of treasury \<mapsto> purse treasury 50),
        lamports = (\<lambda>_. 10000000000), mints = {usd}\<rparr>,
     clock = 1000,
     program_data = (\<lambda>k. if k = 1005 then Some (Some admin) else None),
     events = []\<rparr>"

definition world_ready :: world where
  "world_ready = world0\<lparr>
     ledger := (ledger world0)\<lparr>lamports := rent_paid admin config1 (8 + CONFIG_INIT_SPACE)
       (lamports (ledger world0))\<rparr>,
     accts := (accts world0)(config1 \<mapsto> ConfigAcc (house 0))\<rparr>"

definition world_open :: world where
  "world_open = world_ready\<lparr>
     ledger := (ledger world_ready)\<lparr>
       tokens := (tokens (ledger world_ready))(vault1 \<mapsto> purse wager1 0),
       lamports := rent_paid alice vault1 165 (rent_paid alice wager1 (8 + WAGER_INIT_SPACE)
         (lamports (ledger world_ready)))\<rparr>,
     events := events world_ready @ [WagerCreated wager1 alice bob 300 usd judge 77 1050 1100 1],
     accts := (accts world_ready)(wager1 \<mapsto> WagerAcc bet)\<rparr>"

text \<open>Alice has staked; then Bob has too.\<close>

definition world_half :: world where
  "world_half = world_open\<lparr>
     ledger := (ledger world_open)\<lparr>
       tokens := (tokens (ledger world_open))(usd_of alice \<mapsto> purse alice 700,
         vault1 \<mapsto> purse wager1 300),
       lamports := rent_paid alice (counter_of alice) (8 + COUNTER_INIT_SPACE)
         (lamports (ledger world_open))\<rparr>,
     events := events world_open @ [SideStaked wager1 alice True 300 False],
     accts := (accts world_open)(config1 \<mapsto> ConfigAcc (house 300),
       wager1 \<mapsto> WagerAcc (bet\<lparr>w_funded_a := True\<rparr>), counter_of alice \<mapsto> CounterAcc (one 1))\<rparr>"

definition world_locked :: world where
  "world_locked = world_half\<lparr>
     ledger := (ledger world_half)\<lparr>
       tokens := (tokens (ledger world_half))(usd_of bob \<mapsto> purse bob 700,
         vault1 \<mapsto> purse wager1 600),
       lamports := rent_paid bob (counter_of bob) (8 + COUNTER_INIT_SPACE)
         (lamports (ledger world_half))\<rparr>,
     events := events world_half @ [SideStaked wager1 bob False 300 True],
     accts := (accts world_half)(config1 \<mapsto> ConfigAcc (house 600), wager1 \<mapsto> WagerAcc locked_bet,
       counter_of bob \<mapsto> CounterAcc (one 1))\<rparr>"

text \<open>Alice proposes to cancel the locked wager.\<close>

definition world_proposed :: world where
  "world_proposed = world_locked\<lparr>
     events := events world_locked @ [CancelProposed wager1 alice],
     accts := (accts world_locked)(wager1 \<mapsto>
       WagerAcc (locked_bet\<lparr>w_cancel_proposed_by := alice\<rparr>))\<rparr>"

text \<open>Past the deadlines: of the half-funded wager, and of the locked one.\<close>

definition world_stale :: world where
  "world_stale = world_half\<lparr>clock := 1060\<rparr>"

definition world_expired :: world where
  "world_expired = world_locked\<lparr>clock := 1200\<rparr>"

text \<open>The locked wager expired; Alice got her stake back, then Bob.\<close>

definition world_back1 :: world where
  "world_back1 = world_expired\<lparr>
     ledger := (ledger world_expired)\<lparr>
       tokens := (tokens (ledger world_expired))(vault1 \<mapsto> purse wager1 300,
         usd_of alice \<mapsto> purse alice 1000)\<rparr>,
     events := events world_expired @ [SideRefunded wager1 alice 300],
     accts := (accts world_expired)(config1 \<mapsto> ConfigAcc (house 300),
       wager1 \<mapsto> WagerAcc (locked_bet\<lparr>w_refunded_a := True\<rparr>),
       counter_of alice \<mapsto> CounterAcc (one 0))\<rparr>"

definition world_back2 :: world where
  "world_back2 = world_back1\<lparr>
     ledger := (ledger world_back1)\<lparr>
       tokens := (tokens (ledger world_back1))(vault1 \<mapsto> purse wager1 0,
         usd_of bob \<mapsto> purse bob 1000)\<rparr>,
     events := events world_back1 @ [SideRefunded wager1 bob 300],
     accts := (accts world_back1)(config1 \<mapsto> ConfigAcc (house 0),
       wager1 \<mapsto> WagerAcc (locked_bet\<lparr>w_refunded_a := True, w_refunded_b := True\<rparr>),
       counter_of bob \<mapsto> CounterAcc (one 0))\<rparr>"

text \<open>The admin has offered the role to Bob.\<close>

definition world_offer :: world where
  "world_offer = world_ready\<lparr>
     ledger := (ledger world_ready)\<lparr>lamports := rent_paid admin offer1
       (8 + ADMIN_TRANSFER_INIT_SPACE) (lamports (ledger world_ready))\<rparr>,
     events := events world_ready @ [AdminTransferProposed bob],
     accts := (accts world_ready)(offer1 \<mapsto> TransferAcc \<lparr>at_proposed = bob, at_bump = 255\<rparr>)\<rparr>"

section \<open>Evaluation\<close>

lemmas names = admin_def alice_def bob_def judge_def treasury_def collector_def usd_def anyone_def

lemma upto_32:
  "[0..<32] = [0,1,2,3,4,5,6,7,8,9,10,11,12,13,14,15,16,17,18,19,20,21,22,23,24,25,26,27,28,29,30,31]"
  by (simp add: upt_rec)

lemma upto_8: "[0..<8] = [0,1,2,3,4,5,6,7]"
  by (simp add: upt_rec)

lemma pdas:
  "ref_pda config_seeds = 13216"
  "ref_pda (wager_seeds 3 1) = 7564639999100670"
  "ref_pda (counter_seeds 3) = 116376433852420"
  "ref_pda (counter_seeds 5) = 116376433852424"
  "ref_pda admin_transfer_seeds = 3321302"
  by (simp_all add: config_seeds_def CONFIG_SEED_def wager_seeds_def
      WAGER_SEED_def counter_seeds_def COUNTER_SEED_def ref_pda_def ref_hash_def
      admin_transfer_seeds_def ADMIN_TRANSFER_SEED_def
      byte_string_def key_bytes_def upto_32 to_le_bytes_def upto_8)

lemma four_times: "replicate 4 x = [x, x, x, x]"
  by (simp add: numeral_eq_Suc)

text \<open>The rules that evaluate an instruction of the scenario.\<close>

lemmas evaluate = pdas names ref_find_create wager1_def config1_def counter_of_def vault1_def usd_of_def
  ref_ata_def people_def purse_def signer_seeds_def pda_at_def
  put_acct_def emit_cpi_def close_acct_def drain_lamports_def
  house_def bet_def locked_bet_def one_def rent_paid_def offer1_def
  ref_transfer_def ref_close_def ref_create_account_def ref_create_ata_def ref_rent_def
  ref_native_mint_def load_config_def load_wager_def load_counter_def load_token_def load_transfer_def
  check_ata_def init_account_def init_if_needed_counter_def init_if_needed_ata_def
  init_if_needed_transfer_def transfer_with_seeds_def close_with_seeds_def transfer_signed_def
  checked_add_def checked_sub_def saturating_sub_def saturating_mul_def signed_sub_def
  word_sless_alt word_sle_eq four_times

lemma programs [simp]: "program_id ref_env = PROGRAM_ID" "token_program_id ref_env = TOKEN_PROGRAM_ID"
  "ata_program_id ref_env = ASSOCIATED_TOKEN_PROGRAM_ID" "system_program_id ref_env = SYSTEM_PROGRAM_ID"
  "programdata_address ref_env = Some 1005"
  by (simp_all add: ref_env_def)


lemmas handlers =
  handle_initialize_config_def validate_initialize_config_def validate_config_values_def
  MAX_FEE_BPS_def RESOLVER_ALLOWLIST_LEN_def MAX_WINDOW_CAP_def CONFIG_INIT_SPACE_def
  handle_create_wager_def validate_create_wager_def windows_ok_def resolver_allowed_def
  allowlist_slice_def WAGER_INIT_SPACE_def handle_stake_side_def validate_stake_side_def
  COUNTER_INIT_SPACE_def handle_refund_side_def validate_refund_side_def refund_due_def
  handle_cancel_propose_def validate_cancel_propose_def is_participant_def
  handle_propose_admin_def validate_propose_admin_def ADMIN_TRANSFER_INIT_SPACE_def
  handle_resolve_def validate_resolve_def handle_concede_def validate_concede_def
  split_pot_def pay_winner_and_close_vault_def handle_cancel_accept_def validate_cancel_accept_def
  handle_unstake_side_def validate_unstake_side_def handle_close_expired_def
  validate_close_expired_def close_due_def fully_exited_def handle_accept_admin_def
  validate_accept_admin_def handle_update_config_def validate_update_config_def unwrap_or_def
  checked_mul_def u64_try_from_def Let_def move_tokens_def

text \<open>A continuation is evaluated when its argument is known.\<close>

lemma try_bind_weak_cong: "m = m' \<Longrightarrow> try_bind m f = try_bind m' f"
  by simp

lemma require_weak_cong: "c = c' \<Longrightarrow> require c e k = require c' e k"
  by simp

lemma at_0:
  "accts world0 = (\<lambda>_. None)" "tokens (ledger world0) = (\<lambda>_. None)(usd_of alice \<mapsto> purse alice 1000,
    usd_of bob \<mapsto> purse bob 1000,
    usd_of treasury \<mapsto> purse treasury 50)"
  "mints (ledger world0) = {usd}" "clock world0 = 1000" "lamports (ledger world0) = (\<lambda>_. 10000000000)"
  "program_data world0 1005 = Some (Some admin)"
  by (simp_all add: world0_def)

lemmas rents = CONFIG_INIT_SPACE_def WAGER_INIT_SPACE_def COUNTER_INIT_SPACE_def
  ADMIN_TRANSFER_INIT_SPACE_def RESOLVER_ALLOWLIST_LEN_def

text \<open>The contents of each world, in the order the program wrote them.\<close>

lemma at_ready:
  "accts world_ready = (\<lambda>_. None)(config1 \<mapsto> ConfigAcc (house 0))"
  "tokens (ledger world_ready) = (\<lambda>_. None)(usd_of alice \<mapsto> purse alice 1000,
    usd_of bob \<mapsto> purse bob 1000,
    usd_of treasury \<mapsto> purse treasury 50)"
  "mints (ledger world_ready) = {usd}" "clock world_ready = 1000"
  "lamports (ledger world_ready) = rent_paid admin config1 (8 + CONFIG_INIT_SPACE) (\<lambda>_. 10000000000)"
  by (simp_all add: world_ready_def at_0 evaluate rents)

lemma run_ready: "exec ref_env people initialize_call world0 = Inr world_ready"
  by (simp add: evaluate handlers initialize_call_def at_0 world_ready_def
      cong: try_bind_weak_cong require_weak_cong)

lemma at_open:
  "accts world_open = (\<lambda>_. None)(config1 \<mapsto> ConfigAcc (house 0),
    wager1 \<mapsto> WagerAcc bet)"
  "tokens (ledger world_open) = (\<lambda>_. None)(usd_of alice \<mapsto> purse alice 1000,
    usd_of bob \<mapsto> purse bob 1000,
    usd_of treasury \<mapsto> purse treasury 50,
    vault1 \<mapsto> purse wager1 0)"
  "mints (ledger world_open) = {usd}" "clock world_open = 1000"
  "lamports (ledger world_open) 3 = 9994954000" "lamports (ledger world_open) 5 = 10000000000"
  by (simp_all add: world_open_def at_ready evaluate rents)

lemma run_open: "exec ref_env people create_call world_ready = Inr world_open"
  by (simp add: evaluate handlers create_call_def at_ready world_open_def
      cong: try_bind_weak_cong require_weak_cong)

lemma at_half:
  "accts world_half = (\<lambda>_. None)(config1 \<mapsto> ConfigAcc (house 300),
    wager1 \<mapsto> WagerAcc (bet\<lparr>w_funded_a := True\<rparr>),
    counter_of alice \<mapsto> CounterAcc (one 1))"
  "tokens (ledger world_half) = (\<lambda>_. None)(usd_of bob \<mapsto> purse bob 1000,
    usd_of treasury \<mapsto> purse treasury 50,
    usd_of alice \<mapsto> purse alice 700,
    vault1 \<mapsto> purse wager1 300)"
  "mints (ledger world_half) = {usd}" "clock world_half = 1000"
  "lamports (ledger world_half) 5 = 10000000000"
  by (simp_all add: world_half_def at_open evaluate rents)

lemma run_half: "exec ref_env people (stake_call alice) world_open = Inr world_half"
  by (simp add: evaluate handlers stake_call_def stake_args_def at_open world_half_def
      cong: try_bind_weak_cong require_weak_cong)

lemma at_locked:
  "accts world_locked = (\<lambda>_. None)(counter_of alice \<mapsto> CounterAcc (one 1),
    config1 \<mapsto> ConfigAcc (house 600),
    wager1 \<mapsto> WagerAcc locked_bet,
    counter_of bob \<mapsto> CounterAcc (one 1))"
  "tokens (ledger world_locked) = (\<lambda>_. None)(usd_of treasury \<mapsto> purse treasury 50,
    usd_of alice \<mapsto> purse alice 700,
    usd_of bob \<mapsto> purse bob 700,
    vault1 \<mapsto> purse wager1 600)"
  "mints (ledger world_locked) = {usd}" "clock world_locked = 1000"
  by (simp_all add: world_locked_def at_half evaluate rents)

lemma run_locked: "exec ref_env people (stake_call bob) world_half = Inr world_locked"
  by (simp add: evaluate handlers stake_call_def stake_args_def at_half world_locked_def
      cong: try_bind_weak_cong require_weak_cong)

lemma at_proposed:
  "accts world_proposed = (\<lambda>_. None)(counter_of alice \<mapsto> CounterAcc (one 1),
    config1 \<mapsto> ConfigAcc (house 600),
    counter_of bob \<mapsto> CounterAcc (one 1),
    wager1 \<mapsto> WagerAcc (locked_bet\<lparr>w_cancel_proposed_by := alice\<rparr>))"
  "tokens (ledger world_proposed) = (\<lambda>_. None)(usd_of treasury \<mapsto> purse treasury 50,
    usd_of alice \<mapsto> purse alice 700,
    usd_of bob \<mapsto> purse bob 700,
    vault1 \<mapsto> purse wager1 600)"
  "mints (ledger world_proposed) = {usd}" "clock world_proposed = 1000"
  by (simp_all add: world_proposed_def at_locked evaluate rents)

lemma run_proposed: "exec ref_env people (cancel_propose_call alice) world_locked = Inr world_proposed"
  by (simp add: evaluate handlers cancel_propose_call_def at_locked world_proposed_def
      cong: try_bind_weak_cong require_weak_cong)

lemma at_stale:
  "accts world_stale = (\<lambda>_. None)(config1 \<mapsto> ConfigAcc (house 300),
    wager1 \<mapsto> WagerAcc (bet\<lparr>w_funded_a := True\<rparr>),
    counter_of alice \<mapsto> CounterAcc (one 1))"
  "tokens (ledger world_stale) = (\<lambda>_. None)(usd_of bob \<mapsto> purse bob 1000,
    usd_of treasury \<mapsto> purse treasury 50,
    usd_of alice \<mapsto> purse alice 700,
    vault1 \<mapsto> purse wager1 300)"
  "mints (ledger world_stale) = {usd}" "clock world_stale = 1060"
  by (simp_all add: world_stale_def at_half evaluate rents)

lemma at_expired:
  "accts world_expired = (\<lambda>_. None)(counter_of alice \<mapsto> CounterAcc (one 1),
    config1 \<mapsto> ConfigAcc (house 600),
    wager1 \<mapsto> WagerAcc locked_bet,
    counter_of bob \<mapsto> CounterAcc (one 1))"
  "tokens (ledger world_expired) = (\<lambda>_. None)(usd_of treasury \<mapsto> purse treasury 50,
    usd_of alice \<mapsto> purse alice 700,
    usd_of bob \<mapsto> purse bob 700,
    vault1 \<mapsto> purse wager1 600)"
  "mints (ledger world_expired) = {usd}" "clock world_expired = 1200"
  by (simp_all add: world_expired_def at_locked evaluate rents)

lemma at_back1:
  "accts world_back1 = (\<lambda>_. None)(counter_of bob \<mapsto> CounterAcc (one 1),
    config1 \<mapsto> ConfigAcc (house 300),
    wager1 \<mapsto> WagerAcc (locked_bet\<lparr>w_refunded_a := True\<rparr>),
    counter_of alice \<mapsto> CounterAcc (one 0))"
  "tokens (ledger world_back1) = (\<lambda>_. None)(usd_of treasury \<mapsto> purse treasury 50,
    usd_of bob \<mapsto> purse bob 700,
    vault1 \<mapsto> purse wager1 300,
    usd_of alice \<mapsto> purse alice 1000)"
  "mints (ledger world_back1) = {usd}" "clock world_back1 = 1200"
  by (simp_all add: world_back1_def at_expired evaluate rents)

lemma run_back1: "exec ref_env people (Refund_Side (refund_args alice)) world_expired = Inr world_back1"
  by (simp add: evaluate handlers refund_args_def at_expired world_back1_def
      cong: try_bind_weak_cong require_weak_cong)

lemma at_back2:
  "accts world_back2 = (\<lambda>_. None)(counter_of alice \<mapsto> CounterAcc (one 0),
    config1 \<mapsto> ConfigAcc (house 0),
    wager1 \<mapsto> WagerAcc (locked_bet\<lparr>w_refunded_a := True, w_refunded_b := True\<rparr>),
    counter_of bob \<mapsto> CounterAcc (one 0))"
  "tokens (ledger world_back2) = (\<lambda>_. None)(usd_of treasury \<mapsto> purse treasury 50,
    usd_of alice \<mapsto> purse alice 1000,
    vault1 \<mapsto> purse wager1 0,
    usd_of bob \<mapsto> purse bob 1000)"
  "mints (ledger world_back2) = {usd}" "clock world_back2 = 1200"
  by (simp_all add: world_back2_def at_back1 evaluate rents)

lemma run_back2: "exec ref_env people (Refund_Side (refund_args bob)) world_back1 = Inr world_back2"
  by (simp add: evaluate handlers refund_args_def at_back1 world_back2_def
      cong: try_bind_weak_cong require_weak_cong)

lemma at_offer:
  "accts world_offer = (\<lambda>_. None)(config1 \<mapsto> ConfigAcc (house 0),
    offer1 \<mapsto> TransferAcc \<lparr>at_proposed = bob, at_bump = 255\<rparr>)"
  "tokens (ledger world_offer) = (\<lambda>_. None)(usd_of alice \<mapsto> purse alice 1000,
    usd_of bob \<mapsto> purse bob 1000,
    usd_of treasury \<mapsto> purse treasury 50)"
  "mints (ledger world_offer) = {usd}" "clock world_offer = 1000"
  by (simp_all add: world_offer_def at_ready evaluate rents)

lemma run_offer: "exec ref_env people offer_call world_ready = Inr world_offer"
  by (simp add: evaluate handlers offer_call_def at_ready world_offer_def
      cong: try_bind_weak_cong require_weak_cong)

text \<open>Instructions that succeed there.\<close>

lemma resolve_runs: "\<exists>W'. handle_resolve ref_env people (resolve_args alice) alice world_locked = Inr W'"
  by (simp add: evaluate handlers resolve_args_def at_locked
      cong: try_bind_weak_cong require_weak_cong)

lemma resolve_bob_runs: "\<exists>W'. handle_resolve ref_env people (resolve_args bob) bob world_locked = Inr W'"
  by (simp add: evaluate handlers resolve_args_def at_locked
      cong: try_bind_weak_cong require_weak_cong)

lemma concede_runs: "\<exists>W'. handle_concede ref_env people concede_args world_locked = Inr W'"
  by (simp add: evaluate handlers concede_args_def at_locked
      cong: try_bind_weak_cong require_weak_cong)

lemma cancel_accept_runs: "\<exists>W'. handle_cancel_accept ref_env people accept_args world_proposed = Inr W'"
  by (simp add: evaluate handlers accept_args_def at_proposed
      cong: try_bind_weak_cong require_weak_cong)

lemma unstake_runs: "\<exists>W'. handle_unstake_side ref_env people unstake_args world_half = Inr W'"
  by (simp add: evaluate handlers unstake_args_def at_half
      cong: try_bind_weak_cong require_weak_cong)

lemma close_runs: "\<exists>W'. handle_close_expired ref_env people close_args world_back2 = Inr W'"
  by (simp add: evaluate handlers close_args_def at_back2
      cong: try_bind_weak_cong require_weak_cong)

lemma accept_admin_runs: "\<exists>W'. handle_accept_admin ref_env people accept_admin_args world_offer = Inr W'"
  by (simp add: evaluate handlers accept_admin_args_def at_offer
      cong: try_bind_weak_cong require_weak_cong)

lemma update_runs:
  "\<exists>W'. handle_update_config ref_env people update_accounts update_args world_locked = Inr W'"
  by (simp add: evaluate handlers update_accounts_def update_args_def at_locked
      cong: try_bind_weak_cong require_weak_cong)

section \<open>The wager in each world\<close>

lemma locked_wager: "accts world_locked wager1 = Some (WagerAcc locked_bet)"
  by (simp add: at_locked evaluate)

lemma half_wager: "accts world_half wager1 = Some (WagerAcc (bet\<lparr>w_funded_a := True\<rparr>))"
  by (simp add: at_half evaluate)

lemma proposed_wager:
  "accts world_proposed wager1 = Some (WagerAcc (locked_bet\<lparr>w_cancel_proposed_by := alice\<rparr>))"
  by (simp add: at_proposed evaluate)

lemma stale_wager: "accts world_stale wager1 = Some (WagerAcc (bet\<lparr>w_funded_a := True\<rparr>))"
  by (simp add: at_stale evaluate)

lemma expired_wager: "accts world_expired wager1 = Some (WagerAcc locked_bet)"
  by (simp add: at_expired evaluate)

lemma back1_wager:
  "accts world_back1 wager1 = Some (WagerAcc (locked_bet\<lparr>w_refunded_a := True\<rparr>))"
  by (simp add: at_back1 evaluate)

lemma back2_wager:
  "accts world_back2 wager1 =
    Some (WagerAcc (locked_bet\<lparr>w_refunded_a := True, w_refunded_b := True\<rparr>))"
  by (simp add: at_back2 evaluate)

lemma locked_token: "w_mint locked_bet \<noteq> ref_native_mint"
  by (simp add: evaluate)

section \<open>The worlds are reachable\<close>

lemma people_real: "real_signers ref_env people"
  using ref_is_pda by (fastforce simp: real_signers_def people_def names)

lemma ref_reach:
  assumes "reachable ref_env W" "exec ref_env people c W = Inr W'"
  shows "reachable ref_env W'"
proof -
  have "run_transaction exec ref_env people [c] W = Inr W'" using assms(2) by simp
  then show ?thesis
    using assms(1) people_real reachable.step chain_step.transaction by blast
qed

lemma ref_reach_later:
  assumes "reachable ref_env W" "clock W \<le>s t"
  shows "reachable ref_env (W\<lparr>clock := t\<rparr>)"
  using assms reachable.step chain_step.tick by blast

lemma reachable_worlds:
  "reachable ref_env world0" "reachable ref_env world_ready" "reachable ref_env world_open"
  "reachable ref_env world_half" "reachable ref_env world_locked"
  "reachable ref_env world_proposed" "reachable ref_env world_stale"
  "reachable ref_env world_expired" "reachable ref_env world_back1" "reachable ref_env world_back2"
  "reachable ref_env world_offer"
proof -
  show r0: "reachable ref_env world0" by (rule reachable.genesis) (simp_all add: world0_def)
  show r1: "reachable ref_env world_ready" by (rule ref_reach [OF r0 run_ready])
  show r2: "reachable ref_env world_open" by (rule ref_reach [OF r1 run_open])
  show r3: "reachable ref_env world_half" by (rule ref_reach [OF r2 run_half])
  show r4: "reachable ref_env world_locked" by (rule ref_reach [OF r3 run_locked])
  show "reachable ref_env world_proposed" by (rule ref_reach [OF r4 run_proposed])
  show "reachable ref_env world_stale"
    unfolding world_stale_def by (rule ref_reach_later [OF r3]) (simp add: at_half word_sle_eq)
  show r5: "reachable ref_env world_expired"
    unfolding world_expired_def by (rule ref_reach_later [OF r4]) (simp add: at_locked word_sle_eq)
  show r6: "reachable ref_env world_back1" by (rule ref_reach [OF r5 run_back1])
  show "reachable ref_env world_back2" by (rule ref_reach [OF r6 run_back2])
  show "reachable ref_env world_offer" by (rule ref_reach [OF r1 run_offer])
qed

lemmas inv_worlds = reachable_worlds [THEN reachable_inv [OF ref.chain_axioms]]

end
