(* ===== verification/Effects.thy ===== *)
theory Effects
  imports Scenario
begin

text \<open>
  What each instruction does when it succeeds, in exact arithmetic and over all accounts and
  balances. Every property has a witness: the same statement on a transaction of the
  scenario.
\<close>

section \<open>Settlement\<close>

text \<open>
  C6. A successful \<^verbatim>\<open>resolve\<close> was signed by the wager's resolver, before the deadline, on a
  locked wager, for one of its participants, and settles it: the winner's own token account
  gets the pot less the fee, the pinned fee account the fee and any surplus, the vault and the
  wager are closed with their rent to the pinned collector, the books drop by the pot and by
  one for each side, and no other account or balance changes. The events name the winner, the
  payout, the fee and the surplus.
\<close>

theorem resolve_settles:
  assumes "chain E" "reachable E W" "handle_resolve E sg a winner W = Inr W'"
    and "accts W (rs_wager a) = Some (WagerAcc w)" "w_mint w \<noteq> native_mint E"
  shows "settles E W (rs_wager a) winner W' \<and> w_resolver w \<in> sg \<and>
    (\<exists>payout fee surplus. events W' = events W @
        [WagerResolved (rs_wager a) winner payout fee, WagerClosed (rs_wager a) surplus] \<and>
      unat fee = 2 * unat (w_stake w) * unat (w_fee_bps w) div 10000 \<and>
      unat payout + unat fee = 2 * unat (w_stake w) \<and>
      unat surplus + 2 * unat (w_stake w) =
        amount_at (tokens (ledger W)) (vault_key E (rs_wager a) w))"
  by (rule chain.resolve_effect [OF assms(1) reachable_inv [OF assms(1,2)] assms(3-5)])

theorem resolve_settles_witness:
  "\<exists>W'. handle_resolve ref_env people (resolve_args alice) alice world_locked = Inr W' \<and>
    settles ref_env world_locked wager1 alice W'"
proof -
  obtain W' where run: "handle_resolve ref_env people (resolve_args alice) alice world_locked = Inr W'"
    using resolve_runs by blast
  have "settles ref_env world_locked (rs_wager (resolve_args alice)) alice W'"
    using resolve_settles [OF ref.chain_axioms reachable_worlds(5) run, of locked_bet]
    by (simp add: locked_wager locked_token resolve_args_def)
  with run show ?thesis by (auto simp: resolve_args_def)
qed

text \<open>
  C29. A successful \<^verbatim>\<open>concede\<close> was signed by a participant of a locked wager before the deadline,
  and settles it for the other participant, on the same terms as a resolution.
\<close>

theorem concede_settles:
  assumes "chain E" "reachable E W" "handle_concede E sg a W = Inr W'"
    and "accts W (cc_wager a) = Some (WagerAcc w)" "w_mint w \<noteq> native_mint E"
  shows "settles E W (cc_wager a) (counterparty w (cc_conceder a)) W' \<and>
    cc_conceder a \<in> sg \<and> is_participant w (cc_conceder a) \<and>
    (\<exists>payout fee surplus. events W' = events W @
        [WagerConceded (cc_wager a) (cc_conceder a) (counterparty w (cc_conceder a)) payout fee,
         WagerClosed (cc_wager a) surplus] \<and>
      unat fee = 2 * unat (w_stake w) * unat (w_fee_bps w) div 10000 \<and>
      unat payout + unat fee = 2 * unat (w_stake w) \<and>
      unat surplus + 2 * unat (w_stake w) =
        amount_at (tokens (ledger W)) (vault_key E (cc_wager a) w))"
  using chain.concede_effect [OF assms(1) reachable_inv [OF assms(1,2)] assms(3-5)] by blast

theorem concede_settles_witness:
  "\<exists>W'. handle_concede ref_env people concede_args world_locked = Inr W' \<and>
    settles ref_env world_locked wager1 bob W'"
proof -
  obtain W' where run: "handle_concede ref_env people concede_args world_locked = Inr W'"
    using concede_runs by blast
  have "settles ref_env world_locked (cc_wager concede_args)
      (counterparty locked_bet (cc_conceder concede_args)) W'"
    using concede_settles [OF ref.chain_axioms reachable_worlds(5) run, of locked_bet]
    by (simp add: locked_wager locked_token concede_args_def)
  with run show ?thesis
    by (auto simp: concede_args_def counterparty_def locked_bet_def bet_def)
qed

text \<open>
  C12. Conceding is resolving for the other side: where a participant's \<^verbatim>\<open>concede\<close> succeeds, the
  resolver's \<^verbatim>\<open>resolve\<close> for the other participant succeeds on the same accounts, and the two
  resulting worlds are equal in every account, balance and lamport; only the first of the two
  events differs.
\<close>

theorem concede_is_resolve_for_counterparty:
  assumes "handle_concede E sg a W = Inr W'"
    and "accts W (cc_wager a) = Some (WagerAcc w)" "w_resolver w \<in> sg'"
  shows "\<exists>V payout fee surplus.
    handle_resolve E sg' (as_resolve w a) (counterparty w (cc_conceder a)) W = Inr V \<and>
    V = W'\<lparr>events := events V\<rparr> \<and>
    events V = events W @ [WagerResolved (cc_wager a) (counterparty w (cc_conceder a)) payout fee,
      WagerClosed (cc_wager a) surplus] \<and>
    events W' = events W @ [WagerConceded (cc_wager a) (cc_conceder a)
      (counterparty w (cc_conceder a)) payout fee, WagerClosed (cc_wager a) surplus]"
  by (rule concede_as_resolve [OF assms])

theorem concede_is_resolve_for_counterparty_witness:
  "\<exists>W' V. handle_concede ref_env people concede_args world_locked = Inr W' \<and>
    handle_resolve ref_env people (as_resolve locked_bet concede_args) bob world_locked = Inr V \<and>
    accts V = accts W' \<and> ledger V = ledger W'"
proof -
  obtain W' where run: "handle_concede ref_env people concede_args world_locked = Inr W'"
    using concede_runs by blast
  have "cc_wager concede_args = wager1" by (simp add: concede_args_def)
  then have k: "accts world_locked (cc_wager concede_args) = Some (WagerAcc locked_bet)"
    by (simp add: locked_wager)
  have sg: "w_resolver locked_bet \<in> people" by (simp add: locked_bet_def bet_def people_def)
  have win: "counterparty locked_bet (cc_conceder concede_args) = bob"
    by (simp add: concede_args_def counterparty_def locked_bet_def bet_def)
  obtain V where V: "handle_resolve ref_env people (as_resolve locked_bet concede_args) bob
      world_locked = Inr V" "V = W'\<lparr>events := events V\<rparr>"
    using concede_is_resolve_for_counterparty [OF run k sg] win by auto
  have "accts V = accts W'" "ledger V = ledger W'" by (subst V(2), simp)+
  with run V(1) show ?thesis by blast
qed

section \<open>Staking\<close>

text \<open>
  C13. A successful \<^verbatim>\<open>stake_side\<close> was signed by the staker, a participant whose side was not
  funded, on a wager in funding before its deadline; the stake moves from a token account of
  the staker to the vault; the accumulator grows by it and stays within the global cap, the
  staker's counter by one and stays within the wallet cap; no other account or balance changes.
  The wager locks exactly when the other side was funded.
\<close>

theorem stake_side_takes_stake:
  assumes "chain E" "reachable E W" "real_signers E sg" "handle_stake_side E sg a W = Inr W'"
    and "accts W (ss_wager a) = Some (WagerAcc w)"
  shows "takes_stake E W (ss_wager a) (ss_staker a) (ss_staker_token a) W' \<and>
    ss_staker a \<in> sg \<and> w_state w = Funding \<and> clock W \<le>s w_deadline_fund w \<and>
    (\<exists>st. tokens (ledger W) (ss_staker_token a) = Some st \<and> t_owner st = ss_staker a) \<and>
    (w_state (stake_in (ss_staker a) w) = Active \<longleftrightarrow>
      funded (counterparty w (ss_staker a)) w) \<and>
    events W' = events W @ [SideStaked (ss_wager a) (ss_staker a) (ss_staker a = w_side_a w)
      (w_stake w) (funded (counterparty w (ss_staker a)) w)]"
  by (rule chain.stake_side_effect [OF assms(1,3) reachable_inv [OF assms(1,2)] assms(4,5)])

theorem stake_side_takes_stake_witness:
  "takes_stake ref_env world_half wager1 bob (usd_of bob) world_locked"
proof -
  have "handle_stake_side ref_env people (stake_args bob) world_half = Inr world_locked"
    using run_locked by (simp add: stake_call_def)
  from stake_side_takes_stake [OF ref.chain_axioms reachable_worlds(4) people_real this]
  show ?thesis by (simp add: stake_args_def half_wager)
qed

text \<open>
  A successful \<^verbatim>\<open>unstake_side\<close> was signed by the staker while the wager was in funding and
  before its deadline; the stake goes back to the staker's own token account and the books
  drop by it.
\<close>

theorem unstake_side_returns_stake:
  assumes "chain E" "reachable E W" "handle_unstake_side E sg a W = Inr W'"
    and "accts W (us_wager a) = Some (WagerAcc w)"
  shows "returns_stake E W (us_wager a) (us_staker a) (stake_out (us_staker a) w) W' \<and>
    us_staker a \<in> sg \<and> w_state w = Funding \<and> clock W \<le>s w_deadline_fund w \<and>
    events W' = events W @ [SideUnstaked (us_wager a) (us_staker a) (w_stake w)]"
  by (rule chain.unstake_side_effect [OF assms(1) reachable_inv [OF assms(1,2)] assms(3,4)])

theorem unstake_side_returns_stake_witness:
  "\<exists>W'. handle_unstake_side ref_env people unstake_args world_half = Inr W' \<and>
    returns_stake ref_env world_half wager1 alice bet W'"
proof -
  obtain W' where run: "handle_unstake_side ref_env people unstake_args world_half = Inr W'"
    using unstake_runs by blast
  have "stake_out alice (bet\<lparr>w_funded_a := True\<rparr>) = bet"
    by (simp add: stake_out_def bet_def)
  then show ?thesis
    using unstake_side_returns_stake [OF ref.chain_axioms reachable_worlds(4) run] run
    by (auto simp: unstake_args_def half_wager)
qed

section \<open>Exits\<close>

text \<open>
  C19. A successful \<^verbatim>\<open>refund_side\<close> happens only after the deadline of the wager's state, for a
  participant whose stake is in; the whole stake goes to that participant's own token account,
  whoever sent the transaction, and the books drop by it.
\<close>

theorem refund_side_returns_stake:
  assumes "chain E" "reachable E W" "handle_refund_side E sg a W = Inr W'"
    and "accts W (rf_wager a) = Some (WagerAcc w)"
  shows "returns_stake E W (rf_wager a) (rf_side a) (mark_refunded (rf_side a) w) W' \<and>
    refund_due (clock W) w \<and> is_participant w (rf_side a) \<and>
    events W' = events W @ [SideRefunded (rf_wager a) (rf_side a) (w_stake w)]"
  by (rule chain.refund_side_effect [OF assms(1) reachable_inv [OF assms(1,2)] assms(3,4)])

theorem refund_side_returns_stake_witness:
  "returns_stake ref_env world_expired wager1 alice (locked_bet\<lparr>w_refunded_a := True\<rparr>) world_back1"
proof -
  have "handle_refund_side ref_env people (refund_args alice) world_expired = Inr world_back1"
    using run_back1 by simp
  from refund_side_returns_stake [OF ref.chain_axioms reachable_worlds(8) this]
  show ?thesis
    by (simp add: refund_args_def expired_wager mark_refunded_def locked_bet_def bet_def)
qed

text \<open>
  C20. A successful \<^verbatim>\<open>cancel_accept\<close> was signed by the participant who did not propose the
  cancellation, on a locked wager before its deadline. Each side's own token account gets the
  whole stake back, without a fee; the pinned fee account gets only what the vault held beyond
  the two stakes; vault and wager are closed with their rent to the pinned collector.
\<close>

theorem cancel_accept_returns_both:
  assumes "chain E" "reachable E W" "handle_cancel_accept E sg a W = Inr W'"
    and "accts W (ac_wager a) = Some (WagerAcc w)" "w_mint w \<noteq> native_mint E"
  shows "ac_acceptor a \<in> sg \<and> is_participant w (ac_acceptor a) \<and>
    w_cancel_proposed_by w = counterparty w (ac_acceptor a) \<and>
    w_state w = Active \<and> clock W \<le>s w_deadline_resolve w \<and>
    accts W' (ac_wager a) = None \<and>
    (\<exists>c t. accts W (config_key E) = Some (ConfigAcc c) \<and>
      accts W' (config_key E) = Some (ConfigAcc (c\<lparr>c_total_open_value := t\<rparr>)) \<and>
      unat t + 2 * unat (w_stake w) = unat (c_total_open_value c)) \<and>
    2 * unat (w_stake w) \<le> amount_at (tokens (ledger W)) (vault_key E (ac_wager a) w) \<and>
    token_data (tokens (ledger W')) =
      (token_data (tokens (ledger W)))(vault_key E (ac_wager a) w := None) \<and>
    (\<forall>j. j \<noteq> vault_key E (ac_wager a) w \<longrightarrow>
      amount_at (tokens (ledger W')) j = amount_at (tokens (ledger W)) j +
        (if j = ata_address E (w_side_a w) (w_mint w) then unat (w_stake w) else 0) +
        (if j = ata_address E (w_side_b w) (w_mint w) then unat (w_stake w) else 0) +
        (if j = w_fee_destination w
         then amount_at (tokens (ledger W)) (vault_key E (ac_wager a) w) - 2 * unat (w_stake w)
         else 0)) \<and>
    lamports (ledger W') = drain_lamports (ac_wager a) (w_rent_collector w)
      (drain_lamports (vault_key E (ac_wager a) w) (w_rent_collector w) (lamports (ledger W)))"
  by (rule chain.cancel_accept_effect [OF assms(1) reachable_inv [OF assms(1,2)] assms(3-5)])

theorem cancel_accept_returns_both_witness:
  "\<exists>W'. handle_cancel_accept ref_env people accept_args world_proposed = Inr W' \<and>
    accts W' wager1 = None \<and> amount_at (tokens (ledger W')) (usd_of alice) = 1000"
proof -
  obtain W' where run: "handle_cancel_accept ref_env people accept_args world_proposed = Inr W'"
    using cancel_accept_runs by blast
  have w: "accts world_proposed (ac_wager accept_args) =
      Some (WagerAcc (locked_bet\<lparr>w_cancel_proposed_by := alice\<rparr>))"
    by (simp add: accept_args_def proposed_wager)
  have tok: "w_mint (locked_bet\<lparr>w_cancel_proposed_by := alice\<rparr>) \<noteq> native_mint ref_env"
    using locked_token by simp
  have k: "ac_wager accept_args = wager1" by (simp add: accept_args_def)
  from cancel_accept_returns_both [OF ref.chain_axioms reachable_worlds(6) run w tok]
  have gone: "accts W' wager1 = None" and am: "j \<noteq> vault1 \<Longrightarrow>
      amount_at (tokens (ledger W')) j = amount_at (tokens (ledger world_proposed)) j +
        (if j = usd_of alice then 300 else 0) + (if j = usd_of bob then 300 else 0) +
        (if j = usd_of treasury
         then amount_at (tokens (ledger world_proposed)) vault1 - 600 else 0)" for j
    by (simp_all add: k vault_key_def vault1_def usd_of_def locked_bet_def bet_def)
  have "amount_at (tokens (ledger world_proposed)) (usd_of alice) = 700"
    by (simp add: at_proposed evaluate amount_at_def)
  moreover have "usd_of alice \<noteq> vault1" "usd_of alice \<noteq> usd_of bob" "usd_of alice \<noteq> usd_of treasury"
    by (simp_all add: evaluate)
  ultimately have "amount_at (tokens (ledger W')) (usd_of alice) = 1000"
    using am [of "usd_of alice"] by simp
  with run gone show ?thesis by blast
qed

text \<open>
  C30. A successful \<^verbatim>\<open>close_expired\<close> happens only after the deadline and when no stake is left
  in; what the vault still holds, which is nobody's stake, goes to the pinned fee account, the
  rent of vault and wager to the pinned collector, and no other account or balance changes.
\<close>

theorem close_expired_sweeps_surplus:
  assumes "chain E" "reachable E W" "handle_close_expired E sg a W = Inr W'"
    and "accts W (ce_wager a) = Some (WagerAcc w)" "w_mint w \<noteq> native_mint E"
  shows "close_due (clock W) w \<and> owed w = 0 \<and> accts W' = (accts W)(ce_wager a := None) \<and>
    token_data (tokens (ledger W')) =
      (token_data (tokens (ledger W)))(vault_key E (ce_wager a) w := None) \<and>
    (\<forall>j. j \<noteq> vault_key E (ce_wager a) w \<longrightarrow>
      amount_at (tokens (ledger W')) j = amount_at (tokens (ledger W)) j +
        (if j = w_fee_destination w
         then amount_at (tokens (ledger W)) (vault_key E (ce_wager a) w) else 0)) \<and>
    lamports (ledger W') = drain_lamports (ce_wager a) (w_rent_collector w)
      (drain_lamports (vault_key E (ce_wager a) w) (w_rent_collector w) (lamports (ledger W))) \<and>
    mints (ledger W') = mints (ledger W) \<and> clock W' = clock W"
  by (rule chain.close_expired_effect [OF assms(1) reachable_inv [OF assms(1,2)] assms(3-5)])

theorem close_expired_sweeps_surplus_witness:
  "\<exists>W'. handle_close_expired ref_env people close_args world_back2 = Inr W' \<and>
    accts W' = (accts world_back2)(wager1 := None)"
proof -
  obtain W' where run: "handle_close_expired ref_env people close_args world_back2 = Inr W'"
    using close_runs by blast
  have k: "ce_wager close_args = wager1" by (simp add: close_args_def)
  have w: "accts world_back2 (ce_wager close_args) =
      Some (WagerAcc (locked_bet\<lparr>w_refunded_a := True, w_refunded_b := True\<rparr>))"
    by (simp add: k back2_wager)
  from close_expired_sweeps_surplus [OF ref.chain_axioms reachable_worlds(10) run w] locked_token
  have "accts W' = (accts world_back2)(wager1 := None)" by (simp add: k)
  with run show ?thesis by blast
qed

end
