(* ===== verification/Lifecycle.thy ===== *)
theory Lifecycle
  imports Program
begin

text \<open>
  The life of one wager as a state machine: the steps it may take, with the signatures and the
  time each needs, and the proof that every instruction of the program takes one of them on
  the wager it names and leaves every other wager alone. What may happen to a wager is then
  read off eight rules instead of fifteen handlers.
\<close>

section \<open>The steps of a wager\<close>

text \<open>
  A step at time \<open>now\<close> of a transaction signed by \<open>sg\<close>; \<open>None\<close> is the closed wager. Before its
  deadline a wager moves by a signature, after it by anyone's.
\<close>

inductive life_step :: "i64 \<Rightarrow> pubkey set \<Rightarrow> wager \<Rightarrow> wager option \<Rightarrow> bool" for now sg w where
  staked: "s \<in> sg \<Longrightarrow> is_participant w s \<Longrightarrow> w_state w = Funding \<Longrightarrow> now \<le>s w_deadline_fund w \<Longrightarrow>
    \<not> funded s w \<Longrightarrow> life_step now sg w (Some (stake_in s w))"
| unstaked: "s \<in> sg \<Longrightarrow> is_participant w s \<Longrightarrow> w_state w = Funding \<Longrightarrow> now \<le>s w_deadline_fund w \<Longrightarrow>
    funded s w \<Longrightarrow> life_step now sg w (Some (stake_out s w))"
| refunded: "is_participant w s \<Longrightarrow> refund_due now w \<Longrightarrow> side_in s w \<Longrightarrow>
    life_step now sg w (Some (mark_refunded s w))"
| proposed: "s \<in> sg \<Longrightarrow> is_participant w s \<Longrightarrow> w_state w = Active \<Longrightarrow> now \<le>s w_deadline_resolve w \<Longrightarrow>
    w_cancel_proposed_by w = default_key \<Longrightarrow>
    life_step now sg w (Some (w\<lparr>w_cancel_proposed_by := s\<rparr>))"
| cleared: "s \<in> sg \<Longrightarrow> is_participant w s \<Longrightarrow> w_cancel_proposed_by w \<noteq> default_key \<Longrightarrow>
    life_step now sg w (Some (w\<lparr>w_cancel_proposed_by := default_key\<rparr>))"
| resolved: "w_resolver w \<in> sg \<Longrightarrow> w_state w = Active \<Longrightarrow> now \<le>s w_deadline_resolve w \<Longrightarrow>
    life_step now sg w None"
| conceded: "s \<in> sg \<Longrightarrow> is_participant w s \<Longrightarrow> w_state w = Active \<Longrightarrow> now \<le>s w_deadline_resolve w \<Longrightarrow>
    life_step now sg w None"
| cancelled: "s \<in> sg \<Longrightarrow> is_participant w s \<Longrightarrow> w_state w = Active \<Longrightarrow> now \<le>s w_deadline_resolve w \<Longrightarrow>
    w_cancel_proposed_by w \<noteq> default_key \<Longrightarrow> w_cancel_proposed_by w \<noteq> s \<Longrightarrow>
    life_step now sg w None"
| expired: "close_due now w \<Longrightarrow> fully_exited w \<Longrightarrow> life_step now sg w None"

inductive_cases life_step_someE: "life_step now sg w (Some w')"
inductive_cases life_step_noneE: "life_step now sg w None"

text \<open>The wager an instruction names.\<close>

fun call_wager :: "call \<Rightarrow> pubkey option" where
  "call_wager (Create_Wager a args) = Some (cw_wager a)"
| "call_wager (Stake_Side a) = Some (ss_wager a)"
| "call_wager (Unstake_Side a) = Some (us_wager a)"
| "call_wager (Resolve a winner) = Some (rs_wager a)"
| "call_wager (Concede a) = Some (cc_wager a)"
| "call_wager (Refund_Side a) = Some (rf_wager a)"
| "call_wager (Cancel_Propose a) = Some (cp_wager a)"
| "call_wager (Cancel_Clear a) = Some (cl_wager a)"
| "call_wager (Cancel_Accept a) = Some (ac_wager a)"
| "call_wager (Close_Expired a) = Some (ce_wager a)"
| "call_wager (Initialize_Config a args) = None"
| "call_wager (Update_Config a args) = None"
| "call_wager (Propose_Admin a new_admin) = None"
| "call_wager (Accept_Admin a) = None"
| "call_wager (Cancel_Admin_Transfer a) = None"

section \<open>Each instruction takes a step\<close>

text \<open>What has become of the wager \<open>w\<close> at \<open>k\<close>, when the instruction named \<open>t\<close>.\<close>

definition follows ::
  "pubkey set \<Rightarrow> world \<Rightarrow> world \<Rightarrow> pubkey option \<Rightarrow> pubkey \<Rightarrow> wager \<Rightarrow> bool" where
  "follows sg W W' t k w \<longleftrightarrow>
    (if t = Some k
     then \<exists>r. accts W' k = map_option WagerAcc r \<and> life_step (clock W) sg w r
     else accts W' k = accts W k)"

lemma follows_other [simp]:
  "t \<noteq> Some k \<Longrightarrow> follows sg W W' t k w \<longleftrightarrow> accts W' k = accts W k"
  by (simp add: follows_def)

lemma follows_keeps:
  "accts W' k = Some (WagerAcc w') \<Longrightarrow> life_step (clock W) sg w (Some w') \<Longrightarrow> t = Some k \<Longrightarrow>
    follows sg W W' t k w"
  unfolding follows_def by (auto intro: exI [of _ "Some w'"])

lemma follows_closes:
  "accts W' k = None \<Longrightarrow> life_step (clock W) sg w None \<Longrightarrow> t = Some k \<Longrightarrow> follows sg W W' t k w"
  unfolding follows_def by (auto intro: exI [of _ None])

lemma stake_side_follows:
  assumes run: "handle_stake_side E sg a W = Inr W'" and k: "accts W k = Some (WagerAcc w)"
  shows "follows sg W W' (Some (ss_wager a)) k w"
proof (rule stake_side_success [OF run])
  fix c w1 x W1 L
  let ?s = "ss_staker a"
  assume v: "validate_stake_side E sg a W = Inr (c, w1, x, W1)"
    and st: "w_state w1 = Funding" "clock W \<le>s w_deadline_fund w1"
    and part: "is_participant w1 ?s" "\<not> funded ?s w1"
    and W': "W' = put_acct (ss_counter a) (CounterAcc (x\<lparr>x_count := x_count x + 1,
        x_bump := snd (find_pda E (counter_seeds ?s))\<rparr>))
      (put_acct (ss_wager a) (WagerAcc (stake_in ?s w1))
      (put_acct (ss_config a) (ConfigAcc (c\<lparr>c_total_open_value :=
        c_total_open_value c + w_stake w1\<rparr>))
      (emit_cpi (SideStaked (ss_wager a) ?s (?s = w_side_a w1) (w_stake w1)
        (w_state (stake_in ?s w1) = Active))
        (W1\<lparr>ledger := L\<rparr>))))"
  from v have sg: "?s \<in> sg" and k1: "accts W (ss_wager a) = Some (WagerAcc w1)"
    and c: "accts W (ss_config a) = Some (ConfigAcc c)"
    and ini: "init_if_needed_counter E (ss_payer a) (ss_counter a) (counter_seeds ?s) W = Inr (x, W1)"
    unfolding validate_stake_side_Inr by blast+
  from ini have W1: "accts W1 = accts W" and j: "accts W (ss_counter a) \<noteq> Some (WagerAcc w)"
    "accts W (ss_counter a) \<noteq> Some (WagerAcc w1)"
    by (auto simp: init_if_needed_counter_Inr)
  show ?thesis
  proof (cases "k = ss_wager a")
    case True
    with k k1 have "w1 = w" by simp
    with True sg st part W' j k1 show ?thesis
      by (intro follows_keeps [where w' = "stake_in ?s w"] life_step.staked) auto
  next
    case False
    with W' W1 j c k show ?thesis by auto
  qed
qed

lemma unstake_side_follows:
  assumes run: "handle_unstake_side E sg a W = Inr W'" and k: "accts W k = Some (WagerAcc w)"
  shows "follows sg W W' (Some (us_wager a)) k w"
  by (rule unstake_side_success [OF run], cases "k = us_wager a")
    (use k in \<open>auto simp: validate_unstake_side_Inr intro!: follows_keeps life_step.unstaked\<close>)

lemma refund_side_follows:
  assumes run: "handle_refund_side E sg a W = Inr W'" and k: "accts W k = Some (WagerAcc w)"
  shows "follows sg W W' (Some (rf_wager a)) k w"
  by (rule refund_side_success [OF run], cases "k = rf_wager a")
    (use k in \<open>auto simp: validate_refund_side_Inr intro!: follows_keeps life_step.refunded\<close>)

lemma cancel_propose_follows:
  assumes run: "handle_cancel_propose E sg a W = Inr W'" and k: "accts W k = Some (WagerAcc w)"
  shows "follows sg W W' (Some (cp_wager a)) k w"
  by (rule cancel_propose_success [OF run], cases "k = cp_wager a")
    (use k in \<open>auto simp: validate_cancel_propose_Inr intro!: follows_keeps life_step.proposed\<close>)

lemma cancel_clear_follows:
  assumes run: "handle_cancel_clear E sg a W = Inr W'" and k: "accts W k = Some (WagerAcc w)"
  shows "follows sg W W' (Some (cl_wager a)) k w"
  by (rule cancel_clear_success [OF run], cases "k = cl_wager a")
    (use k in \<open>auto simp: validate_cancel_clear_Inr intro!: follows_keeps life_step.cleared\<close>)

lemma cancel_accept_follows:
  assumes run: "handle_cancel_accept E sg a W = Inr W'" and k: "accts W k = Some (WagerAcc w)"
  shows "follows sg W W' (Some (ac_wager a)) k w"
  by (rule cancel_accept_success [OF run], cases "k = ac_wager a")
    (use k in \<open>auto simp: validate_cancel_accept_Inr intro!: follows_closes intro: life_step.cancelled\<close>)

lemma resolve_follows:
  assumes run: "handle_resolve E sg a winner W = Inr W'" and k: "accts W k = Some (WagerAcc w)"
  shows "follows sg W W' (Some (rs_wager a)) k w"
  by (rule resolve_success [OF run], cases "k = rs_wager a")
    (use k in \<open>auto simp: validate_resolve_Inr intro!: follows_closes life_step.resolved\<close>)

lemma concede_follows:
  assumes run: "handle_concede E sg a W = Inr W'" and k: "accts W k = Some (WagerAcc w)"
  shows "follows sg W W' (Some (cc_wager a)) k w"
  by (rule concede_success [OF run], cases "k = cc_wager a")
    (use k in \<open>auto simp: validate_concede_Inr intro!: follows_closes intro: life_step.conceded\<close>)

lemma close_expired_follows:
  assumes run: "handle_close_expired E sg a W = Inr W'" and k: "accts W k = Some (WagerAcc w)"
  shows "follows sg W W' (Some (ce_wager a)) k w"
  by (rule close_expired_success [OF run], cases "k = ce_wager a")
    (use k in \<open>auto simp: validate_close_expired_Inr intro!: follows_closes life_step.expired\<close>)

lemma create_wager_follows:
  assumes run: "handle_create_wager E sg a args W = Inr W'" and k: "accts W k = Some (WagerAcc w)"
  shows "follows sg W W' (Some (cw_wager a)) k w"
proof (rule create_wager_success [OF run])
  fix c W2
  assume v: "validate_create_wager E sg a args W = Inr (c, W2)"
    and "W' = put_acct (cw_wager a) (WagerAcc (new_wager E c args))
      (emit_cpi (WagerCreated (cw_wager a) (ca_side_a args) (ca_side_b args) (ca_stake args)
        (c_mint c) (ca_resolver args) (ca_terms_hash args) (ca_deadline_fund args)
        (ca_deadline_resolve args) (ca_nonce args)) W2)"
  with create_wager_accts(1,2) [OF v] k show ?thesis by (cases "k = cw_wager a") auto
qed

lemma admin_calls_follow:
  assumes "exec E sg c W = Inr W'" "call_wager c = None" and k: "accts W k = Some (WagerAcc w)"
  shows "accts W' k = accts W k"
proof (cases c)
  case (Initialize_Config a args)
  with assms(1) have run: "handle_initialize_config E sg a args W = Inr W'" by simp
  show ?thesis by (rule initialize_config_success [OF run]) (use k in auto)
next
  case (Update_Config a args)
  with assms(1) have run: "handle_update_config E sg a args W = Inr W'" by simp
  show ?thesis
    by (rule update_config_success [OF run]) (use k in \<open>auto simp: validate_update_config_Inr\<close>)
next
  case (Propose_Admin a n)
  with assms(1) have run: "handle_propose_admin E sg a n W = Inr W'" by simp
  show ?thesis
    by (rule propose_admin_success [OF run])
      (use k in \<open>auto simp: validate_propose_admin_Inr init_if_needed_transfer_Inr\<close>)
next
  case (Accept_Admin a)
  with assms(1) have run: "handle_accept_admin E sg a W = Inr W'" by simp
  show ?thesis
    by (rule accept_admin_success [OF run]) (use k in \<open>auto simp: validate_accept_admin_Inr\<close>)
next
  case (Cancel_Admin_Transfer a)
  with assms(1) have run: "handle_cancel_admin_transfer E sg a W = Inr W'" by simp
  show ?thesis
    by (rule cancel_admin_transfer_success [OF run])
      (use k in \<open>auto simp: validate_cancel_admin_transfer_Inr\<close>)
qed (use assms(2) in simp_all)

lemma exec_follows:
  assumes run: "exec E sg c W = Inr W'" and k: "accts W k = Some (WagerAcc w)"
  shows "follows sg W W' (call_wager c) k w"
proof (cases "call_wager c = None")
  case True
  with admin_calls_follow [OF run True k] show ?thesis by (simp add: follows_def)
next
  case False
  with run k show ?thesis
    by (cases c) (simp_all add: stake_side_follows unstake_side_follows refund_side_follows
        cancel_propose_follows cancel_clear_follows cancel_accept_follows resolve_follows
        concede_follows close_expired_follows create_wager_follows)
qed

section \<open>What the steps imply\<close>

text \<open>
  A step keeps the terms and only moves forward: the state does not go back, a refunded side
  stays refunded, and in a locked wager who funded stays as it is.
\<close>

lemma life_step_forward:
  assumes "life_step now sg w (Some w')"
  shows "terms_of w' = terms_of w" and "w_state w \<le> w_state w'"
    and "w_refunded_a w \<longrightarrow> w_refunded_a w'" and "w_refunded_b w \<longrightarrow> w_refunded_b w'"
    and "w_state w = Active \<longrightarrow> w_state w' = Active \<and> w_funded_a w' = w_funded_a w \<and>
      w_funded_b w' = w_funded_b w"
  using assms
  by (auto elim!: life_step_someE
      simp: stake_in_def stake_out_def mark_refunded_def Let_def less_eq_wager_state_def
      split: if_splits)

text \<open>Before the deadline of its state a wager takes no step without a signature.\<close>

definition operative_deadline :: "wager \<Rightarrow> i64" where
  "operative_deadline w = (case w_state w of Funding \<Rightarrow> w_deadline_fund w | _ \<Rightarrow> w_deadline_resolve w)"

lemma life_step_signed:
  assumes "life_step now sg w r" "now \<le>s operative_deadline w" "w_state w \<noteq> Cancelled"
  shows "sg \<inter> {w_side_a w, w_side_b w, w_resolver w} \<noteq> {}"
  using assms
  by (auto elim!: life_step.cases simp: is_participant_def operative_deadline_def refund_due_def
      close_due_def signed.not_less [symmetric] split: wager_state.splits)

end
