(* ===== verification/Custody.thy ===== *)
theory Custody
  imports Lifecycle
begin

text \<open>
  Where the tokens can go. Over all instructions: only a wager's participants and its pinned
  fee account gain, only its vault and a signing staker lose, no instruction touches another
  wager's vault, no token appears or disappears, and a participant whose stake leaves the vault
  has it back, unless the resolver or the participant itself signed.
\<close>

section \<open>Who is paid\<close>

text \<open>The accounts a wager can pay, all fixed at its creation.\<close>

definition payees :: "env \<Rightarrow> wager \<Rightarrow> pubkey set" where
  "payees E w = {ata_address E (w_side_a w) (w_mint w), ata_address E (w_side_b w) (w_mint w),
    w_fee_destination w}"

text \<open>The stake mint is a token, not wrapped lamports.\<close>

definition token_stakes :: "env \<Rightarrow> world \<Rightarrow> bool" where
  "token_stakes E W \<longleftrightarrow>
    (\<forall>c. accts W (config_key E) = Some (ConfigAcc c) \<longrightarrow> c_mint c \<noteq> native_mint E)"

text \<open>Which balances a call may raise and which it may lower, when it names the wager \<open>w\<close> at \<open>k\<close>.\<close>

definition may_gain :: "env \<Rightarrow> call \<Rightarrow> pubkey \<Rightarrow> wager \<Rightarrow> pubkey \<Rightarrow> bool" where
  "may_gain E c k w j \<longleftrightarrow> j \<in> payees E w \<or> j = vault_key E k w \<and> (\<exists>a. c = Stake_Side a)"

definition may_lose ::
  "env \<Rightarrow> pubkey set \<Rightarrow> call \<Rightarrow> world \<Rightarrow> pubkey \<Rightarrow> wager \<Rightarrow> pubkey \<Rightarrow> bool" where
  "may_lose E sg c W k w j \<longleftrightarrow> j = vault_key E k w \<or>
    (\<exists>a v. c = Stake_Side a \<and> tokens (ledger W) j = Some v \<and> t_owner v \<in> sg \<and>
      is_participant w (t_owner v))"

definition moves ::
  "env \<Rightarrow> pubkey set \<Rightarrow> call \<Rightarrow> world \<Rightarrow> world \<Rightarrow> pubkey \<Rightarrow> wager \<Rightarrow> bool" where
  "moves E sg c W W' k w \<longleftrightarrow> (\<forall>j.
    (amount_at (tokens (ledger W)) j < amount_at (tokens (ledger W')) j \<longrightarrow> may_gain E c k w j) \<and>
    (amount_at (tokens (ledger W')) j < amount_at (tokens (ledger W)) j \<longrightarrow> may_lose E sg c W k w j))"

lemma token_data_gone: "token_data T' k = None \<Longrightarrow> amount_at T' k = 0"
  by (simp add: token_data_None)

lemma participant_payee:
  "is_participant w s \<Longrightarrow> ata_address E s (w_mint w) \<in> payees E w"
  by (auto simp: is_participant_def payees_def)

lemma leaves_participant: "leaves s w w' \<Longrightarrow> is_participant w s"
  by (auto simp: leaves_def is_participant_def)

lemma settles_moves:
  assumes s: "settles E W k winner W'" and k: "accts W k = Some (WagerAcc w)"
  shows "moves E sg c W W' k w"
proof -
  let ?V = "vault_key E k w"
  have win: "is_participant w winner"
    and d: "token_data (tokens (ledger W')) = (token_data (tokens (ledger W)))(?V := None)"
    using s k by (auto simp: settles_def Let_def)
  obtain p h where am: "\<And>j. j \<noteq> ?V \<Longrightarrow> amount_at (tokens (ledger W')) j =
      amount_at (tokens (ledger W)) j + (if j = ata_address E winner (w_mint w) then p else 0) +
        (if j = w_fee_destination w then h else 0)"
    using s k by (auto simp: settles_def Let_def)
  have z: "amount_at (tokens (ledger W')) ?V = 0" using d by (simp add: token_data_gone)
  show ?thesis
    unfolding moves_def may_gain_def may_lose_def
  proof (intro allI conjI impI, goal_cases)
    case (1 j)
    with z am [of j] participant_payee [OF win, of E] show ?case
      by (cases "j = ?V") (auto simp: payees_def split: if_splits)
  next
    case (2 j)
    with am [of j] show ?case by (cases "j = ?V") auto
  qed
qed

lemma returns_stake_moves:
  assumes s: "returns_stake E W k s w' W'" and k: "accts W k = Some (WagerAcc w)"
  shows "moves E sg c W W' k w"
proof -
  let ?V = "vault_key E k w" and ?A = "ata_address E s (w_mint w)"
  have part: "is_participant w s"
    using s k leaves_participant by (auto simp: returns_stake_def)
  have V: "amount_at (tokens (ledger W')) ?V \<le> amount_at (tokens (ledger W)) ?V"
    and A: "amount_at (tokens (ledger W)) ?A \<le> amount_at (tokens (ledger W')) ?A"
    and other: "\<And>j. j \<noteq> ?V \<Longrightarrow> j \<noteq> ?A \<Longrightarrow> tokens (ledger W') j = tokens (ledger W) j"
    using s k by (auto simp: returns_stake_def Let_def)
  have eq: "amount_at (tokens (ledger W')) j = amount_at (tokens (ledger W)) j"
    if "j \<noteq> ?V" "j \<noteq> ?A" for j
    using other [OF that] by (simp add: amount_at_def)
  show ?thesis
    unfolding moves_def may_gain_def may_lose_def
  proof (intro allI conjI impI, goal_cases)
    case (1 j)
    with V eq [of j] participant_payee [OF part] show ?case
      by (cases "j = ?V"; cases "j = ?A") auto
  next
    case (2 j)
    with A eq [of j] show ?case by (cases "j = ?V"; cases "j = ?A") auto
  qed
qed

lemma takes_stake_moves:
  assumes s: "takes_stake E W k s from W'" and k: "accts W k = Some (WagerAcc w)"
    and st: "tokens (ledger W) from = Some st" "t_owner st = s" "s \<in> sg"
  shows "moves E sg (Stake_Side a) W W' k w"
proof -
  let ?V = "vault_key E k w"
  have part: "is_participant w s"
    using s k terms_of_eqD(1,2) [OF stake_in_terms [of s w]]
    by (auto simp: takes_stake_def leaves_def is_participant_def)
  have V: "amount_at (tokens (ledger W)) ?V \<le> amount_at (tokens (ledger W')) ?V"
    and A: "amount_at (tokens (ledger W')) from \<le> amount_at (tokens (ledger W)) from"
    and other: "\<And>j. j \<noteq> ?V \<Longrightarrow> j \<noteq> from \<Longrightarrow> tokens (ledger W') j = tokens (ledger W) j"
    using s k by (auto simp: takes_stake_def Let_def)
  have eq: "amount_at (tokens (ledger W')) j = amount_at (tokens (ledger W)) j"
    if "j \<noteq> ?V" "j \<noteq> from" for j
    using other [OF that] by (simp add: amount_at_def)
  show ?thesis
    unfolding moves_def may_gain_def may_lose_def
  proof (intro allI conjI impI, goal_cases)
    case (1 j)
    with A eq [of j] show ?case by (cases "j = ?V"; cases "j = from") auto
  next
    case (2 j)
    with V eq [of j] st part show ?case by (cases "j = ?V"; cases "j = from") auto
  qed
qed

lemma moves_same: "tokens (ledger W') = tokens (ledger W) \<Longrightarrow> moves E sg c W W' k w"
  by (simp add: moves_def)

context chain
begin

lemma cancel_accept_moves:
  assumes inv: "inv E W" and run: "handle_cancel_accept E sg a W = Inr W'"
    and k: "accts W (ac_wager a) = Some (WagerAcc w)" and token: "w_mint w \<noteq> native_mint E"
  shows "moves E sg c W W' (ac_wager a) w"
proof -
  let ?V = "vault_key E (ac_wager a) w" and ?T = "tokens (ledger W)" and ?T' = "tokens (ledger W')"
  note eff = cancel_accept_effect [OF inv run k token]
  have z: "amount_at ?T' ?V = 0" using eff by (simp add: token_data_gone)
  obtain h where am: "\<And>j. j \<noteq> ?V \<Longrightarrow> amount_at ?T' j = amount_at ?T j +
      (if j = ata_address E (w_side_a w) (w_mint w) then unat (w_stake w) else 0) +
      (if j = ata_address E (w_side_b w) (w_mint w) then unat (w_stake w) else 0) +
      (if j = w_fee_destination w then h else 0)"
    using eff by blast
  show ?thesis
    unfolding moves_def may_gain_def may_lose_def
  proof (intro allI conjI impI, goal_cases)
    case (1 j)
    with z am [of j] show ?case by (cases "j = ?V") (auto simp: payees_def split: if_splits)
  next
    case (2 j)
    with am [of j] show ?case by (cases "j = ?V") auto
  qed
qed

lemma close_expired_moves:
  assumes inv: "inv E W" and run: "handle_close_expired E sg a W = Inr W'"
    and k: "accts W (ce_wager a) = Some (WagerAcc w)" and token: "w_mint w \<noteq> native_mint E"
  shows "moves E sg c W W' (ce_wager a) w"
proof -
  let ?V = "vault_key E (ce_wager a) w" and ?T = "tokens (ledger W)" and ?T' = "tokens (ledger W')"
  note eff = close_expired_effect [OF inv run k token]
  have z: "amount_at ?T' ?V = 0" using eff by (simp add: token_data_gone)
  obtain h where am: "\<And>j. j \<noteq> ?V \<Longrightarrow> amount_at ?T' j = amount_at ?T j +
      (if j = w_fee_destination w then h else 0)"
    using eff by blast
  show ?thesis
    unfolding moves_def may_gain_def may_lose_def
  proof (intro allI conjI impI, goal_cases)
    case (1 j)
    with z am [of j] show ?case by (cases "j = ?V") (auto simp: payees_def split: if_splits)
  next
    case (2 j)
    with am [of j] show ?case by (cases "j = ?V") auto
  qed
qed

text \<open>Calls that name no wager, and the creation of one, move nothing.\<close>

lemma admin_calls_tokens:
  assumes "exec E sg c W = Inr W'" "call_wager c = None"
  shows "tokens (ledger W') = tokens (ledger W)"
proof (cases c)
  case (Initialize_Config a args)
  with assms(1) have run: "handle_initialize_config E sg a args W = Inr W'" by simp
  show ?thesis by (rule initialize_config_success [OF run]) (auto dest: create_account_effect)
next
  case (Update_Config a args)
  with assms(1) have run: "handle_update_config E sg a args W = Inr W'" by simp
  show ?thesis by (rule update_config_success [OF run]) simp
next
  case (Propose_Admin a n)
  with assms(1) have run: "handle_propose_admin E sg a n W = Inr W'" by simp
  show ?thesis
    by (rule propose_admin_success [OF run])
      (auto simp: validate_propose_admin_Inr init_if_needed_transfer_Inr dest: create_account_effect)
next
  case (Accept_Admin a)
  with assms(1) have run: "handle_accept_admin E sg a W = Inr W'" by simp
  show ?thesis by (rule accept_admin_success [OF run]) simp
next
  case (Cancel_Admin_Transfer a)
  with assms(1) have run: "handle_cancel_admin_transfer E sg a W = Inr W'" by simp
  show ?thesis by (rule cancel_admin_transfer_success [OF run]) simp
qed (use assms(2) in simp_all)

lemma create_wager_tokens:
  assumes inv: "inv E W" and run: "handle_create_wager E sg a args W = Inr W'"
    and token: "token_stakes E W"
  shows "amount_at (tokens (ledger W')) j = amount_at (tokens (ledger W)) j"
    and "tokens (ledger W) j = Some v \<Longrightarrow> tokens (ledger W') j = Some v"
proof -
  obtain c W1 W2 where cfg: "accts W (cw_config a) = Some (ConfigAcc c)" and mint: "cw_mint a = c_mint c"
    and i1: "init_account E (cw_payer a) (cw_wager a) (8 + WAGER_INIT_SPACE) W = Inr W1"
    and i2: "init_if_needed_ata E (cw_payer a) (cw_vault a) (cw_mint a) (cw_wager a) W1 = Inr W2"
    and W': "ledger W' = ledger W2"
    by (rule create_wager_success [OF run]) (auto simp: validate_create_wager_Inr)
  have nn: "cw_mint a \<noteq> native_mint E"
    using inv cfg mint token by (auto simp: inv_def config_ok_def token_stakes_def)
  from i1 have t1: "tokens (ledger W1) = tokens (ledger W)"
    by (auto simp: init_account_Inr dest: create_account_effect)
  show "amount_at (tokens (ledger W')) j = amount_at (tokens (ledger W)) j"
    and "tokens (ledger W) j = Some v \<Longrightarrow> tokens (ledger W') j = Some v"
    using i2 t1 W' nn
    by (auto simp: init_if_needed_ata_Inr dest!: create_ata_effect)
qed

text \<open>All the calls that name a wager.\<close>

lemma call_moves:
  assumes inv: "inv E W" and real: "real_signers E sg" and token: "token_stakes E W"
    and run: "exec E sg c W = Inr W'"
    and k: "call_wager c = Some k" "accts W k = Some (WagerAcc w)"
  shows "moves E sg c W W' k w"
proof -
  have nn: "w_mint w \<noteq> native_mint E"
    using inv k(2) token unfolding inv_def wagers_ok_def token_stakes_def by metis
  show ?thesis
  proof (cases c)
    case (Create_Wager a args)
    with run have "handle_create_wager E sg a args W = Inr W'" by simp
    then show ?thesis
      by (rule create_wager_success)
        (use k Create_Wager in \<open>auto dest!: create_wager_accts(2)\<close>)
  next
    case (Stake_Side a)
    with run k stake_side_effect [OF real inv, of a W' w] takes_stake_moves show ?thesis by fastforce
  next
    case (Unstake_Side a)
    with run k unstake_side_effect [OF inv, of sg a W' w] returns_stake_moves show ?thesis by auto
  next
    case (Resolve a winner)
    with run k nn resolve_effect [OF inv, of sg a winner W' w] settles_moves show ?thesis by auto
  next
    case (Concede a)
    with run k nn concede_effect [OF inv, of sg a W' w] settles_moves show ?thesis by auto
  next
    case (Refund_Side a)
    with run k refund_side_effect [OF inv, of sg a W' w] returns_stake_moves show ?thesis by auto
  next
    case (Cancel_Propose a)
    with run have "handle_cancel_propose E sg a W = Inr W'" by simp
    then show ?thesis by (rule cancel_propose_success) (simp add: moves_same)
  next
    case (Cancel_Clear a)
    with run have "handle_cancel_clear E sg a W = Inr W'" by simp
    then show ?thesis by (rule cancel_clear_success) (simp add: moves_same)
  next
    case (Cancel_Accept a)
    with run k nn cancel_accept_moves [OF inv, of sg a W' w] show ?thesis by auto
  next
    case (Close_Expired a)
    with run k nn close_expired_moves [OF inv, of sg a W' w] show ?thesis by auto
  qed (use k in simp_all)
qed

lemma exec_names_wager:
  assumes "exec E sg c W = Inr W'" "call_wager c = Some k" "\<And>a args. c \<noteq> Create_Wager a args"
  obtains w where "accts W k = Some (WagerAcc w)"
  using assms
  by (cases c) (auto elim!: stake_side_success unstake_side_success resolve_success concede_success
      refund_side_success cancel_propose_success cancel_clear_success cancel_accept_success
      close_expired_success simp: validate_stake_side_Inr validate_unstake_side_Inr
      validate_resolve_Inr validate_concede_Inr validate_refund_side_Inr
      validate_cancel_propose_Inr validate_cancel_clear_Inr validate_cancel_accept_Inr
      validate_close_expired_Inr)

lemma balances_move:
  assumes inv: "inv E W" and real: "real_signers E sg" and token: "token_stakes E W"
    and run: "exec E sg c W = Inr W'"
    and change: "amount_at (tokens (ledger W')) j \<noteq> amount_at (tokens (ledger W)) j"
  obtains k w where "call_wager c = Some k" "accts W k = Some (WagerAcc w)" "moves E sg c W W' k w"
proof -
  have "call_wager c \<noteq> None" using admin_calls_tokens [OF run] change by metis
  then obtain k where k: "call_wager c = Some k" by blast
  have "c \<noteq> Create_Wager a args" for a args
    using run change create_wager_tokens(1) [OF inv _ token] by auto
  with exec_names_wager [OF run k] obtain w where w: "accts W k = Some (WagerAcc w)" by blast
  with call_moves [OF inv real token run k w] k that show thesis by blast
qed

text \<open>A vault loses only to a call that names its wager.\<close>

lemma vault_loses_by_name:
  assumes inv: "inv E W" and real: "real_signers E sg" and token: "token_stakes E W"
    and run: "exec E sg c W = Inr W'" and k: "accts W k = Some (WagerAcc w)"
    and loss: "amount_at (tokens (ledger W')) (vault_key E k w) <
      amount_at (tokens (ledger W)) (vault_key E k w)"
  shows "call_wager c = Some k"
proof -
  obtain i u where i: "call_wager c = Some i" "accts W i = Some (WagerAcc u)" "moves E sg c W W' i u"
    by (rule balances_move [OF inv real token run, of "vault_key E k w"]) (use loss in auto)
  have "vault_ok E (tokens (ledger W)) k w" "vault_ok E (tokens (ledger W)) i u"
    and pda: "is_pda E k"
    using inv k i(2) by (auto simp: inv_def vaults_ok_def wagers_ok_def is_pda_def)
  then obtain v v' where v: "tokens (ledger W) (vault_key E k w) = Some v" "t_owner v = k"
    and v': "tokens (ledger W) (vault_key E i u) = Some v'" "t_owner v' = i"
    by (metis vault_okE)
  have "may_lose E sg c W i u (vault_key E k w)" using i(3) loss by (simp add: moves_def)
  then have "vault_key E k w = vault_key E i u \<or> k \<in> sg" using v by (auto simp: may_lose_def)
  with real pda v v' i(1) show ?thesis by (auto simp: real_signers_def)
qed

end

section \<open>A participant's own money\<close>

text \<open>A participant wins at least the stake: the fee is at most a tenth of the pot.\<close>

lemma payout_covers_stake:
  assumes "terms_wf w"
  shows "unat (w_stake w) \<le>
    2 * unat (w_stake w) - fee_of (unat (w_stake w)) (unat (w_fee_bps w))"
  using fee_of_le [of "unat (w_fee_bps w)" "unat (w_stake w)"] assms by (simp add: terms_wf_def)

lemma settles_pays:
  assumes s: "settles E W k winner W'" and k: "accts W k = Some (WagerAcc w)" and wf: "terms_wf w"
    and ne: "ata_address E winner (w_mint w) \<noteq> vault_key E k w"
  shows "amount_at (tokens (ledger W)) (ata_address E winner (w_mint w)) + unat (w_stake w) \<le>
    amount_at (tokens (ledger W')) (ata_address E winner (w_mint w))"
proof -
  let ?p = "2 * unat (w_stake w) - fee_of (unat (w_stake w)) (unat (w_fee_bps w))"
  obtain h where "\<And>j. j \<noteq> vault_key E k w \<Longrightarrow> amount_at (tokens (ledger W')) j =
      amount_at (tokens (ledger W)) j + (if j = ata_address E winner (w_mint w) then ?p else 0) +
        (if j = w_fee_destination w then h else 0)"
    using s k by (auto simp: settles_def Let_def)
  from this [OF ne] payout_covers_stake [OF wf] show ?thesis by simp
qed

text \<open>The other participant's steps leave a side in.\<close>

lemma other_side_stays:
  assumes "side_in s w" "is_participant w s" "is_participant w r" "r \<noteq> s"
  shows "side_in s (stake_in r w)" "side_in s (stake_out r w)" "side_in s (mark_refunded r w)"
  using assms
  by (auto simp: side_in_def stake_in_def stake_out_def mark_refunded_def Let_def open_a_def
      open_b_def is_participant_def split: if_splits)

lemma proposal_side_in [simp]: "side_in s (w\<lparr>w_cancel_proposed_by := p\<rparr>) = side_in s w"
  by (simp add: side_in_def open_a_def open_b_def)

lemma stake_side_wager:
  assumes run: "handle_stake_side E sg a W = Inr W'" and k: "accts W (ss_wager a) = Some (WagerAcc w)"
  shows "accts W' (ss_wager a) = Some (WagerAcc (stake_in (ss_staker a) w))"
    and "is_participant w (ss_staker a)" and "ss_staker a \<in> sg"
  by (rule stake_side_success [OF run];
      use k in \<open>force simp: validate_stake_side_Inr init_if_needed_counter_Inr\<close>)+

context chain
begin

text \<open>
  A side whose stake was in and is in no longer has it back, unless the resolver signed or the
  side itself did.
\<close>

lemma stake_comes_back:
  assumes inv: "inv E W" and token: "token_stakes E W"
    and run: "exec E sg c W = Inr W'" and k: "accts W k = Some (WagerAcc w)"
    and s: "is_participant w s" "side_in s w"
    and out: "\<And>w'. accts W' k = Some (WagerAcc w') \<Longrightarrow> \<not> side_in s w'"
    and unsigned: "w_resolver w \<notin> sg" "s \<notin> sg"
  shows "amount_at (tokens (ledger W)) (ata_address E s (w_mint w)) + unat (w_stake w) \<le>
    amount_at (tokens (ledger W')) (ata_address E s (w_mint w))"
proof -
  have wf: "terms_wf w" using inv k by (auto simp: inv_def wagers_ok_def)
  have nn: "w_mint w \<noteq> native_mint E"
    using inv k token unfolding inv_def wagers_ok_def token_stakes_def by metis
  note f = exec_follows [OF run k]
  have named: "call_wager c = Some k"
  proof (rule ccontr)
    assume "call_wager c \<noteq> Some k"
    with f k out s(2) show False by simp
  qed
  note stays = other_side_stays [OF s(2,1)]
  show ?thesis
  proof (cases c)
    case (Create_Wager a args)
    with run have "handle_create_wager E sg a args W = Inr W'" by simp
    then show ?thesis
      by (rule create_wager_success) (use named k Create_Wager in \<open>auto dest!: create_wager_accts(2)\<close>)
  next
    case (Stake_Side a)
    with run named k have "accts W' k = Some (WagerAcc (stake_in (ss_staker a) w))"
      "is_participant w (ss_staker a)" "ss_staker a \<in> sg"
      using stake_side_wager [of E sg a W W' w] by auto
    with out stays(1) [of "ss_staker a"] unsigned(2) show ?thesis by blast
  next
    case (Unstake_Side a)
    with run named k have "accts W' k = Some (WagerAcc (stake_out (us_staker a) w))"
      "is_participant w (us_staker a)" "us_staker a \<in> sg"
      using unstake_side_effect [OF inv, of sg a W' w]
      by (auto simp: returns_stake_def dest: leaves_participant)
    with out stays(2) [of "us_staker a"] unsigned(2) show ?thesis by blast
  next
    case (Resolve a winner)
    with run named k nn resolve_effect [OF inv, of sg a winner W' w] unsigned show ?thesis by auto
  next
    case (Concede a)
    with run have run': "handle_concede E sg a W = Inr W'" by simp
    with Concede named k nn have eff: "settles E W k (counterparty w (cc_conceder a)) W'"
      "cc_conceder a \<in> sg" "is_participant w (cc_conceder a)"
      using concede_effect [OF inv run'] by auto
    then have win: "counterparty w (cc_conceder a) = s"
      using s(1) unsigned(2) by (auto simp: is_participant_def counterparty_def split: if_splits)
    have "ata_address E s (w_mint w) \<noteq> vault_key E k w"
      by (rule concede_success [OF run'])
        (use Concede named k win in \<open>auto simp: validate_concede_Inr mut_guard_iff\<close>)
    from settles_pays [OF eff(1) k wf] this win show ?thesis by simp
  next
    case (Refund_Side a)
    with run named k have eff: "returns_stake E W k (rf_side a) (mark_refunded (rf_side a) w) W'"
      "is_participant w (rf_side a)"
      using refund_side_effect [OF inv, of sg a W' w] by auto
    have "rf_side a = s"
      using eff out stays(3) [of "rf_side a"] by (auto simp: returns_stake_def)
    with eff k show ?thesis by (auto simp: returns_stake_def Let_def)
  next
    case (Cancel_Propose a)
    with run have run': "handle_cancel_propose E sg a W = Inr W'" by simp
    show ?thesis
      by (rule cancel_propose_success [OF run'])
        (use k named s(2) out Cancel_Propose in \<open>auto simp: validate_cancel_propose_Inr\<close>)
  next
    case (Cancel_Clear a)
    with run have run': "handle_cancel_clear E sg a W = Inr W'" by simp
    show ?thesis
      by (rule cancel_clear_success [OF run'])
        (use k named s(2) out Cancel_Clear in \<open>auto simp: validate_cancel_clear_Inr\<close>)
  next
    case (Cancel_Accept a)
    with run have run': "handle_cancel_accept E sg a W = Inr W'" by simp
    have "ata_address E s (w_mint w) \<noteq> vault_key E k w"
      by (rule cancel_accept_success [OF run'])
        (use Cancel_Accept named k s(1) in
          \<open>auto simp: validate_cancel_accept_Inr mut_guard_iff is_participant_def\<close>)
    with Cancel_Accept named k nn s(1) show ?thesis
      using cancel_accept_effect [OF inv run'] by (auto simp: is_participant_def)
  next
    case (Close_Expired a)
    with run have run': "handle_close_expired E sg a W = Inr W'" by simp
    show ?thesis
      by (rule close_expired_success [OF run'])
        (use k named s(2) Close_Expired in
          \<open>auto simp: validate_close_expired_Inr fully_exited_iff side_in_def split: if_splits\<close>)
  qed (use named in simp_all)
qed

section \<open>No token appears or disappears\<close>

lemma close_supply:
  assumes "spl_close_account E k d a L = Inr L'" "m \<noteq> native_mint E"
  shows "total_supply m (tokens L') = total_supply m (tokens L)"
proof -
  obtain v where "tokens L k = Some v" "t_amount v = 0 \<or> t_mint v = native_mint E"
    "tokens L' = (tokens L)(k := None)"
    by (rule closeE [OF assms(1)])
  with assms(2) show ?thesis
    by (auto simp: total_supply_def amount_of_mint_def intro!: sum.cong split: option.splits)
qed

lemma payment_supply:
  assumes "(if 0 < n then transfer_with_seeds E s a f t n L else Inr L) = Inr L'"
  shows "total_supply m (tokens L') = total_supply m (tokens L)"
  using assms transfer_supply by (auto simp: transfer_with_seeds_Inr split: if_splits)

lemma pay_winner_supply:
  assumes "pay_winner_and_close_vault E wk seeds vault wt ft rc p f L = Inr (surplus, L')"
    and "m \<noteq> native_mint E"
  shows "total_supply m (tokens L') = total_supply m (tokens L)"
proof -
  obtain L1 L2 L3 where
    "spl_transfer E vault wt wk p L = Inr L1"
    "(if 0 < f then transfer_with_seeds E seeds wk vault ft f L1 else Inr L1) = Inr L2"
    "(if 0 < surplus then transfer_with_seeds E seeds wk vault ft surplus L2 else Inr L2) = Inr L3"
    "spl_close_account E vault rc wk L3 = Inr L'"
    using assms(1) by (auto simp: pay_winner_and_close_vault_def Let_def result_simps)
  with transfer_supply payment_supply close_supply assms(2) show ?thesis by metis
qed

lemma create_wager_supply:
  assumes run: "handle_create_wager E sg a args W = Inr W'" and m: "m \<noteq> native_mint E"
  shows "total_supply m (tokens (ledger W')) = total_supply m (tokens (ledger W))"
proof -
  obtain W1 W2 where
    i1: "init_account E (cw_payer a) (cw_wager a) (8 + WAGER_INIT_SPACE) W = Inr W1"
    and i2: "init_if_needed_ata E (cw_payer a) (cw_vault a) (cw_mint a) (cw_wager a) W1 = Inr W2"
    and W': "ledger W' = ledger W2"
    by (rule create_wager_success [OF run]) (auto simp: validate_create_wager_Inr)
  from i1 have "tokens (ledger W1) = tokens (ledger W)"
    by (auto simp: init_account_Inr dest: create_account_effect)
  with i2 W' m show ?thesis
    by (auto simp: init_if_needed_ata_Inr total_supply_def amount_of_mint_def intro!: sum.cong
        dest!: create_ata_effect split: if_splits)
qed

lemma exec_supply:
  assumes run: "exec E sg c W = Inr W'" and m: "m \<noteq> native_mint E"
  shows "total_supply m (tokens (ledger W')) = total_supply m (tokens (ledger W))"
proof (cases "call_wager c = None")
  case True
  with admin_calls_tokens [OF run] show ?thesis by simp
next
  case False
  note kept = transfer_supply payment_supply close_supply [OF _ m] pay_winner_supply [OF _ m]
  show ?thesis
  proof (cases c)
    case (Create_Wager a args)
    with run create_wager_supply m show ?thesis by simp
  next
    case (Stake_Side a)
    with run have "handle_stake_side E sg a W = Inr W'" by simp
    then show ?thesis
      by (rule stake_side_success)
        (auto simp: validate_stake_side_Inr kept dest!: counter_ready(4))
  next
    case (Unstake_Side a)
    with run have "handle_unstake_side E sg a W = Inr W'" by simp
    then show ?thesis by (rule unstake_side_success) (simp add: kept)
  next
    case (Resolve a winner)
    with run have "handle_resolve E sg a winner W = Inr W'" by simp
    then show ?thesis by (rule resolve_success) (simp add: kept)
  next
    case (Concede a)
    with run have "handle_concede E sg a W = Inr W'" by simp
    then show ?thesis by (rule concede_success) (simp add: kept)
  next
    case (Refund_Side a)
    with run have "handle_refund_side E sg a W = Inr W'" by simp
    then show ?thesis by (rule refund_side_success) (simp add: kept)
  next
    case (Cancel_Propose a)
    with run have "handle_cancel_propose E sg a W = Inr W'" by simp
    then show ?thesis by (rule cancel_propose_success) simp
  next
    case (Cancel_Clear a)
    with run have "handle_cancel_clear E sg a W = Inr W'" by simp
    then show ?thesis by (rule cancel_clear_success) simp
  next
    case (Cancel_Accept a)
    with run have "handle_cancel_accept E sg a W = Inr W'" by simp
    then show ?thesis by (rule cancel_accept_success) (simp add: kept)
  next
    case (Close_Expired a)
    with run have "handle_close_expired E sg a W = Inr W'" by simp
    then show ?thesis by (rule close_expired_success) (simp add: kept)
  qed (use False in simp_all)
qed

end

end
