(* ===== verification/Exits.thy ===== *)
theory Exits
  imports Custody
begin

text \<open>
  The exits. The windows of the instructions do not overlap, and once its deadline has passed
  anyone can return every stake of a wager and close it, as far as the program goes: the checks of
  \<^verbatim>\<open>refund_side\<close> and \<^verbatim>\<open>close_expired\<close> that concern the program's own accounts always hold, so
  what can still stand in the way are the token accounts of others, and these are named.
\<close>

section \<open>Windows\<close>

text \<open>The permissionless instructions.\<close>

fun crank :: "call \<Rightarrow> bool" where
  "crank (Refund_Side a) \<longleftrightarrow> True"
| "crank (Close_Expired a) \<longleftrightarrow> True"
| "crank _ \<longleftrightarrow> False"

text \<open>The instructions bound to the time before a deadline.\<close>

fun timely :: "call \<Rightarrow> bool" where
  "timely (Stake_Side a) \<longleftrightarrow> True"
| "timely (Unstake_Side a) \<longleftrightarrow> True"
| "timely (Resolve a winner) \<longleftrightarrow> True"
| "timely (Concede a) \<longleftrightarrow> True"
| "timely (Cancel_Propose a) \<longleftrightarrow> True"
| "timely (Cancel_Accept a) \<longleftrightarrow> True"
| "timely _ \<longleftrightarrow> False"

lemma crank_late:
  assumes "exec E sg c W = Inr W'" "crank c" "call_wager c = Some k" "accts W k = Some (WagerAcc w)"
  shows "refund_due (clock W) w"
  using assms
  by (cases c) (auto elim!: refund_side_success close_expired_success simp: validate_refund_side_Inr
      validate_close_expired_Inr refund_due_def close_due_def)

lemma timely_early:
  assumes run: "exec E sg c W = Inr W'" and c: "timely c" "call_wager c = Some k"
    and k: "accts W k = Some (WagerAcc w)"
  shows "w_state w = Funding \<and> clock W \<le>s w_deadline_fund w \<or>
    w_state w = Active \<and> clock W \<le>s w_deadline_resolve w"
proof (cases c)
  case (Stake_Side a)
  with run have "handle_stake_side E sg a W = Inr W'" by simp
  then show ?thesis
    by (rule stake_side_success) (use c k Stake_Side in \<open>auto simp: validate_stake_side_Inr\<close>)
next
  case (Unstake_Side a)
  with run have "handle_unstake_side E sg a W = Inr W'" by simp
  then show ?thesis
    by (rule unstake_side_success) (use c k Unstake_Side in \<open>auto simp: validate_unstake_side_Inr\<close>)
next
  case (Resolve a winner)
  with run have "handle_resolve E sg a winner W = Inr W'" by simp
  then show ?thesis
    by (rule resolve_success) (use c k Resolve in \<open>auto simp: validate_resolve_Inr\<close>)
next
  case (Concede a)
  with run have "handle_concede E sg a W = Inr W'" by simp
  then show ?thesis
    by (rule concede_success) (use c k Concede in \<open>auto simp: validate_concede_Inr\<close>)
next
  case (Cancel_Propose a)
  with run have "handle_cancel_propose E sg a W = Inr W'" by simp
  then show ?thesis
    by (rule cancel_propose_success) (use c k Cancel_Propose in \<open>auto simp: validate_cancel_propose_Inr\<close>)
next
  case (Cancel_Accept a)
  with run have "handle_cancel_accept E sg a W = Inr W'" by simp
  then show ?thesis
    by (rule cancel_accept_success) (use c k Cancel_Accept in \<open>auto simp: validate_cancel_accept_Inr\<close>)
qed (use c in simp_all)

section \<open>The accounts of an exit\<close>

definition refund_accounts ::
  "env \<Rightarrow> pubkey \<Rightarrow> pubkey \<Rightarrow> wager \<Rightarrow> pubkey \<Rightarrow> refund_side_accounts" where
  "refund_accounts E cranker k w s =
    \<lparr>rf_cranker = cranker, rf_config = config_key E, rf_wager = k, rf_side = s,
     rf_side_token = ata_address E s (w_mint w), rf_counter = counter_key E s,
     rf_vault = vault_key E k w, rf_token_program = token_program_id E\<rparr>"

definition close_accounts ::
  "env \<Rightarrow> pubkey \<Rightarrow> pubkey \<Rightarrow> wager \<Rightarrow> bool \<Rightarrow> close_expired_accounts" where
  "close_accounts E cranker k w surplus =
    \<lparr>ce_cranker = cranker, ce_wager = k, ce_vault = vault_key E k w,
     ce_fee_token = (if surplus then Some (w_fee_destination w) else None),
     ce_rent_collector = w_rent_collector w, ce_token_program = token_program_id E\<rparr>"

lemma refund_accounts_simps [simp]:
  "rf_cranker (refund_accounts E cranker k w s) = cranker"
  "rf_config (refund_accounts E cranker k w s) = config_key E"
  "rf_wager (refund_accounts E cranker k w s) = k" "rf_side (refund_accounts E cranker k w s) = s"
  "rf_side_token (refund_accounts E cranker k w s) = ata_address E s (w_mint w)"
  "rf_counter (refund_accounts E cranker k w s) = counter_key E s"
  "rf_vault (refund_accounts E cranker k w s) = vault_key E k w"
  "rf_token_program (refund_accounts E cranker k w s) = token_program_id E"
  by (simp_all add: refund_accounts_def)

lemma close_accounts_simps [simp]:
  "ce_cranker (close_accounts E cranker k w b) = cranker"
  "ce_wager (close_accounts E cranker k w b) = k"
  "ce_vault (close_accounts E cranker k w b) = vault_key E k w"
  "ce_fee_token (close_accounts E cranker k w b) = (if b then Some (w_fee_destination w) else None)"
  "ce_rent_collector (close_accounts E cranker k w b) = w_rent_collector w"
  "ce_token_program (close_accounts E cranker k w b) = token_program_id E"
  by (simp_all add: close_accounts_def)

text \<open>A token account that can take a payment of the mint.\<close>

definition receives :: "(pubkey \<Rightarrow> token_account option) \<Rightarrow> pubkey \<Rightarrow> pubkey \<Rightarrow> bool" where
  "receives T m j \<longleftrightarrow> (\<exists>t. T j = Some t \<and> t_mint t = m \<and> \<not> t_frozen t)"

text \<open>
  What an exit needs of accounts outside the program: each side that is in has its token
  account, thawed; the vault is thawed and nobody else can close it; the mint's supply fits
  its 64 bits; the pinned collector is neither the wager nor the vault; and if the vault holds
  more than the stakes, the pinned fee account can take the surplus.
\<close>

definition exit_ready :: "env \<Rightarrow> world \<Rightarrow> pubkey \<Rightarrow> wager \<Rightarrow> bool" where
  "exit_ready E W k w \<longleftrightarrow>
    (let T = tokens (ledger W); V = vault_key E k w in
     (\<forall>s \<in> {w_side_a w, w_side_b w}. side_in s w \<longrightarrow>
        receives T (w_mint w) (ata_address E s (w_mint w)) \<and>
        (\<exists>t. T (ata_address E s (w_mint w)) = Some t \<and> t_owner t = s)) \<and>
     receives T (w_mint w) V \<and> (\<exists>v. T V = Some v \<and> t_close_authority v = None) \<and>
     (owed w < amount_at T V \<longrightarrow>
        receives T (w_mint w) (w_fee_destination w) \<and> w_fee_destination w \<noteq> V) \<and>
     total_supply (w_mint w) T < 2 ^ 64 \<and> w_rent_collector w \<notin> {k, V})"

lemma receives_cong: "token_data T' = token_data T \<Longrightarrow> receives T' m j = receives T m j"
  unfolding receives_def by (metis token_data_Some)

lemma token_data_owner:
  "token_data T' = token_data T \<Longrightarrow> (\<exists>t. T' j = Some t \<and> t_owner t = x) =
    (\<exists>t. T j = Some t \<and> t_owner t = x)"
  by (metis token_data_Some)

lemma token_data_authority:
  "token_data T' = token_data T \<Longrightarrow> (\<exists>t. T' j = Some t \<and> t_close_authority t = x) =
    (\<exists>t. T j = Some t \<and> t_close_authority t = x)"
  by (metis token_data_Some)

text \<open>Two accounts of a mint hold no more than its supply.\<close>

lemma supply_ge_two:
  assumes "i \<noteq> j"
  shows "amount_of_mint m T i + amount_of_mint m T j \<le> total_supply m T"
proof -
  have "(\<Sum>k\<in>{i, j}. amount_of_mint m T k) \<le> (\<Sum>k\<in>UNIV. amount_of_mint m T k)"
    by (rule sum_mono2) auto
  with assms show ?thesis by (simp add: total_supply_def)
qed

lemma room_for:
  assumes "i \<noteq> j" "T i = Some u" "t_mint u = m" "T j = Some v" "t_mint v = m"
    and "n \<le> t_amount u" "total_supply m T < 2 ^ 64"
  shows "unat (t_amount v) + unat n < 2 ^ 64"
  using supply_ge_two [OF assms(1), of m T] assms by (simp add: amount_of_mint_def word_le_nat_alt)

lemma life_operative:
  assumes "life_wf E now w"
  shows "refund_due now w \<longleftrightarrow> operative_deadline w <s now"
    and "close_due now w \<longleftrightarrow> operative_deadline w <s now"
proof -
  have "w_state w = Funding \<or> w_state w = Active" using assms unfolding life_wf_def by blast
  then show "refund_due now w \<longleftrightarrow> operative_deadline w <s now"
    "close_due now w \<longleftrightarrow> operative_deadline w <s now"
    by (auto simp: refund_due_def close_due_def operative_deadline_def)
qed

lemma operative_cong:
  assumes "terms_of u = terms_of w" "w_state u = w_state w"
  shows "operative_deadline u = operative_deadline w"
  using assms(2) terms_of_eqD [OF assms(1)]
  by (cases "w_state w") (simp_all add: operative_deadline_def)

context chain
begin

lemma config_found:
  assumes "inv E W" "accts W k = Some (WagerAcc w)"
  obtains c where "accts W (config_key E) = Some (ConfigAcc c)"
    "pda_at E config_seeds (c_bump c) (config_key E)"
proof -
  have "wagers_ok E (clock W) (accts W)" "config_ok E (accts W)" using assms(1) by (simp_all add: inv_def)
  then obtain c where c: "accts W (config_key E) = Some (ConfigAcc c)"
    "c_bump c = snd (find_pda E config_seeds)"
    using assms(2) by (fastforce simp: wagers_ok_def config_ok_def)
  moreover have "create_pda E (config_seeds @ [[snd (find_pda E config_seeds)]]) =
      Some (config_key E)"
    by (rule find_create) (simp add: config_key_def)
  ultimately show thesis using that by (simp add: pda_at_def)
qed

text \<open>A side that is in has its counter, and the stored bump derives it.\<close>

lemma own_counter:
  assumes inv: "inv E W" and k: "accts W k = Some (WagerAcc w)"
    and s: "is_participant w s" "side_in s w"
  obtains x where "accts W (counter_key E s) = Some (CounterAcc x)"
    "pda_at E (counter_seeds s) (x_bump x) (counter_key E s)"
proof -
  have "1 \<le> exposure E (counter_key E s) w"
    using s by (auto simp: exposure_def is_participant_def side_in_def split: if_splits)
  also have "\<dots> \<le> count_of (accts W (counter_key E s))"
    using inv books_count [of E "accts W" k w] k by (simp add: inv_def)
  finally obtain x where x: "accts W (counter_key E s) = Some (CounterAcc x)"
    using count_of_pos [of "accts W (counter_key E s)"] by auto
  moreover have "counters_ok E (accts W)" using inv by (simp add: inv_def)
  ultimately obtain s' where s': "counter_key E s = counter_key E s'"
    "x_bump x = snd (find_pda E (counter_seeds s'))"
    by (auto simp: counters_ok_def)
  have "create_pda E (counter_seeds s @ [[snd (find_pda E (counter_seeds s))]]) =
      Some (counter_key E s)"
    by (rule find_create) (simp add: counter_key_def)
  moreover have "x_bump x = snd (find_pda E (counter_seeds s))"
    using s'(2) counter_bumps [OF s'(1)] by simp
  ultimately show thesis using that [OF x] by (simp add: pda_at_def)
qed

lemma side_not_vault:
  assumes inv: "inv E W" and k: "accts W k = Some (WagerAcc w)"
    and s: "is_participant w s" "side_in s w" and t: "tokens (ledger W) j = Some t" "t_owner t = s"
  shows "j \<noteq> vault_key E k w"
proof
  assume j: "j = vault_key E k w"
  have "vault_ok E (tokens (ledger W)) k w" and "is_pda E k" and life: "life_wf E (clock W) w"
    using inv k by (auto simp: inv_def vaults_ok_def wagers_ok_def is_pda_def)
  moreover have "\<not> is_pda E s"
    using life s by (auto simp: life_wf_def side_in_def is_participant_def open_a_def open_b_def
        split: if_splits)
  ultimately show False using t j by (auto elim!: vault_okE)
qed

lemma side_stake_owed: "side_in s w \<Longrightarrow> unat (w_stake w) \<le> owed w"
  by (auto simp: side_in_def owed_def split: if_splits)

text \<open>After the deadline anyone can return a stake.\<close>

lemma refund_possible:
  assumes inv: "inv E W" and k: "accts W k = Some (WagerAcc w)"
    and late: "operative_deadline w <s clock W" and s: "is_participant w s" "side_in s w"
    and ready: "exit_ready E W k w" and sg: "cranker \<in> sg"
  shows "\<exists>W'. handle_refund_side E sg (refund_accounts E cranker k w s) W = Inr W'"
proof -
  let ?a = "refund_accounts E cranker k w s" and ?V = "vault_key E k w"
    and ?A = "ata_address E s (w_mint w)" and ?T = "tokens (ledger W)"
  have life: "life_wf E (clock W) w" and seeds: "create_pda E (signer_seeds w) = Some k"
    and vt: "vault_ok E ?T k w" and ap: "apart W"
    using inv k by (auto simp: inv_def wagers_ok_def vaults_ok_def)
  obtain c where c: "accts W (config_key E) = Some (ConfigAcc c)"
    "pda_at E config_seeds (c_bump c) (config_key E)"
    by (rule config_found [OF inv k])
  obtain x where x: "accts W (counter_key E s) = Some (CounterAcc x)"
    "pda_at E (counter_seeds s) (x_bump x) (counter_key E s)"
    by (rule own_counter [OF inv k s])
  obtain t where t: "?T ?A = Some t" "t_owner t = s" "t_mint t = w_mint w" "\<not> t_frozen t"
    using ready s by (auto simp: exit_ready_def Let_def receives_def is_participant_def)
  obtain v where v: "?T ?V = Some v" "t_owner v = k" "t_mint v = w_mint w" "owed w \<le> unat (t_amount v)"
    by (rule vault_okE [OF vt])
  have thawed: "\<not> t_frozen v" and total: "total_supply (w_mint w) ?T < 2 ^ 64"
    using ready v(1) by (auto simp: exit_ready_def Let_def receives_def)
  have ne: "?A \<noteq> ?V" by (rule side_not_vault [OF inv k s t(1,2)])
  have le: "w_stake w \<le> t_amount v"
    using side_stake_owed [OF s(2)] v(4) by (simp add: word_le_nat_alt)
  have tokenless: "accts W ?A = None" "accts W ?V = None"
    using ap t(1) v(1) by (auto simp: apart_def)
  have "distinct [config_key E, k, ?A, counter_key E s, ?V]"
    using k c(1) x(1) tokenless ne by auto
  then have val: "validate_refund_side E sg ?a W = Inr (c, w, x)"
    using sg k c x t v seeds by (simp add: validate_refund_side_Inr mut_guard_iff)
  obtain L where L: "spl_transfer E ?V ?A k (w_stake w) (ledger W) = Inr L"
    using transfer_enabled [OF v(1) t(1) v(2) _ thawed t(4) le ne [symmetric]]
      room_for [OF ne [symmetric] v(1,3) t(1,3) le total] v(3) t(3) by auto
  have due: "refund_due (clock W) w" using late life_operative(1) [OF life] by simp
  show ?thesis
    using s due L seeds
    by (simp add: handle_refund_side_def val Let_def transfer_with_seeds_def
        side_in_def open_a_def open_b_def split: if_splits)
qed

text \<open>A refund leaves the other exits as ready as they were.\<close>

lemma refund_keeps_ready:
  assumes "exit_ready E W k w" "is_participant w s"
    and ret: "returns_stake E W k s (mark_refunded s w) W'" and k: "accts W k = Some (WagerAcc w)"
    and total: "total_supply (w_mint w) (tokens (ledger W')) = total_supply (w_mint w) (tokens (ledger W))"
  shows "exit_ready E W' k (mark_refunded s w)"
proof -
  let ?w = "mark_refunded s w"
  note tm = terms_of_eqD [OF mark_refunded_terms [of s w]]
  have d: "token_data (tokens (ledger W')) = token_data (tokens (ledger W))"
    and am: "amount_at (tokens (ledger W')) (vault_key E k w) + unat (w_stake w) =
      amount_at (tokens (ledger W)) (vault_key E k w)"
    and out: "owed ?w + unat (w_stake w) = owed w"
    using ret k leaves_owed by (auto simp: returns_stake_def Let_def)
  have V: "vault_key E k ?w = vault_key E k w" by (simp add: vault_key_def tm)
  have sides: "side_in r ?w \<Longrightarrow> side_in r w" for r
    by (auto simp: mark_refunded_def side_in_def open_a_def open_b_def split: if_splits)
  have surplus: "owed ?w < amount_at (tokens (ledger W')) (vault_key E k w) \<longleftrightarrow>
      owed w < amount_at (tokens (ledger W)) (vault_key E k w)"
    using am out by linarith
  show ?thesis
    using assms(1) sides
    unfolding exit_ready_def Let_def V tm surplus total receives_cong [OF d] token_data_owner [OF d]
      token_data_authority [OF d]
    by blast
qed

text \<open>When all sides are out, anyone can close.\<close>

lemma close_possible:
  assumes inv: "inv E W" and k: "accts W k = Some (WagerAcc w)"
    and late: "operative_deadline w <s clock W" and out: "fully_exited w"
    and ready: "exit_ready E W k w" and sg: "cranker \<in> sg"
  shows "\<exists>W'. handle_close_expired E sg (close_accounts E cranker k w
    (0 < amount_at (tokens (ledger W)) (vault_key E k w))) W = Inr W'"
proof -
  let ?V = "vault_key E k w" and ?T = "tokens (ledger W)" and ?F = "w_fee_destination w"
  have life: "life_wf E (clock W) w" and seeds: "create_pda E (signer_seeds w) = Some k"
    and vt: "vault_ok E ?T k w" and ap: "apart W"
    using inv k by (auto simp: inv_def wagers_ok_def vaults_ok_def)
  obtain v where v: "?T ?V = Some v" "t_owner v = k" "t_mint v = w_mint w"
    by (rule vault_okE [OF vt])
  have thawed: "\<not> t_frozen v" "t_close_authority v = None"
    and total: "total_supply (w_mint w) ?T < 2 ^ 64"
    and rc: "w_rent_collector w \<noteq> k" "w_rent_collector w \<noteq> ?V"
    using ready v(1) by (auto simp: exit_ready_def Let_def receives_def)
  have due: "close_due (clock W) w" using late life_operative(2) [OF life] by simp
  have kV: "k \<noteq> ?V" using ap k v(1) by (auto simp: apart_def)
  show ?thesis
  proof (cases "t_amount v = 0")
    case True
    have val: "validate_close_expired E sg (close_accounts E cranker k w False) W = Inr (w, v)"
      using sg k v seeds rc kV
      by (simp add: validate_close_expired_Inr mut_guard_iff)
    obtain L where "spl_close_account E ?V (w_rent_collector w) k (ledger W) = Inr L"
      using close_enabled [OF v(1,2) thawed(2) True thawed(1) rc(2)] by blast
    with due out seeds True v(1) show ?thesis
      by (simp add: handle_close_expired_def val Let_def close_with_seeds_def)
  next
    case False
    then have pos: "0 < t_amount v" by (simp add: word_gt_0)
    then have pos': "0 < amount_at ?T ?V" using v(1) by (simp add: word_less_nat_alt)
    have "owed w < amount_at ?T ?V" using pos' out by (simp add: fully_exited_owed)
    then obtain f where f: "?T ?F = Some f" "t_mint f = w_mint w" "\<not> t_frozen f" and ne: "?V \<noteq> ?F"
      using ready by (auto simp: exit_ready_def Let_def receives_def)
    have "accts W ?F = None" using ap f(1) by (auto simp: apart_def)
    then have "k \<noteq> ?F" using k by auto
    with ne have val: "validate_close_expired E sg (close_accounts E cranker k w True) W = Inr (w, v)"
      using sg k v seeds rc kV f(1)
      by (simp add: validate_close_expired_Inr mut_guard_iff)
    obtain L1 where L1: "spl_transfer E ?V ?F k (t_amount v) (ledger W) = Inr L1"
      using transfer_enabled [OF v(1) f(1) v(2) _ thawed(1) f(3) order_refl ne]
        room_for [OF ne v(1,3) f(1,2) order_refl total] v(3) f(2) by auto
    have "tokens L1 ?V = Some (v\<lparr>t_amount := 0\<rparr>)"
      using transfer_tokens [OF L1] move_tokens_from [of ?V ?F ?T v, OF ne v(1)] by simp
    from close_enabled [OF this, of k "w_rent_collector w"] v(2) thawed rc(2)
    obtain L2 where "spl_close_account E ?V (w_rent_collector w) k L1 = Inr L2" by auto
    with due out seeds pos pos' L1 show ?thesis
      by (simp add: handle_close_expired_def val Let_def close_with_seeds_def
          transfer_with_seeds_def)
  qed
qed

end

section \<open>Winding a wager up\<close>

text \<open>
  One transaction anyone can send: the refund of each side that is in, then the close. The
  close names the fee account when the vault holds more than the stakes.
\<close>

definition wind_up :: "env \<Rightarrow> pubkey \<Rightarrow> pubkey \<Rightarrow> wager \<Rightarrow> world \<Rightarrow> call list" where
  "wind_up E cranker k w W =
    (if open_a w then [Refund_Side (refund_accounts E cranker k w (w_side_a w))] else []) @
    (if open_b w then [Refund_Side (refund_accounts E cranker k w (w_side_b w))] else []) @
    [Close_Expired (close_accounts E cranker k w
      (owed w < amount_at (tokens (ledger W)) (vault_key E k w)))]"

lemma wind_up_length: "length (wind_up E cranker k w W) \<le> 3"
  by (simp add: wind_up_def)

lemma run_append:
  "run_transaction run E sg (cs @ ds) W =
    try_bind (run_transaction run E sg cs W) (run_transaction run E sg ds)"
proof (induction cs arbitrary: W)
  case (Cons c cs)
  then show ?case by (cases "run E sg c W") simp_all
qed simp

context chain
begin

text \<open>
  What holds on the way: the invariant, the wager as it became, and what is owed to each side
  has been added to its account.
\<close>

definition unwinding :: "world \<Rightarrow> pubkey \<Rightarrow> wager \<Rightarrow> world \<Rightarrow> wager \<Rightarrow> bool" where
  "unwinding W k w V u \<longleftrightarrow> inv E V \<and> accts V k = Some (WagerAcc u) \<and> exit_ready E V k u \<and>
    clock V = clock W \<and> terms_of u = terms_of w \<and> w_state u = w_state w \<and>
    amount_at (tokens (ledger V)) (vault_key E k w) + owed w =
      amount_at (tokens (ledger W)) (vault_key E k w) + owed u \<and>
    (\<forall>s \<in> {w_side_a w, w_side_b w}. side_in s w \<longrightarrow>
      amount_at (tokens (ledger W)) (ata_address E s (w_mint w)) +
        (if side_in s u then 0 else unat (w_stake w)) \<le>
      amount_at (tokens (ledger V)) (ata_address E s (w_mint w)))"

lemma unwinding_refl:
  "inv E W \<Longrightarrow> accts W k = Some (WagerAcc w) \<Longrightarrow> exit_ready E W k w \<Longrightarrow> unwinding W k w W w"
  by (simp add: unwinding_def)

lemma refund_unwinds:
  assumes start: "inv E W" "accts W k = Some (WagerAcc w)" "exit_ready E W k w"
    and late: "operative_deadline w <s clock W" and sg: "cranker \<in> sg"
    and u: "unwinding W k w V u" and s: "s \<in> {w_side_a w, w_side_b w}" "side_in s u" "side_in s w"
  shows "\<exists>V'. exec E sg (Refund_Side (refund_accounts E cranker k w s)) V = Inr V' \<and>
    unwinding W k w V' (mark_refunded s u)"
proof -
  let ?u = "mark_refunded s u" and ?V = "vault_key E k w" and ?A = "\<lambda>s. ata_address E s (w_mint w)"
  have V: "inv E V" "accts V k = Some (WagerAcc u)" "exit_ready E V k u" "clock V = clock W"
    and tm: "terms_of u = terms_of w" and st: "w_state u = w_state w"
    and kept: "amount_at (tokens (ledger V)) ?V + owed w = amount_at (tokens (ledger W)) ?V + owed u"
    and paid: "\<And>r. r \<in> {w_side_a w, w_side_b w} \<Longrightarrow> side_in r w \<Longrightarrow>
      amount_at (tokens (ledger W)) (?A r) + (if side_in r u then 0 else unat (w_stake w)) \<le>
      amount_at (tokens (ledger V)) (?A r)"
    using u unfolding unwinding_def by blast+
  note t = terms_of_eqD [OF tm]
  have part: "is_participant u s" using s(1) t by (simp add: is_participant_def)
  have late': "operative_deadline u <s clock V"
    using late V(4) operative_cong [OF tm st] by simp
  have acc: "refund_accounts E cranker k u s = refund_accounts E cranker k w s"
    and vk: "vault_key E k u = ?V"
    using t by (simp_all add: refund_accounts_def vault_key_def)
  obtain V' where run: "handle_refund_side E sg (refund_accounts E cranker k w s) V = Inr V'"
    using refund_possible [OF V(1,2) late' part s(2) V(3) sg] acc by auto
  have exec: "exec E sg (Refund_Side (refund_accounts E cranker k w s)) V = Inr V'" using run by simp
  have ret: "returns_stake E V k s ?u V'"
    using refund_side_effect [OF V(1) run] V(2) by simp
  have ready: "exit_ready E V' k ?u"
  proof (cases "w_mint u = native_mint E")
    case False
    from refund_keeps_ready [OF V(3) part ret V(2) exec_supply [OF exec False]] show ?thesis .
  next
    case True
    have "total_supply (w_mint u) (tokens (ledger V')) = total_supply (w_mint u) (tokens (ledger V))"
      by (rule refund_side_success [OF run]) (simp add: transfer_supply)
    from refund_keeps_ready [OF V(3) part ret V(2) this] show ?thesis .
  qed
  have am: "amount_at (tokens (ledger V')) ?V + unat (w_stake w) = amount_at (tokens (ledger V)) ?V"
    "amount_at (tokens (ledger V')) (?A s) = amount_at (tokens (ledger V)) (?A s) + unat (w_stake w)"
    "\<And>j. j \<noteq> ?V \<Longrightarrow> j \<noteq> ?A s \<Longrightarrow> tokens (ledger V') j = tokens (ledger V) j"
    and acc': "accts V' k = Some (WagerAcc ?u)" and clk: "clock V' = clock V"
    and out: "leaves s u ?u"
    using ret V(2) by (auto simp: returns_stake_def Let_def vk t)
  have "amount_at (tokens (ledger W)) (?A r) + (if side_in r ?u then 0 else unat (w_stake w)) \<le>
      amount_at (tokens (ledger V')) (?A r)" if r: "r \<in> {w_side_a w, w_side_b w}" "side_in r w" for r
  proof (cases "r = s")
    case True
    with paid [OF r] am(2) show ?thesis by simp
  next
    case False
    obtain x where "tokens (ledger W) (?A r) = Some x" "t_owner x = r"
      using start(3) r by (auto simp: exit_ready_def Let_def)
    from side_not_vault [OF start(1,2) _ r(2) this] r(1) have "?A r \<noteq> ?V"
      by (auto simp: is_participant_def)
    with am(2,3) have "amount_at (tokens (ledger V)) (?A r) \<le> amount_at (tokens (ledger V')) (?A r)"
      by (cases "?A r = ?A s") (auto simp: amount_at_def)
    moreover have "side_in r ?u = side_in r u"
      using False r(1) s(1) t
      by (auto simp: mark_refunded_def side_in_def open_a_def open_b_def)
    ultimately show ?thesis using paid [OF r] by simp
  qed
  moreover have "amount_at (tokens (ledger V')) ?V + owed w = amount_at (tokens (ledger W)) ?V + owed ?u"
    using kept am(1) leaves_owed [OF out] t by simp
  moreover have "inv E V'" by (rule refund_side_inv [OF V(1) run])
  ultimately have "unwinding W k w V' ?u"
    using ready acc' clk V(4) tm st by (simp add: unwinding_def mark_refunded_def)
  with exec show ?thesis by blast
qed

text \<open>The refunds of a wind-up, then its close.\<close>

lemma wind_up_refunds:
  assumes start: "inv E W" "accts W k = Some (WagerAcc w)" "exit_ready E W k w"
    and late: "operative_deadline w <s clock W" and sg: "cranker \<in> sg"
  obtains V u where "run_transaction exec E sg (butlast (wind_up E cranker k w W)) W = Inr V"
    "unwinding W k w V u" "fully_exited u"
proof -
  let ?R = "\<lambda>s. Refund_Side (refund_accounts E cranker k w s)"
  have ne: "w_side_a w \<noteq> w_side_b w"
    using start by (auto simp: inv_def wagers_ok_def terms_wf_def)
  have in_a: "side_in (w_side_a w) w = open_a w" and in_b: "side_in (w_side_b w) w = open_b w"
    using ne by (simp_all add: side_in_def)
  obtain V1 u1 where one: "run_transaction exec E sg (if open_a w then [?R (w_side_a w)] else []) W = Inr V1"
    "unwinding W k w V1 u1" "\<not> open_a u1" "open_b u1 = open_b w"
  proof (cases "open_a w")
    case True
    from refund_unwinds [OF start late sg unwinding_refl [OF start], of "w_side_a w"] True in_a
    obtain V1 where "exec E sg (?R (w_side_a w)) W = Inr V1"
      "unwinding W k w V1 (mark_refunded (w_side_a w) w)" by auto
    moreover have "\<not> open_a (mark_refunded (w_side_a w) w)"
      "open_b (mark_refunded (w_side_a w) w) = open_b w"
      by (simp_all add: mark_refunded_def open_a_def open_b_def)
    ultimately show thesis using that True by simp
  next
    case False
    with that unwinding_refl [OF start] show thesis by simp
  qed
  have tm: "terms_of u1 = terms_of w" using one(2) by (simp add: unwinding_def)
  note t = terms_of_eqD [OF tm]
  obtain V2 u2 where two: "run_transaction exec E sg (if open_b w then [?R (w_side_b w)] else []) V1 = Inr V2"
    "unwinding W k w V2 u2" "\<not> open_a u2" "\<not> open_b u2"
  proof (cases "open_b w")
    case True
    then have "side_in (w_side_b w) u1" using one(4) ne t by (simp add: side_in_def)
    with refund_unwinds [OF start late sg one(2), of "w_side_b w"] True in_b
    obtain V2 where "exec E sg (?R (w_side_b w)) V1 = Inr V2"
      "unwinding W k w V2 (mark_refunded (w_side_b w) u1)" by auto
    moreover have "\<not> open_a (mark_refunded (w_side_b w) u1)"
      "\<not> open_b (mark_refunded (w_side_b w) u1)"
      using one(3) ne t by (simp_all add: mark_refunded_def open_a_def open_b_def)
    ultimately show thesis using that True by simp
  next
    case False
    with that one show thesis by simp
  qed
  have "run_transaction exec E sg (butlast (wind_up E cranker k w W)) W = Inr V2"
    using one(1) two(1) by (simp add: wind_up_def butlast_append run_append)
  moreover have "fully_exited u2" using two(3,4) by (simp add: fully_exited_iff)
  ultimately show thesis using that two(2) by blast
qed

lemma wind_up_runs:
  assumes start: "inv E W" "accts W k = Some (WagerAcc w)" "exit_ready E W k w"
    and late: "operative_deadline w <s clock W" and sg: "cranker \<in> sg"
    and token: "w_mint w \<noteq> native_mint E"
  shows "\<exists>W'. run_transaction exec E sg (wind_up E cranker k w W) W = Inr W' \<and> accts W' k = None \<and>
    tokens (ledger W') (vault_key E k w) = None \<and>
    (\<forall>s \<in> {w_side_a w, w_side_b w}. side_in s w \<longrightarrow>
      amount_at (tokens (ledger W)) (ata_address E s (w_mint w)) + unat (w_stake w) \<le>
      amount_at (tokens (ledger W')) (ata_address E s (w_mint w)))"
proof -
  let ?V = "vault_key E k w" and ?cs = "butlast (wind_up E cranker k w W)"
    and ?b = "owed w < amount_at (tokens (ledger W)) (vault_key E k w)"
  obtain V u where refunds: "run_transaction exec E sg ?cs W = Inr V"
    and u: "unwinding W k w V u" and out: "fully_exited u"
    by (rule wind_up_refunds [OF start late sg])
  have V: "inv E V" "accts V k = Some (WagerAcc u)" "exit_ready E V k u" "clock V = clock W"
    "terms_of u = terms_of w" "w_state u = w_state w"
    "amount_at (tokens (ledger V)) ?V + owed w = amount_at (tokens (ledger W)) ?V + owed u"
    and paid: "\<forall>s \<in> {w_side_a w, w_side_b w}. side_in s w \<longrightarrow>
      amount_at (tokens (ledger W)) (ata_address E s (w_mint w)) +
        (if side_in s u then 0 else unat (w_stake w)) \<le>
      amount_at (tokens (ledger V)) (ata_address E s (w_mint w))"
    using u unfolding unwinding_def by blast+
  note t = terms_of_eqD [OF V(5)]
  have vk: "vault_key E k u = ?V" by (simp add: vault_key_def t)
  have acc: "close_accounts E cranker k u b = close_accounts E cranker k w b" for b
    by (simp add: close_accounts_def vk t)
  have late': "operative_deadline u <s clock V"
    using late V(4) operative_cong [OF V(5,6)] by simp
  have flag: "0 < amount_at (tokens (ledger V)) ?V \<longleftrightarrow> ?b"
    using V(7) out by (auto simp: fully_exited_owed)
  obtain W' where close: "handle_close_expired E sg (close_accounts E cranker k w ?b) V = Inr W'"
    using close_possible [OF V(1,2) late' out V(3) sg] by (auto simp: acc vk flag)
  have eff: "accts W' = (accts V)(k := None)"
    "token_data (tokens (ledger W')) = (token_data (tokens (ledger V)))(?V := None)"
    "\<forall>j. j \<noteq> ?V \<longrightarrow> amount_at (tokens (ledger W')) j = amount_at (tokens (ledger V)) j +
        (if j = w_fee_destination w then amount_at (tokens (ledger V)) ?V else 0)"
    using close_expired_effect [OF V(1) close] V(2) token by (simp_all add: vk t)
  have "run_transaction exec E sg (?cs @ [last (wind_up E cranker k w W)]) W = Inr W'"
    unfolding run_append using refunds close by (simp add: wind_up_def)
  then have run: "run_transaction exec E sg (wind_up E cranker k w W) W = Inr W'"
    by (simp add: wind_up_def butlast_append)
  have "amount_at (tokens (ledger W)) (ata_address E s (w_mint w)) + unat (w_stake w) \<le>
      amount_at (tokens (ledger W')) (ata_address E s (w_mint w))"
    if s: "s \<in> {w_side_a w, w_side_b w}" "side_in s w" for s
  proof -
    obtain x where "tokens (ledger W) (ata_address E s (w_mint w)) = Some x" "t_owner x = s"
      using start(3) s by (auto simp: exit_ready_def Let_def)
    from side_not_vault [OF start(1,2) _ s(2) this] s(1) have "ata_address E s (w_mint w) \<noteq> ?V"
      by (auto simp: is_participant_def)
    moreover have "\<not> side_in s u" using out by (simp add: side_in_def fully_exited_iff)
    ultimately show ?thesis using paid s eff(3) by fastforce
  qed
  moreover have "tokens (ledger W') ?V = None"
    using fun_cong [OF eff(2), of ?V] by (simp add: token_data_None)
  ultimately show ?thesis using run eff(1) by auto
qed

end

end
