(* ===== verification/Faults.thy ===== *)
theory Faults
  imports Program
begin

text \<open>
  The program never panics. A panic is a value of the model: a slice or an index out of bounds,
  or an arithmetic overflow that the release profile's checks catch. Each place of the source
  that could panic is a branch of a definition, and none is reached from a world that satisfies
  the invariant, at a time after the epoch.
\<close>

definition no_panic :: "error + 'a \<Rightarrow> bool" where
  "no_panic m \<longleftrightarrow> (\<forall>p. m \<noteq> Inl (Panic p))"

named_theorems no_panics \<open>computations that do not panic\<close>

lemma no_panic_simps [simp]:
  "no_panic (Inr x)" "no_panic (Inl (Shake e))" "no_panic (Inl (Anchor n))" "no_panic (Inl (Cpi i))"
  "no_panic (Inl MissingSignature)"
  by (simp_all add: no_panic_def)

lemma no_panic_require [no_panics]:
  "(\<not> c \<Longrightarrow> no_panic (Inl e :: error + unit)) \<Longrightarrow> (c \<Longrightarrow> no_panic k) \<Longrightarrow> no_panic (require c e k)"
  by (cases c) (simp_all add: no_panic_def)

lemma no_panic_bind [no_panics]:
  "no_panic m \<Longrightarrow> (\<And>x. m = Inr x \<Longrightarrow> no_panic (f x)) \<Longrightarrow> no_panic (try_bind m f)"
  by (cases m) (simp_all add: no_panic_def)

lemma no_panic_if [no_panics]:
  "(b \<Longrightarrow> no_panic m) \<Longrightarrow> (\<not> b \<Longrightarrow> no_panic n) \<Longrightarrow> no_panic (if b then m else n)"
  by simp

lemma no_panic_ok_or [no_panics]:
  "(x = None \<Longrightarrow> no_panic (Inl e :: error + unit)) \<Longrightarrow> no_panic (ok_or x e)"
  by (cases x) (simp_all add: no_panic_def)

lemma no_panic_cpi [no_panics]: "no_panic (map_err Cpi m)"
  by (cases m) simp_all

lemma no_panic_case_prod [no_panics]:
  "(\<And>a b. p = (a, b) \<Longrightarrow> no_panic (f a b)) \<Longrightarrow> no_panic (case p of (a, b) \<Rightarrow> f a b)"
  by (cases p) simp

lemma no_panic_let [no_panics]: "no_panic (f x) \<Longrightarrow> no_panic (let y = x in f y)"
  by (simp add: Let_def)

lemma no_panic_option [no_panics]:
  "(x = None \<Longrightarrow> no_panic m) \<Longrightarrow> (\<And>y. x = Some y \<Longrightarrow> no_panic (f y)) \<Longrightarrow>
    no_panic (case x of None \<Rightarrow> m | Some y \<Rightarrow> f y)"
  by (cases x) simp_all

section \<open>The attributes and the calls to other programs\<close>

lemma no_panic_missing [no_panics]: "no_panic (Inl (missing_account L k))"
  by (simp add: missing_account_def)

lemma no_panic_loads [no_panics]:
  "no_panic (load_config W k)" "no_panic (load_wager W k)" "no_panic (load_transfer W k)"
  "no_panic (load_counter W k)" "no_panic (load_token L k)" "no_panic (check_ata E k v m o')"
  by (auto simp: load_config_def load_wager_def load_transfer_def load_counter_def load_token_def
      missing_account_def check_ata_def ok_or_def require_def split: option.splits account_data.splits)

lemma no_panic_calls [no_panics]:
  "no_panic (transfer_with_seeds E s a f t n L)" "no_panic (close_with_seeds E s a k d L)"
  "no_panic (transfer_signed E sg a f t n L)"
  by (auto simp: transfer_with_seeds_def close_with_seeds_def transfer_signed_def
      intro!: no_panics)

lemma no_panic_inits [no_panics]:
  "no_panic (init_account E p k n W)" "no_panic (init_if_needed_transfer E p k s W)"
  "no_panic (init_if_needed_counter E p k s W)" "no_panic (init_if_needed_ata E p k m o' W)"
  by (auto simp: init_account_def init_if_needed_transfer_def init_if_needed_counter_def
      init_if_needed_ata_def intro!: no_panics)

lemma no_panic_payout [no_panics]:
  "no_panic (split_pot s b)"
  "no_panic (pay_winner_and_close_vault E k sd v wt ft rc p f L)"
  by (auto simp: split_pot_def pay_winner_and_close_vault_def intro!: no_panics)

section \<open>The handlers\<close>

text \<open>Most handlers have no operation that could panic.\<close>

lemma plain_handlers_no_panic:
  "no_panic (handle_stake_side E sg a1 W)" "no_panic (handle_unstake_side E sg a2 W)"
  "no_panic (handle_refund_side E sg a3 W)" "no_panic (handle_close_expired E sg a4 W)"
  "no_panic (handle_cancel_propose E sg a5 W)" "no_panic (handle_cancel_clear E sg a6 W)"
  "no_panic (handle_cancel_accept E sg a7 W)" "no_panic (handle_propose_admin E sg a8 n W)"
  "no_panic (handle_accept_admin E sg a9 W)" "no_panic (handle_cancel_admin_transfer E sg a10 W)"
  unfolding handle_stake_side_def validate_stake_side_def handle_unstake_side_def
    validate_unstake_side_def handle_refund_side_def validate_refund_side_def
    handle_close_expired_def validate_close_expired_def handle_cancel_propose_def
    validate_cancel_propose_def handle_cancel_clear_def validate_cancel_clear_def
    handle_cancel_accept_def validate_cancel_accept_def handle_propose_admin_def
    validate_propose_admin_def handle_accept_admin_def validate_accept_admin_def
    handle_cancel_admin_transfer_def validate_cancel_admin_transfer_def
  by (auto intro!: no_panics)

text \<open>The sum of payout and fee is the pot, which fits.\<close>

lemma settlements_no_panic:
  "no_panic (handle_resolve E sg a1 winner W)" "no_panic (handle_concede E sg a2 W)"
  unfolding handle_resolve_def validate_resolve_def handle_concede_def validate_concede_def
  by (auto intro!: no_panics simp: payout.pot_sum_checked)

text \<open>The copy loop stays within the array when the list has passed the check of its length.\<close>

lemma config_values_no_panic [no_panics]: "no_panic (validate_config_values f lo hi rs win n cap)"
  unfolding validate_config_values_def by (auto intro!: no_panics)

lemma write_resolvers_no_panic:
  assumes "validate_config_values f lo hi rs win n cap = Inr u"
  shows "no_panic (write_resolvers 0 rs (replicate RESOLVER_ALLOWLIST_LEN d))"
proof -
  have "length rs \<le> RESOLVER_ALLOWLIST_LEN" using assms by (simp add: validate_config_values_Inr)
  from write_resolvers_fresh [OF this] show ?thesis by simp
qed

lemma initialize_config_no_panic: "no_panic (handle_initialize_config E sg a args W)"
  unfolding handle_initialize_config_def validate_initialize_config_def
  by (auto intro!: no_panics intro: write_resolvers_no_panic)

text \<open>The resolver list of a valid configuration can be sliced.\<close>

lemma allowlist_slice_no_panic:
  assumes "config_ok E (accts W)" "accts W k = Some (ConfigAcc c)"
  shows "no_panic (allowlist_slice c)" "no_panic (resolver_allowed c r)"
proof -
  have "config_wf c" using assms by (auto simp: config_ok_def)
  then show "no_panic (allowlist_slice c)" "no_panic (resolver_allowed c r)"
    by (simp_all add: resolver_allowed_def allowlist_slice_def config_wf_def)
qed

lemma validates_no_panic [no_panics]:
  "no_panic (validate_update_config E sg a W)" "no_panic (validate_create_wager E sg b args W)"
  unfolding validate_update_config_def validate_create_wager_def by (auto intro!: no_panics)

lemma update_slice_no_panic:
  assumes "config_ok E (accts W)" "validate_update_config E sg a W = Inr c"
  shows "no_panic (allowlist_slice c)"
  by (rule allowlist_slice_no_panic(1) [OF assms(1), of "uc_config a"])
    (use assms(2) in \<open>simp add: validate_update_config_Inr\<close>)

lemma update_config_no_panic:
  assumes "config_ok E (accts W)"
  shows "no_panic (handle_update_config E sg a args W)"
  unfolding handle_update_config_def Let_def
  by (auto intro!: no_panics update_slice_no_panic [OF assms] intro: write_resolvers_no_panic)

text \<open>
  The checked subtractions of the windows are in range once the deadlines are known to be in
  order and the clock is past the epoch; the guards before them establish the order.
\<close>

lemma signed_sub_defined:
  fixes a b :: i64
  assumes "0 \<le>s b" "b <s a"
  shows "signed_sub a b = Some (a - b)"
proof -
  have "0 \<le> sint b" "sint b < sint a" "sint a < 2 ^ 63"
    using assms sint_lt [of a] by (simp_all add: word_sle_eq word_sless_alt)
  then have "signed_take_bit 63 (sint a - sint b) = sint a - sint b"
    by (simp add: signed_take_bit_int_eq_self_iff)
  then show ?thesis by (simp add: signed_sub_Some sint_word_ariths)
qed

lemma windows_no_panic:
  assumes "0 \<le>s now" "now <s df" "df <s dr"
  shows "no_panic (windows_ok now df dr m)"
proof -
  have "0 \<le>s df" using assms(1,2) by (simp add: word_sle_eq word_sless_alt)
  with assms signed_sub_defined show ?thesis by (simp add: windows_ok_def)
qed

lemma create_slice_no_panic:
  assumes "config_ok E (accts W)" "validate_create_wager E sg a args W = Inr (c, W1)"
  shows "no_panic (resolver_allowed c r)"
  by (rule allowlist_slice_no_panic(2) [OF assms(1), of "cw_config a"])
    (use assms(2) in \<open>simp add: validate_create_wager_Inr\<close>)

lemma create_wager_no_panic:
  assumes "config_ok E (accts W)" "0 \<le>s clock W"
  shows "no_panic (handle_create_wager E sg a args W)"
  unfolding handle_create_wager_def Let_def
  by (auto intro!: no_panics create_slice_no_panic [OF assms(1)] windows_no_panic assms(2))

lemma exec_no_panic:
  assumes "inv E W" "0 \<le>s clock W"
  shows "no_panic (exec E sg c W)"
proof -
  have "config_ok E (accts W)" using assms(1) by (simp add: inv_def)
  with assms(2) show ?thesis
    by (cases c) (simp_all add: plain_handlers_no_panic settlements_no_panic
        initialize_config_no_panic update_config_no_panic create_wager_no_panic)
qed

end
