(* ===== verification/Guarantees.thy ===== *)
theory Guarantees
  imports Effects Exits Faults
begin

text \<open>
  What the program promises its users, over every instruction and every reachable world: whose
  money can move where, what the books and the vaults hold, how a wager can change, and that
  its exits stay open. Each property is proved from the component theories and applied to a
  world of the scenario.
\<close>

lemma scenario_token_stakes:
  "token_stakes ref_env world_half" "token_stakes ref_env world_locked"
  "token_stakes ref_env world_expired" "token_stakes ref_env world_proposed"
  by (simp_all add: token_stakes_def config_key_def at_half at_locked at_expired at_proposed evaluate)

lemma locked_sides:
  "is_participant locked_bet alice" "is_participant locked_bet bob"
  "side_in alice locked_bet" "side_in bob locked_bet" "w_mint locked_bet = usd"
  by (simp_all add: is_participant_def side_in_def open_a_def open_b_def locked_bet_def bet_def
      names)

section \<open>The money\<close>

text \<open>
  C1. A participant loses its stake only by a signature of its own or of the resolver: when an
  instruction signed by neither takes a side's stake out of a wager, that side's own token
  account has gained at least the stake.
\<close>

theorem participants_are_protected:
  assumes "chain E" "reachable E W" "token_stakes E W" "exec E sg c W = Inr W'"
    and "accts W k = Some (WagerAcc w)" "is_participant w s" "side_in s w"
    and "\<And>w'. accts W' k = Some (WagerAcc w') \<Longrightarrow> \<not> side_in s w'"
    and "s \<notin> sg" "w_resolver w \<notin> sg"
  shows "amount_at (tokens (ledger W)) (ata_address E s (w_mint w)) + unat (w_stake w) \<le>
    amount_at (tokens (ledger W')) (ata_address E s (w_mint w))"
  by (rule chain.stake_comes_back [OF assms(1) reachable_inv [OF assms(1,2)] assms(3-8,10,9)])

lemma alice_concedes:
  "\<exists>W'. handle_concede ref_env {alice} concede_args world_locked = Inr W' \<and> accts W' wager1 = None"
  by (simp add: evaluate handlers concede_args_def at_locked
      cong: try_bind_weak_cong require_weak_cong)

theorem participants_are_protected_witness:
  "\<exists>W'. exec ref_env {alice} (Concede concede_args) world_locked = Inr W' \<and>
    1000 \<le> amount_at (tokens (ledger W')) (usd_of bob)"
proof -
  obtain W' where run: "exec ref_env {alice} (Concede concede_args) world_locked = Inr W'"
    and gone: "accts W' wager1 = None"
    using alice_concedes by auto
  have held: "amount_at (tokens (ledger world_locked)) (usd_of bob) = 700"
    by (simp add: at_locked evaluate amount_at_def)
  have "bob \<notin> {alice}" "w_resolver locked_bet \<notin> {alice}" "w_stake locked_bet = 300"
    by (simp_all add: locked_bet_def bet_def names)
  note out = this
  have "amount_at (tokens (ledger world_locked)) (ata_address ref_env bob (w_mint locked_bet)) +
      unat (w_stake locked_bet) \<le>
      amount_at (tokens (ledger W')) (ata_address ref_env bob (w_mint locked_bet))"
    by (rule participants_are_protected [OF ref.chain_axioms reachable_worlds(5)
          scenario_token_stakes(2) run locked_wager locked_sides(2,4) _ out(1,2)]) (simp add: gone)
  then have "1000 \<le> amount_at (tokens (ledger W')) (usd_of bob)"
    using held out(3) by (simp add: locked_sides usd_of_def)
  with run show ?thesis by blast
qed

text \<open>
  C7. Only a wager's participants and its pinned fee account are ever paid: an instruction that
  raises a balance names a wager, and the account is the canonical token account of one of its
  two sides, its fee destination, or, when staking, its vault.
\<close>

theorem only_payees_gain:
  assumes "chain E" "reachable E W" "real_signers E sg" "token_stakes E W" "exec E sg c W = Inr W'"
    and "amount_at (tokens (ledger W)) j < amount_at (tokens (ledger W')) j"
  shows "\<exists>k w. call_wager c = Some k \<and> accts W k = Some (WagerAcc w) \<and>
    (j \<in> {ata_address E (w_side_a w) (w_mint w), ata_address E (w_side_b w) (w_mint w),
        w_fee_destination w} \<or>
     j = vault_key E k w \<and> (\<exists>a. c = Stake_Side a))"
proof -
  obtain k w where "call_wager c = Some k" "accts W k = Some (WagerAcc w)" "moves E sg c W W' k w"
    using chain.balances_move [OF assms(1) reachable_inv [OF assms(1,2)] assms(3-5), of j] assms(6)
    by auto
  with assms(6) show ?thesis unfolding moves_def may_gain_def payees_def by blast
qed

theorem only_payees_gain_witness:
  "\<exists>W'. exec ref_env people (Resolve (resolve_args alice) alice) world_locked = Inr W' \<and>
    {j. amount_at (tokens (ledger world_locked)) j < amount_at (tokens (ledger W')) j} \<subseteq>
      {usd_of alice, usd_of bob, usd_of treasury}"
proof -
  obtain W' where run: "exec ref_env people (Resolve (resolve_args alice) alice) world_locked = Inr W'"
    using resolve_runs by auto
  have "j \<in> {usd_of alice, usd_of bob, usd_of treasury}"
    if "amount_at (tokens (ledger world_locked)) j < amount_at (tokens (ledger W')) j" for j
    using only_payees_gain [OF ref.chain_axioms reachable_worlds(5) people_real
        scenario_token_stakes(2) run that]
    by (auto simp: resolve_args_def locked_wager usd_of_def locked_bet_def bet_def)
  with run show ?thesis by blast
qed

text \<open>
  C8. Only vaults pay, and stakers their own stake: an instruction that lowers a balance names a
  wager, and the account is that wager's vault or, when staking, owned by a participant of it
  who signed the transaction.
\<close>

theorem only_vaults_and_stakers_pay:
  assumes "chain E" "reachable E W" "real_signers E sg" "token_stakes E W" "exec E sg c W = Inr W'"
    and "amount_at (tokens (ledger W')) j < amount_at (tokens (ledger W)) j"
  shows "\<exists>k w. call_wager c = Some k \<and> accts W k = Some (WagerAcc w) \<and>
    (j = vault_key E k w \<or>
     (\<exists>a v. c = Stake_Side a \<and> tokens (ledger W) j = Some v \<and> t_owner v \<in> sg \<and>
       is_participant w (t_owner v)))"
proof -
  obtain k w where "call_wager c = Some k" "accts W k = Some (WagerAcc w)" "moves E sg c W W' k w"
    using chain.balances_move [OF assms(1) reachable_inv [OF assms(1,2)] assms(3-5), of j] assms(6)
    by auto
  with assms(6) show ?thesis unfolding moves_def may_lose_def by blast
qed

theorem only_vaults_and_stakers_pay_witness:
  "{j. amount_at (tokens (ledger world_back1)) j < amount_at (tokens (ledger world_expired)) j}
    \<subseteq> {vault1}"
proof (intro subsetI)
  fix j
  assume "j \<in> {j. amount_at (tokens (ledger world_back1)) j < amount_at (tokens (ledger world_expired)) j}"
  then have "amount_at (tokens (ledger world_back1)) j < amount_at (tokens (ledger world_expired)) j"
    by simp
  from only_vaults_and_stakers_pay [OF ref.chain_axioms reachable_worlds(8) people_real
      scenario_token_stakes(3) run_back1 this]
  show "j \<in> {vault1}"
    by (auto simp: refund_args_def expired_wager vault_key_def vault1_def usd_of_def
        locked_bet_def bet_def)
qed

text \<open>
  A vault is out of reach of every instruction that does not name its wager: whoever signs,
  its balance does not fall.
\<close>

theorem other_vaults_are_safe:
  assumes "chain E" "reachable E W" "real_signers E sg" "token_stakes E W" "exec E sg c W = Inr W'"
    and "accts W k = Some (WagerAcc w)" "call_wager c \<noteq> Some k"
  shows "amount_at (tokens (ledger W)) (vault_key E k w) \<le>
    amount_at (tokens (ledger W')) (vault_key E k w)"
  using chain.vault_loses_by_name [OF assms(1) reachable_inv [OF assms(1,2)] assms(3-6)] assms(7)
  by (meson not_le)

theorem other_vaults_are_safe_witness:
  "\<exists>W'. exec ref_env people (Update_Config update_accounts update_args) world_locked = Inr W' \<and>
    600 \<le> amount_at (tokens (ledger W')) vault1"
proof -
  obtain W' where run: "exec ref_env people (Update_Config update_accounts update_args) world_locked = Inr W'"
    using update_runs by auto
  have "call_wager (Update_Config update_accounts update_args) \<noteq> Some wager1" by simp
  from other_vaults_are_safe [OF ref.chain_axioms reachable_worlds(5) people_real
      scenario_token_stakes(2) run locked_wager this]
  have "amount_at (tokens (ledger world_locked)) vault1 \<le> amount_at (tokens (ledger W')) vault1"
    by (simp add: vault_key_def vault1_def usd_of_def locked_sides)
  moreover have "amount_at (tokens (ledger world_locked)) vault1 = 600"
    by (simp add: at_locked evaluate amount_at_def)
  ultimately show ?thesis using run by auto
qed

text \<open>
  C35. No instruction creates or destroys a token: the balances of a mint keep their sum.
\<close>

theorem supply_is_conserved:
  assumes "chain E" "exec E sg c W = Inr W'" "m \<noteq> native_mint E"
  shows "total_supply m (tokens (ledger W')) = total_supply m (tokens (ledger W))"
  by (rule chain.exec_supply [OF assms])

theorem supply_is_conserved_witness:
  "total_supply usd (tokens (ledger world_back1)) = total_supply usd (tokens (ledger world_expired))"
proof -
  have "usd \<noteq> native_mint ref_env" by (simp add: names ref_native_mint_def)
  from supply_is_conserved [OF ref.chain_axioms run_back1 this] show ?thesis .
qed

section \<open>The books\<close>

text \<open>
  C9. Every wager is backed: its vault, the canonical token account of the wager for the mint,
  exists, belongs to the wager, is of the mint, and holds at least the stake of every side that
  has funded and not left.
\<close>

theorem vaults_back_wagers:
  assumes "chain E" "reachable E W" "accts W k = Some (WagerAcc w)"
  shows "\<exists>v. tokens (ledger W) (ata_address E k (w_mint w)) = Some v \<and> t_owner v = k \<and>
    t_mint v = w_mint w \<and>
    (if w_funded_a w \<and> \<not> w_refunded_a w then unat (w_stake w) else 0) +
    (if w_funded_b w \<and> \<not> w_refunded_b w then unat (w_stake w) else 0) \<le> unat (t_amount v)"
proof -
  have "vault_ok E (tokens (ledger W)) k w"
    using reachable_inv [OF assms(1,2)] assms(3) by (simp add: inv_def vaults_ok_def)
  then show ?thesis
    by (rule vault_okE) (auto simp: vault_key_def owed_def open_a_def open_b_def)
qed

theorem vaults_back_wagers_witness:
  "\<exists>v. tokens (ledger world_locked) vault1 = Some v \<and> t_owner v = wager1 \<and> 600 \<le> unat (t_amount v)"
  using vaults_back_wagers [OF ref.chain_axioms reachable_worlds(5) locked_wager]
  by (auto simp: vault1_def usd_of_def locked_bet_def bet_def)

text \<open>
  C10. The books are exact: the configuration's accumulator is the sum of all stakes of sides
  that are in, over all wagers, and a wallet's counter is the number of such sides of that
  wallet. So the saturating subtractions of the exits never saturate.
\<close>

theorem books_are_exact:
  assumes "chain E" "reachable E W"
  shows "(\<forall>c. accts W (config_key E) = Some (ConfigAcc c) \<longrightarrow>
      unat (c_total_open_value c) = (\<Sum>k\<in>UNIV. owed_of (accts W k))) \<and>
    (\<forall>s x. accts W (counter_key E s) = Some (CounterAcc x) \<longrightarrow>
      unat (x_count x) = (\<Sum>k\<in>UNIV. exposure_of E (counter_key E s) (accts W k)))"
proof -
  have "books_ok E (accts W)" using reachable_inv [OF assms] by (simp add: inv_def)
  then show ?thesis
    unfolding books_ok_def total_owed_def total_exposure_def by (metis count_of.simps(1))
qed

theorem books_are_exact_witness:
  "(\<Sum>k\<in>UNIV. owed_of (accts world_locked k)) = 600"
  using books_are_exact [OF ref.chain_axioms reachable_worlds(5)]
  by (auto simp: at_locked config_key_def evaluate)

text \<open>
  C22. The configuration, wherever it was changed, stays within the hard limits of the code: a
  fee of at most ten percent, ordered stake bounds, room for two stakes at the maximum under the
  global cap, a wallet cap above zero, one to four resolvers none of which is the default key, a
  window of at most 180 days, and no default address.
\<close>

theorem config_stays_valid:
  assumes "chain E" "reachable E W" "accts W k = Some (ConfigAcc c)"
  shows "k = config_key E \<and> unat (c_fee_bps c) \<le> 1000 \<and>
    0 < unat (c_min_stake c) \<and> unat (c_min_stake c) \<le> unat (c_max_stake c) \<and>
    2 * unat (c_max_stake c) \<le> unat (c_max_total_open c) \<and> 0 < unat (c_max_open_per_wallet c) \<and>
    (\<exists>rs. allowlist_slice c = Inr rs \<and> 1 \<le> length rs \<and> length rs \<le> 4 \<and> default_key \<notin> set rs) \<and>
    0 < sint (c_max_window c) \<and> sint (c_max_window c) \<le> 180 * 24 * 60 * 60 \<and>
    default_key \<notin> {c_mint c, c_fee_destination c, c_rent_collector c}"
proof -
  have "k = config_key E" and wf: "config_wf c"
    using reachable_inv [OF assms(1,2)] assms(3) by (auto simp: inv_def config_ok_def)
  moreover have "allowlist_slice c = Inr (take (unat (c_resolver_count c)) (c_resolver_allowlist c))"
    using wf by (simp add: allowlist_slice_def config_wf_def)
  moreover have "0 < sint (c_max_window c)" "sint (c_max_window c) \<le> 15552000"
    using wf MAX_WINDOW_CAP_seconds by (simp_all add: config_wf_def word_sless_alt word_sle_eq)
  ultimately show ?thesis
    using wf by (auto simp: config_wf_def word_le_nat_alt word_less_nat_alt)
qed

theorem config_stays_valid_witness:
  "\<exists>rs. allowlist_slice (house 600) = Inr rs \<and> 1 \<le> length rs \<and> default_key \<notin> set rs"
proof -
  have "accts world_locked config1 = Some (ConfigAcc (house 600))" by (simp add: at_locked evaluate)
  from config_stays_valid [OF ref.chain_axioms reachable_worlds(5) this] show ?thesis by blast
qed

section \<open>The life of a wager\<close>

text \<open>
  C21. A wager on the chain is always in one of the two states that persist, \<^verbatim>\<open>Funding\<close> or
  \<^verbatim>\<open>Active\<close>, and active exactly when both sides are funded; a side is marked as refunded only if
  it was funded and its deadline has passed; a cancel proposal exists only on an active wager
  and is a participant's; the sides differ, the resolver is neither, the fee is at most ten
  percent, the pot fits 64 bits, and the deadlines are in order.
\<close>

theorem wagers_stay_valid:
  assumes "chain E" "reachable E W" "accts W k = Some (WagerAcc w)"
  shows "(w_state w = Funding \<or> w_state w = Active) \<and>
    (w_state w = Active \<longleftrightarrow> w_funded_a w \<and> w_funded_b w) \<and>
    (w_refunded_a w \<longrightarrow> w_funded_a w) \<and> (w_refunded_b w \<longrightarrow> w_funded_b w) \<and>
    (w_refunded_a w \<or> w_refunded_b w \<longrightarrow>
      (if w_state w = Active then w_deadline_resolve w else w_deadline_fund w) <s clock W) \<and>
    (w_cancel_proposed_by w \<noteq> default_key \<longrightarrow>
      w_state w = Active \<and> w_cancel_proposed_by w \<in> {w_side_a w, w_side_b w}) \<and>
    w_side_a w \<noteq> w_side_b w \<and> w_resolver w \<notin> {w_side_a w, w_side_b w} \<and>
    0 < unat (w_stake w) \<and> 2 * unat (w_stake w) < 2 ^ 64 \<and> unat (w_fee_bps w) \<le> 1000 \<and>
    sint (w_deadline_fund w) < sint (w_deadline_resolve w)"
proof -
  have t: "terms_wf w" and l: "life_wf E (clock W) w"
    using reachable_inv [OF assms(1,2)] assms(3) by (auto simp: inv_def wagers_ok_def)
  from t have "w_side_a w \<noteq> w_side_b w \<and> w_resolver w \<notin> {w_side_a w, w_side_b w} \<and>
      0 < unat (w_stake w) \<and> 2 * unat (w_stake w) < 2 ^ 64 \<and> unat (w_fee_bps w) \<le> 1000 \<and>
      sint (w_deadline_fund w) < sint (w_deadline_resolve w)"
    by (simp add: terms_wf_def word_sless_alt word_less_nat_alt)
  with l show ?thesis unfolding life_wf_def is_participant_def by blast
qed

theorem wagers_stay_valid_witness:
  "w_state locked_bet = Active \<and> 0 < unat (w_stake locked_bet)"
  using wagers_stay_valid [OF ref.chain_axioms reachable_worlds(5) locked_wager]
  by (simp add: locked_bet_def bet_def)

text \<open>
  The terms of a wager never change: sides, stake, mint, resolver, terms hash, deadlines, fee,
  fee destination, rent collector, nonce and bump are, after any instruction, what they were,
  or the wager is gone.
\<close>

theorem terms_never_change:
  assumes "exec E sg c W = Inr W'" "accts W k = Some (WagerAcc w)"
  shows "accts W' k = None \<or> (\<exists>w'. accts W' k = Some (WagerAcc w') \<and>
    w_side_a w' = w_side_a w \<and> w_side_b w' = w_side_b w \<and> w_stake w' = w_stake w \<and>
    w_mint w' = w_mint w \<and> w_resolver w' = w_resolver w \<and> w_terms_hash w' = w_terms_hash w \<and>
    w_deadline_fund w' = w_deadline_fund w \<and> w_deadline_resolve w' = w_deadline_resolve w \<and>
    w_fee_bps w' = w_fee_bps w \<and> w_fee_destination w' = w_fee_destination w \<and>
    w_rent_collector w' = w_rent_collector w \<and> w_nonce w' = w_nonce w \<and> w_bump w' = w_bump w)"
proof -
  note t = terms_of_eqD
  from program.keeps_terms [OF assms] show ?thesis
    by (elim disjE exE conjE, simp) (intro disjI2 exI conjI, assumption; erule t)
qed

theorem terms_never_change_witness:
  "\<exists>W' w'. exec ref_env people (Update_Config update_accounts update_args) world_locked = Inr W' \<and>
    accts W' wager1 = Some (WagerAcc w') \<and> w_fee_bps w' = 250"
proof -
  obtain W' where run: "exec ref_env people (Update_Config update_accounts update_args) world_locked = Inr W'"
    using update_runs by auto
  have "accts W' wager1 = accts world_locked wager1"
    by (rule admin_calls_follow [OF run _ locked_wager]) simp
  with terms_never_change [OF run locked_wager] run show ?thesis
    by (auto simp: locked_wager locked_bet_def bet_def)
qed

text \<open>
  C11. Every instruction follows the life cycle: on the wager it names it takes one of the steps
  of the state machine, at the clock's time and with the transaction's signatures; every other
  wager is untouched.
\<close>

theorem instructions_follow_the_life_cycle:
  assumes "exec E sg c W = Inr W'" "accts W k = Some (WagerAcc w)"
  shows "if call_wager c = Some k
    then \<exists>r. accts W' k = map_option WagerAcc r \<and> life_step (clock W) sg w r
    else accts W' k = accts W k"
  using exec_follows [OF assms] by (simp add: follows_def)

theorem instructions_follow_the_life_cycle_witness:
  "\<exists>r. accts world_locked wager1 = map_option WagerAcc r \<and>
    life_step 1000 people (bet\<lparr>w_funded_a := True\<rparr>) r"
  using instructions_follow_the_life_cycle [OF run_locked half_wager]
  by (simp add: stake_call_def stake_args_def at_half(4))

text \<open>
  A wager only moves forward: its state does not go back, a refunded side stays refunded, and
  once it is locked no stake leaves it except by a refund or with the wager itself.
\<close>

theorem wagers_move_forward:
  assumes "exec E sg c W = Inr W'"
    and "accts W k = Some (WagerAcc w)" "accts W' k = Some (WagerAcc w')"
  shows "w_state w \<le> w_state w' \<and> (w_refunded_a w \<longrightarrow> w_refunded_a w') \<and>
    (w_refunded_b w \<longrightarrow> w_refunded_b w') \<and>
    (w_state w = Active \<longrightarrow> w_state w' = Active \<and> w_funded_a w' = w_funded_a w \<and>
      w_funded_b w' = w_funded_b w)"
proof (cases "call_wager c = Some k")
  case True
  then obtain r where r: "accts W' k = map_option WagerAcc r" "life_step (clock W) sg w r"
    using exec_follows [OF assms(1,2)] by (auto simp: follows_def)
  with assms(3) have "life_step (clock W) sg w (Some w')" by (cases r) simp_all
  from life_step_forward [OF this] show ?thesis by blast
next
  case False
  with exec_follows [OF assms(1,2)] assms(2,3) show ?thesis by simp
qed

theorem wagers_move_forward_witness:
  "w_state locked_bet \<le> w_state (locked_bet\<lparr>w_refunded_a := True\<rparr>)"
  using wagers_move_forward [OF run_back1 expired_wager back1_wager] by blast

text \<open>
  C34. Before its deadline nothing happens to a wager without a signature of one of its two sides
  or of its resolver: not by the admin, and not by anyone who cranks.
\<close>

theorem early_changes_are_signed:
  assumes "chain E" "reachable E W" "exec E sg c W = Inr W'" "accts W k = Some (WagerAcc w)"
    and "accts W' k \<noteq> accts W k"
    and "clock W \<le>s (if w_state w = Funding then w_deadline_fund w else w_deadline_resolve w)"
  shows "sg \<inter> {w_side_a w, w_side_b w, w_resolver w} \<noteq> {}"
proof -
  have life: "life_wf E (clock W) w"
    using reachable_inv [OF assms(1,2)] assms(4) by (auto simp: inv_def wagers_ok_def)
  then have "w_state w \<noteq> Cancelled" by (auto simp: life_wf_def)
  moreover have "clock W \<le>s operative_deadline w"
    using assms(6) by (cases "w_state w") (simp_all add: operative_deadline_def)
  moreover obtain r where "life_step (clock W) sg w r"
    using exec_follows [OF assms(3,4)] assms(5) by (auto simp: follows_def split: if_splits)
  ultimately show ?thesis using life_step_signed by blast
qed

theorem early_changes_are_signed_witness:
  "people \<inter> {alice, bob, judge} \<noteq> {}"
proof -
  have "accts world_locked wager1 \<noteq> accts world_half wager1"
    by (simp add: locked_wager half_wager locked_bet_def bet_def)
  from early_changes_are_signed [OF ref.chain_axioms reachable_worlds(4) run_locked half_wager this]
  show ?thesis by (simp add: bet_def at_half(4) word_sle_eq)
qed

section \<open>The exits\<close>

text \<open>
  C33. The windows do not overlap: at a time when a refund or a close of a wager is accepted, no
  stake, unstake, resolution, concession, cancel proposal or acceptance of it is, whatever the
  accounts and signatures.
\<close>

theorem windows_do_not_overlap:
  assumes "exec E sg c W = Inr W1" "exec E sg' c' W = Inr W2"
    and "crank c" "timely c'" "call_wager c = Some k" "call_wager c' = Some k"
    and "accts W k = Some (WagerAcc w)"
  shows False
  using crank_late [OF assms(1,3,5,7)] timely_early [OF assms(2,4,6,7)]
  by (auto simp: refund_due_def signed.not_le [symmetric])

theorem windows_do_not_overlap_witness:
  "\<not> (\<exists>sg W2. exec ref_env sg (Resolve (resolve_args alice) alice) world_expired = Inr W2)"
proof
  assume "\<exists>sg W2. exec ref_env sg (Resolve (resolve_args alice) alice) world_expired = Inr W2"
  then obtain sg W2 where run: "exec ref_env sg (Resolve (resolve_args alice) alice) world_expired = Inr W2"
    by blast
  show False
    by (rule windows_do_not_overlap [OF run_back1 run _ _ _ _ expired_wager])
      (simp_all add: refund_args_def resolve_args_def)
qed

text \<open>
  A stake can be fetched after the deadline: whoever signs as cranker, the refund of a
  side that is in succeeds on the canonical accounts, provided the side's own token account
  exists and is thawed, and so is the vault. All checks on the program's own accounts pass.
\<close>

theorem refunds_are_possible:
  assumes "chain E" "reachable E W" "accts W k = Some (WagerAcc w)"
    and "operative_deadline w <s clock W" "is_participant w s" "side_in s w"
    and "exit_ready E W k w" "cranker \<in> sg"
  shows "\<exists>W'. handle_refund_side E sg (refund_accounts E cranker k w s) W = Inr W'"
  by (rule chain.refund_possible [OF assms(1) reachable_inv [OF assms(1,2)] assms(3-8)])

lemma expired_exit_ready: "exit_ready ref_env world_expired wager1 locked_bet"
proof -
  have sup: "total_supply usd (tokens (ledger world_expired)) = 2050"
  proof -
    have "total_supply usd (tokens (ledger world_expired)) =
        (\<Sum>k\<in>{usd_of treasury, usd_of alice, usd_of bob, vault1}.
          amount_of_mint usd (tokens (ledger world_expired)) k)"
      unfolding total_supply_def
      by (rule sum.mono_neutral_right) (auto simp: at_expired amount_of_mint_def)
    also have "\<dots> = 2050" by (simp add: at_expired amount_of_mint_def evaluate)
    finally show ?thesis .
  qed
  then show ?thesis
    by (simp add: exit_ready_def Let_def receives_def vault_key_def at_expired evaluate owed_def
        side_in_def open_a_def open_b_def amount_at_def)
qed

lemma expired_late: "operative_deadline locked_bet <s clock world_expired"
  by (simp add: operative_deadline_def locked_bet_def bet_def at_expired word_sless_alt)

theorem refunds_are_possible_witness:
  "\<exists>W'. handle_refund_side ref_env {anyone} (refund_accounts ref_env anyone wager1 locked_bet bob)
    world_expired = Inr W'"
  using refunds_are_possible [OF ref.chain_axioms reachable_worlds(8) expired_wager
      expired_late locked_sides(2,4) expired_exit_ready, of anyone "{anyone}"] by simp

text \<open>
  C2. After its deadline a wager can be wound up by anyone, if the token program lets its accounts
  move: one transaction of at most three instructions returns every stake that is in to its side and
  closes the wager and its vault. The conditions are those of \<open>exit_ready\<close>, and that the mint is not
  wrapped SOL: every side that is in has its own canonical token account, not frozen; the vault is
  not frozen and has no close authority of its own; when there is a surplus, the pinned fee account
  can receive it and is not the vault; the rent collector is neither the wager nor the vault; and the
  supply of the mint fits 64 bits. While an account is missing or frozen, the exit through it waits.
\<close>

theorem anyone_can_wind_up:
  assumes "chain E" "reachable E W" "accts W k = Some (WagerAcc w)"
    and "operative_deadline w <s clock W" "exit_ready E W k w" "w_mint w \<noteq> native_mint E"
    and "cranker \<in> sg"
  shows "\<exists>W'. run_transaction exec E sg (wind_up E cranker k w W) W = Inr W' \<and>
    length (wind_up E cranker k w W) \<le> 3 \<and>
    accts W' k = None \<and> tokens (ledger W') (ata_address E k (w_mint w)) = None \<and>
    (\<forall>s \<in> {w_side_a w, w_side_b w}. side_in s w \<longrightarrow>
      amount_at (tokens (ledger W)) (ata_address E s (w_mint w)) + unat (w_stake w) \<le>
      amount_at (tokens (ledger W')) (ata_address E s (w_mint w)))"
  using chain.wind_up_runs [OF assms(1) reachable_inv [OF assms(1,2)] assms(3,5,4,7,6)]
    wind_up_length [of E cranker k w W]
  by (auto simp: vault_key_def)

theorem anyone_can_wind_up_witness:
  "\<exists>W'. run_transaction exec ref_env {anyone} (wind_up ref_env anyone wager1 locked_bet world_expired)
      world_expired = Inr W' \<and> accts W' wager1 = None \<and>
    1000 \<le> amount_at (tokens (ledger W')) (usd_of alice)"
proof -
  have "w_mint locked_bet \<noteq> native_mint ref_env" using locked_token by simp
  from anyone_can_wind_up [OF ref.chain_axioms reachable_worlds(8) expired_wager expired_late
      expired_exit_ready this, of anyone "{anyone}"]
  obtain W' where run: "run_transaction exec ref_env {anyone}
      (wind_up ref_env anyone wager1 locked_bet world_expired) world_expired = Inr W'"
    "accts W' wager1 = None"
    and paid: "\<forall>s \<in> {w_side_a locked_bet, w_side_b locked_bet}. side_in s locked_bet \<longrightarrow>
      amount_at (tokens (ledger world_expired)) (ata_address ref_env s (w_mint locked_bet)) +
        unat (w_stake locked_bet) \<le>
      amount_at (tokens (ledger W')) (ata_address ref_env s (w_mint locked_bet))"
    by auto
  have "w_side_a locked_bet = alice" "w_stake locked_bet = 300"
    by (simp_all add: locked_bet_def bet_def)
  moreover have "amount_at (tokens (ledger world_expired)) (usd_of alice) = 700"
    by (simp add: at_expired evaluate amount_at_def)
  ultimately have "1000 \<le> amount_at (tokens (ledger W')) (usd_of alice)"
    using paid locked_sides by (auto simp: usd_of_def)
  with run show ?thesis by blast
qed

text \<open>
  C40. An open cancel proposal can be withdrawn at any time, by either participant, also after the
  deadline: \<^verbatim>\<open>cancel_clear\<close> checks neither the clock nor the state. It changes the proposal and
  nothing else.
\<close>

theorem proposals_can_be_cleared:
  assumes "chain E" "reachable E W" "accts W k = Some (WagerAcc w)"
    and "w_cancel_proposed_by w \<noteq> default_key" "is_participant w s" "s \<in> sg"
  shows "\<exists>W'. handle_cancel_clear E sg \<lparr>cl_participant = s, cl_wager = k\<rparr> W = Inr W' \<and>
    accts W' = (accts W)(k \<mapsto> WagerAcc (w\<lparr>w_cancel_proposed_by := default_key\<rparr>)) \<and>
    ledger W' = ledger W"
proof -
  let ?a = "\<lparr>cl_participant = s, cl_wager = k\<rparr>"
  have "create_pda E (signer_seeds w) = Some k"
    using reachable_inv [OF assms(1,2)] assms(3) by (auto simp: inv_def wagers_ok_def)
  moreover have "mut_guard E [k]"
    using runtime.mut_guard_iff [OF chain.axioms(1) [OF assms(1)]] by simp
  ultimately have "validate_cancel_clear E sg ?a W = Inr w"
    using assms(3,6) by (simp add: validate_cancel_clear_Inr)
  with assms(4,5) show ?thesis by (simp add: handle_cancel_clear_def Let_def)
qed

theorem proposals_can_be_cleared_witness:
  "\<exists>W'. handle_cancel_clear ref_env {bob} \<lparr>cl_participant = bob, cl_wager = wager1\<rparr>
      (world_proposed\<lparr>clock := 1200\<rparr>) = Inr W' \<and> accts W' wager1 = Some (WagerAcc locked_bet)"
proof -
  have "reachable ref_env (world_proposed\<lparr>clock := 1200\<rparr>)"
    by (rule ref_reach_later [OF reachable_worlds(6)]) (simp add: at_proposed word_sle_eq)
  moreover have "accts (world_proposed\<lparr>clock := 1200\<rparr>) wager1 =
      Some (WagerAcc (locked_bet\<lparr>w_cancel_proposed_by := alice\<rparr>))"
    by (simp add: proposed_wager)
  ultimately show ?thesis
    using proposals_can_be_cleared [OF ref.chain_axioms, of "world_proposed\<lparr>clock := 1200\<rparr>" wager1
        "locked_bet\<lparr>w_cancel_proposed_by := alice\<rparr>" bob "{bob}"] locked_sides(2)
    by (auto simp: names is_participant_def locked_bet_def bet_def)
qed

text \<open>
  C39. A participant whose token account is the pinned fee account can never be paid through a
  settlement: resolving for that side, conceding to it and cancelling by consent all fail, for
  any accounts and signatures, because the two would be one mutable account. The refunds after
  the deadline remain. \<^verbatim>\<open>create_wager\<close> does not refuse such a wager.
\<close>

theorem fee_account_owner_cannot_win:
  assumes "chain E" "accts W k = Some (WagerAcc w)"
    and "w_fee_destination w = ata_address E s (w_mint w)" "is_participant w s"
  shows "(rs_wager a = k \<longrightarrow> handle_resolve E sg a s W \<noteq> Inr W') \<and>
    (cc_wager b = k \<and> counterparty w (cc_conceder b) = s \<longrightarrow> handle_concede E sg b W \<noteq> Inr W') \<and>
    (ac_wager d = k \<longrightarrow> handle_cancel_accept E sg d W \<noteq> Inr W')"
proof (intro conjI impI notI)
  note guard = runtime.mut_guard_iff [OF chain.axioms(1) [OF assms(1)]]
  show False if "rs_wager a = k" and run: "handle_resolve E sg a s W = Inr W'"
    by (rule resolve_success [OF run])
      (use that(1) assms(2-4) in \<open>auto simp: validate_resolve_Inr guard\<close>)
  show False if "cc_wager b = k \<and> counterparty w (cc_conceder b) = s"
    and run: "handle_concede E sg b W = Inr W'"
    by (rule concede_success [OF run])
      (use that(1) assms(2-4) in \<open>auto simp: validate_concede_Inr guard\<close>)
  show False if "ac_wager d = k" and run: "handle_cancel_accept E sg d W = Inr W'"
    by (rule cancel_accept_success [OF run])
      (use that(1) assms(2-4) in \<open>auto simp: validate_cancel_accept_Inr guard is_participant_def\<close>)
qed

theorem fee_account_owner_cannot_win_witness:
  "handle_resolve ref_env people (resolve_args alice) alice
    (world_locked\<lparr>accts := (accts world_locked)(wager1 \<mapsto>
      WagerAcc (locked_bet\<lparr>w_fee_destination := usd_of alice\<rparr>))\<rparr>) \<noteq> Inr world_locked"
proof -
  let ?w = "locked_bet\<lparr>w_fee_destination := usd_of alice\<rparr>"
  let ?W = "world_locked\<lparr>accts := (accts world_locked)(wager1 \<mapsto> WagerAcc ?w)\<rparr>"
  have "accts ?W wager1 = Some (WagerAcc ?w)" by simp
  moreover have "w_fee_destination ?w = ata_address ref_env alice (w_mint ?w)"
    by (simp add: usd_of_def locked_sides)
  moreover have "is_participant ?w alice" using locked_sides(1) by (simp add: is_participant_def)
  ultimately show ?thesis
    using fee_account_owner_cannot_win [OF ref.chain_axioms, of ?W wager1 ?w alice "resolve_args alice"]
    by (simp add: resolve_args_def)
qed

section \<open>Faults, addresses and error codes\<close>

text \<open>
  C31. The program never panics: in a reachable world at a time past the epoch no instruction,
  whatever its accounts, arguments and signatures, runs into a slice or an index out of bounds
  or an arithmetic overflow. Every failure is an error of the program, of the framework or of
  the token program.
\<close>

theorem never_panics:
  assumes "chain E" "reachable E W" "0 \<le>s clock W"
  shows "exec E sg c W \<noteq> Inl (Panic p)"
  using exec_no_panic [OF reachable_inv [OF assms(1,2)] assms(3)] by (simp add: no_panic_def)

theorem never_panics_witness:
  "exec ref_env {} (Resolve (resolve_args alice) bob) world_expired \<noteq> Inl (Panic IndexOutOfBounds)"
  by (rule never_panics [OF ref.chain_axioms reachable_worlds(8)]) (simp add: at_expired word_sle_eq)

definition program_seeds :: "bytes list \<Rightarrow> bool" where
  "program_seeds s \<longleftrightarrow> s = config_seeds \<or> s = admin_transfer_seeds \<or> (\<exists>x. s = counter_seeds x) \<or>
    (\<exists>a n. s = wager_seeds a n)"

lemma program_seeds_by_length:
  assumes "program_seeds s"
  shows "length (concat s) = 6 \<Longrightarrow> s = config_seeds"
    and "length (concat s) = 14 \<Longrightarrow> s = admin_transfer_seeds"
    and "length (concat s) = 39 \<Longrightarrow> \<exists>x. s = counter_seeds x"
    and "length (concat s) = 45 \<Longrightarrow> \<exists>a n. s = wager_seeds a n"
    and "length (concat s) \<in> {6, 14, 39, 45}"
  using assms by (auto simp: program_seeds_def seeds_total_length)

text \<open>
  The seeds are unambiguous: the runtime hashes seeds and bump as one string of bytes without
  separators, and still no two of the program's seeds, for whatever wallets and nonces, give the
  same string.
\<close>

theorem seeds_are_unambiguous:
  assumes "program_seeds s" "program_seeds s'" "concat (s @ [[b]]) = concat (s' @ [[b']])"
  shows "s = s' \<and> b = b'"
proof -
  from assms(3) have eq: "concat s = concat s'" and b: "b = b'" by simp_all
  note first = program_seeds_by_length [OF assms(1)]
  note other = program_seeds_by_length [OF assms(2), folded eq]
  consider "length (concat s) = 6" | "length (concat s) = 14"
    | "length (concat s) = 39" | "length (concat s) = 45"
    using first(5) by blast
  then have "s = s'"
  proof cases
    case 1 then show ?thesis using first(1) other(1) by metis
  next
    case 2 then show ?thesis using first(2) other(2) by metis
  next
    case 3 then show ?thesis using first(3) other(3) eq concat_counter_seeds_inj by metis
  next
    case 4 then show ?thesis using first(4) other(4) eq concat_wager_seeds_inj by metis
  qed
  with b show ?thesis by simp
qed

theorem seeds_are_unambiguous_witness:
  "concat (counter_seeds alice @ [[255]]) \<noteq> concat (wager_seeds alice 1 @ [[254]])"
proof
  assume "concat (counter_seeds alice @ [[255]]) = concat (wager_seeds alice 1 @ [[254]])"
  from seeds_are_unambiguous [OF _ _ this] show False by (auto simp: program_seeds_def)
qed

end
