(* ===== verification/Rail_Spec.thy ===== *)
theory Rail_Spec
  imports Exits
begin

text \<open>
  What the program is, without Solana: a specification over unbounded numbers and sets, and the
  proof that the program refines it. A wager is a slip: its terms, the set of sides that have
  paid and the set of those that got their stake back; there are no states, because a slip is
  locked exactly when both sides have paid. The rail is the slips, the balances, the counts and
  the sum at stake. Every instruction on a wager, whatever accounts it is given, is the step of
  the specification that it names.
\<close>

section \<open>The specification\<close>

record slip =
  sl_a :: pubkey
  sl_b :: pubkey
  sl_stake :: nat
  sl_mint :: pubkey
  sl_fee :: nat
  sl_fee_to :: pubkey
  sl_resolver :: pubkey
  sl_fund :: int
  sl_resolve :: int
  sl_paid :: "pubkey set"
  sl_back :: "pubkey set"
  sl_offer :: "pubkey option"

record rules =
  ru_mint :: pubkey
  ru_fee :: nat
  ru_fee_to :: pubkey
  ru_min :: nat
  ru_max :: nat
  ru_window :: int
  ru_resolvers :: "pubkey set"
  ru_paused :: bool
  ru_wallet_cap :: nat
  ru_total_cap :: nat

record rail =
  ra_rules :: "rules option"
  ra_slips :: "pubkey \<Rightarrow> slip option"
  ra_balance :: "pubkey \<Rightarrow> nat"
  ra_count :: "pubkey \<Rightarrow> nat"
  ra_total :: nat

text \<open>The acts on a wager; staking names the token account that pays.\<close>

datatype act =
    Open_Slip pubkey pubkey nat pubkey int int
  | Stake pubkey pubkey
  | Unstake pubkey
  | Decide pubkey
  | Yield pubkey
  | Refund pubkey
  | Offer pubkey
  | Withdraw pubkey
  | Agree pubkey
  | Finish

definition sides :: "slip \<Rightarrow> pubkey set" where
  "sides v = {sl_a v, sl_b v}"

definition locked :: "slip \<Rightarrow> bool" where
  "locked v \<longleftrightarrow> sl_paid v = sides v"

definition deadline :: "slip \<Rightarrow> int" where
  "deadline v = (if locked v then sl_resolve v else sl_fund v)"

definition other_side :: "slip \<Rightarrow> pubkey \<Rightarrow> pubkey" where
  "other_side v s = (if s = sl_a v then sl_b v else sl_a v)"

text \<open>The vault is the slip's canonical token account, a side's purse is the side's.\<close>

definition purse_key :: "env \<Rightarrow> slip \<Rightarrow> pubkey \<Rightarrow> pubkey" where
  "purse_key E v s = ata_address E s (sl_mint v)"

definition pot_of :: "slip \<Rightarrow> nat" where
  "pot_of v = 2 * sl_stake v"

definition prize :: "slip \<Rightarrow> nat" where
  "prize v = pot_of v - pot_of v * sl_fee v div 10000"

text \<open>When a new slip is taken.\<close>

definition acceptable :: "rules \<Rightarrow> int \<Rightarrow> pubkey \<Rightarrow> pubkey \<Rightarrow> nat \<Rightarrow> pubkey \<Rightarrow> int \<Rightarrow> int \<Rightarrow> bool" where
  "acceptable r now a b n judge fund resolve \<longleftrightarrow>
    \<not> ru_paused r \<and> ru_min r \<le> n \<and> n \<le> ru_max r \<and> judge \<in> ru_resolvers r - {a, b} \<and>
    a \<noteq> b \<and> a \<noteq> default_key \<and> b \<noteq> default_key \<and>
    now < fund \<and> fund < resolve \<and> fund - now \<le> ru_window r \<and> resolve - fund \<le> ru_window r"

definition new_slip :: "rules \<Rightarrow> pubkey \<Rightarrow> pubkey \<Rightarrow> nat \<Rightarrow> pubkey \<Rightarrow> int \<Rightarrow> int \<Rightarrow> slip" where
  "new_slip r a b n judge fund resolve =
    \<lparr>sl_a = a, sl_b = b, sl_stake = n, sl_mint = ru_mint r, sl_fee = ru_fee r,
     sl_fee_to = ru_fee_to r, sl_resolver = judge, sl_fund = fund, sl_resolve = resolve,
     sl_paid = {}, sl_back = {}, sl_offer = None\<rparr>"

text \<open>Whether a slip allows an act at a time, with the signatures given.\<close>

fun allowed :: "int \<Rightarrow> pubkey set \<Rightarrow> slip \<Rightarrow> act \<Rightarrow> bool" where
  "allowed now sg v (Open_Slip a b n judge fund resolve) \<longleftrightarrow> False"
| "allowed now sg v (Stake s from) \<longleftrightarrow>
    s \<in> sg \<and> s \<in> sides v - sl_paid v \<and> now \<le> sl_fund v"
| "allowed now sg v (Unstake s) \<longleftrightarrow>
    s \<in> sg \<and> s \<in> sl_paid v \<and> \<not> locked v \<and> now \<le> sl_fund v"
| "allowed now sg v (Decide winner) \<longleftrightarrow>
    sl_resolver v \<in> sg \<and> winner \<in> sides v \<and> locked v \<and> now \<le> sl_resolve v"
| "allowed now sg v (Yield s) \<longleftrightarrow>
    s \<in> sg \<and> s \<in> sides v \<and> locked v \<and> now \<le> sl_resolve v"
| "allowed now sg v (Refund s) \<longleftrightarrow>
    s \<in> sl_paid v - sl_back v \<and> deadline v < now"
| "allowed now sg v (Offer s) \<longleftrightarrow>
    s \<in> sg \<and> s \<in> sides v \<and> locked v \<and> now \<le> sl_resolve v \<and> sl_offer v = None"
| "allowed now sg v (Withdraw s) \<longleftrightarrow>
    s \<in> sg \<and> s \<in> sides v \<and> sl_offer v \<noteq> None"
| "allowed now sg v (Agree s) \<longleftrightarrow>
    s \<in> sg \<and> s \<in> sides v \<and> locked v \<and> now \<le> sl_resolve v \<and> sl_offer v = Some (other_side v s)"
| "allowed now sg v Finish \<longleftrightarrow>
    sl_paid v \<subseteq> sl_back v \<and> deadline v < now"

text \<open>Staking also has to respect the two caps and the payer's balance.\<close>

definition within_caps :: "env \<Rightarrow> rail \<Rightarrow> slip \<Rightarrow> pubkey \<Rightarrow> pubkey \<Rightarrow> bool" where
  "within_caps E R v s from \<longleftrightarrow> (case ra_rules R of None \<Rightarrow> False | Some r \<Rightarrow>
    ra_count R (counter_key E s) < ru_wallet_cap r \<and>
    ra_total R + sl_stake v \<le> ru_total_cap r \<and> sl_stake v \<le> ra_balance R from)"

text \<open>Moving money, and the three shapes of an effect.\<close>

definition shift :: "pubkey \<Rightarrow> pubkey \<Rightarrow> nat \<Rightarrow> (pubkey \<Rightarrow> nat) \<Rightarrow> pubkey \<Rightarrow> nat" where
  "shift f t n b = b(f := b f - n, t := b t + n)"

definition take_stake :: "env \<Rightarrow> pubkey \<Rightarrow> slip \<Rightarrow> pubkey \<Rightarrow> pubkey \<Rightarrow> rail \<Rightarrow> rail" where
  "take_stake E k v s from R = R\<lparr>
    ra_slips := (ra_slips R)(k \<mapsto> v\<lparr>sl_paid := insert s (sl_paid v)\<rparr>),
    ra_balance := shift from (purse_key E v k) (sl_stake v) (ra_balance R),
    ra_count := (ra_count R)(counter_key E s := ra_count R (counter_key E s) + 1),
    ra_total := ra_total R + sl_stake v\<rparr>"

definition give_back :: "env \<Rightarrow> pubkey \<Rightarrow> slip \<Rightarrow> pubkey \<Rightarrow> slip \<Rightarrow> rail \<Rightarrow> rail" where
  "give_back E k v s v' R = R\<lparr>
    ra_slips := (ra_slips R)(k \<mapsto> v'),
    ra_balance := shift (purse_key E v k) (purse_key E v s) (sl_stake v) (ra_balance R),
    ra_count := (ra_count R)(counter_key E s := ra_count R (counter_key E s) - 1),
    ra_total := ra_total R - sl_stake v\<rparr>"

text \<open>A payment list empties the vault; what is left of it goes to the fee account.\<close>

definition pay_out :: "env \<Rightarrow> pubkey \<Rightarrow> slip \<Rightarrow> (pubkey \<times> nat) list \<Rightarrow> (pubkey \<Rightarrow> nat) \<Rightarrow> pubkey \<Rightarrow> nat" where
  "pay_out E k v pays b j =
    (let V = purse_key E v k in
     if j = V then 0
     else b j + sum_list (map (\<lambda>(s, n). if j = purse_key E v s then n else 0) pays) +
       (if j = sl_fee_to v then b V - sum_list (map snd pays) else 0))"

definition wind_off :: "env \<Rightarrow> pubkey \<Rightarrow> slip \<Rightarrow> (pubkey \<times> nat) list \<Rightarrow> pubkey set \<Rightarrow> rail \<Rightarrow> rail" where
  "wind_off E k v pays out R = R\<lparr>
    ra_slips := (ra_slips R)(k := None),
    ra_balance := pay_out E k v pays (ra_balance R),
    ra_count := (\<lambda>j. if j \<in> counter_key E ` out then ra_count R j - 1 else ra_count R j),
    ra_total := ra_total R - sl_stake v * card out\<rparr>"

fun effect :: "env \<Rightarrow> pubkey \<Rightarrow> slip \<Rightarrow> act \<Rightarrow> rail \<Rightarrow> rail" where
  "effect E k v (Open_Slip a b n judge fund resolve) R = R"
| "effect E k v (Stake s from) R = take_stake E k v s from R"
| "effect E k v (Unstake s) R = give_back E k v s (v\<lparr>sl_paid := sl_paid v - {s}\<rparr>) R"
| "effect E k v (Refund s) R = give_back E k v s (v\<lparr>sl_back := insert s (sl_back v)\<rparr>) R"
| "effect E k v (Offer s) R = R\<lparr>ra_slips := (ra_slips R)(k \<mapsto> v\<lparr>sl_offer := Some s\<rparr>)\<rparr>"
| "effect E k v (Withdraw s) R = R\<lparr>ra_slips := (ra_slips R)(k \<mapsto> v\<lparr>sl_offer := None\<rparr>)\<rparr>"
| "effect E k v (Decide winner) R = wind_off E k v [(winner, prize v)] (sides v) R"
| "effect E k v (Yield s) R = wind_off E k v [(other_side v s, prize v)] (sides v) R"
| "effect E k v (Agree s) R =
    wind_off E k v [(sl_a v, sl_stake v), (sl_b v, sl_stake v)] (sides v) R"
| "effect E k v Finish R = wind_off E k v [] {} R"

text \<open>A step of the specification: the rail after the act, or nothing when it is not allowed.\<close>

fun rail_step :: "env \<Rightarrow> int \<Rightarrow> pubkey set \<Rightarrow> pubkey \<Rightarrow> act \<Rightarrow> rail \<Rightarrow> rail option" where
  "rail_step E now sg k (Open_Slip a b n judge fund resolve) R =
    (case (ra_rules R, ra_slips R k) of
       (Some r, None) \<Rightarrow>
         if acceptable r now a b n judge fund resolve
         then Some (R\<lparr>ra_slips := (ra_slips R)(k \<mapsto> new_slip r a b n judge fund resolve)\<rparr>)
         else None
     | _ \<Rightarrow> None)"
| "rail_step E now sg k (Stake s from) R =
    (case ra_slips R k of
       None \<Rightarrow> None
     | Some v \<Rightarrow> if allowed now sg v (Stake s from) \<and> within_caps E R v s from
         then Some (effect E k v (Stake s from) R) else None)"
| "rail_step E now sg k act R =
    (case ra_slips R k of
       None \<Rightarrow> None
     | Some v \<Rightarrow> if allowed now sg v act then Some (effect E k v act R) else None)"

section \<open>The program as a rail\<close>

definition slip_of :: "wager \<Rightarrow> slip" where
  "slip_of w =
    \<lparr>sl_a = w_side_a w, sl_b = w_side_b w, sl_stake = unat (w_stake w), sl_mint = w_mint w,
     sl_fee = unat (w_fee_bps w), sl_fee_to = w_fee_destination w, sl_resolver = w_resolver w,
     sl_fund = sint (w_deadline_fund w), sl_resolve = sint (w_deadline_resolve w),
     sl_paid = (if w_funded_a w then {w_side_a w} else {}) \<union> (if w_funded_b w then {w_side_b w} else {}),
     sl_back = (if w_refunded_a w then {w_side_a w} else {}) \<union>
       (if w_refunded_b w then {w_side_b w} else {}),
     sl_offer = (if w_cancel_proposed_by w = default_key then None
       else Some (w_cancel_proposed_by w))\<rparr>"

definition rules_of :: "config \<Rightarrow> rules" where
  "rules_of c =
    \<lparr>ru_mint = c_mint c, ru_fee = unat (c_fee_bps c), ru_fee_to = c_fee_destination c,
     ru_min = unat (c_min_stake c), ru_max = unat (c_max_stake c),
     ru_window = sint (c_max_window c),
     ru_resolvers = set (take (unat (c_resolver_count c)) (c_resolver_allowlist c)),
     ru_paused = c_paused c, ru_wallet_cap = unat (c_max_open_per_wallet c),
     ru_total_cap = unat (c_max_total_open c)\<rparr>"

fun slip_at :: "account_data option \<Rightarrow> slip option" where
  "slip_at (Some (WagerAcc w)) = Some (slip_of w)"
| "slip_at _ = None"

fun rules_at :: "account_data option \<Rightarrow> rules option" where
  "rules_at (Some (ConfigAcc c)) = Some (rules_of c)"
| "rules_at _ = None"

fun total_at :: "account_data option \<Rightarrow> nat" where
  "total_at (Some (ConfigAcc c)) = unat (c_total_open_value c)"
| "total_at _ = 0"

definition rail_of :: "env \<Rightarrow> world \<Rightarrow> rail" where
  "rail_of E W =
    \<lparr>ra_rules = rules_at (accts W (config_key E)),
     ra_slips = (\<lambda>k. slip_at (accts W k)),
     ra_balance = amount_at (tokens (ledger W)),
     ra_count = (\<lambda>k. count_of (accts W k)),
     ra_total = total_at (accts W (config_key E))\<rparr>"

text \<open>The act an instruction names.\<close>

fun act_of :: "call \<Rightarrow> act" where
  "act_of (Create_Wager a args) = Open_Slip (ca_side_a args) (ca_side_b args)
    (unat (ca_stake args)) (ca_resolver args) (sint (ca_deadline_fund args))
    (sint (ca_deadline_resolve args))"
| "act_of (Stake_Side a) = Stake (ss_staker a) (ss_staker_token a)"
| "act_of (Unstake_Side a) = Unstake (us_staker a)"
| "act_of (Resolve a winner) = Decide winner"
| "act_of (Concede a) = Yield (cc_conceder a)"
| "act_of (Refund_Side a) = Refund (rf_side a)"
| "act_of (Cancel_Propose a) = Offer (cp_participant a)"
| "act_of (Cancel_Clear a) = Withdraw (cl_participant a)"
| "act_of (Cancel_Accept a) = Agree (ac_acceptor a)"
| "act_of _ = Finish"

lemma rail_of_simps [simp]:
  "ra_rules (rail_of E W) = rules_at (accts W (config_key E))"
  "ra_slips (rail_of E W) k = slip_at (accts W k)"
  "ra_balance (rail_of E W) = amount_at (tokens (ledger W))"
  "ra_count (rail_of E W) k = count_of (accts W k)"
  "ra_total (rail_of E W) = total_at (accts W (config_key E))"
  by (simp_all add: rail_of_def)

lemma slip_of_simps [simp]:
  "sl_a (slip_of w) = w_side_a w" "sl_b (slip_of w) = w_side_b w"
  "sl_stake (slip_of w) = unat (w_stake w)" "sl_mint (slip_of w) = w_mint w"
  "sl_fee (slip_of w) = unat (w_fee_bps w)" "sl_fee_to (slip_of w) = w_fee_destination w"
  "sl_resolver (slip_of w) = w_resolver w" "sl_fund (slip_of w) = sint (w_deadline_fund w)"
  "sl_resolve (slip_of w) = sint (w_deadline_resolve w)"
  "sl_offer (slip_of w) =
    (if w_cancel_proposed_by w = default_key then None else Some (w_cancel_proposed_by w))"
  by (simp_all add: slip_of_def)

lemma slip_of_keys [simp]:
  "sides (slip_of w) = {w_side_a w, w_side_b w}" "other_side (slip_of w) s = counterparty w s"
  "purse_key E (slip_of w) k = ata_address E k (w_mint w)"
  by (simp_all add: sides_def other_side_def counterparty_def purse_key_def)

lemma rules_update [simp]: "rules_of (c\<lparr>c_total_open_value := t\<rparr>) = rules_of c"
  by (simp add: rules_of_def)

text \<open>The sets of a slip are the flags of the wager; it is locked when the state says active.\<close>

lemma slip_paid: "s \<in> sl_paid (slip_of w) \<longleftrightarrow> is_participant w s \<and> funded s w"
  if "w_side_a w \<noteq> w_side_b w" for s
  using that by (auto simp: slip_of_def is_participant_def funded_def)

lemma slip_in_play:
  "s \<in> sl_paid (slip_of w) - sl_back (slip_of w) \<longleftrightarrow> is_participant w s \<and> side_in s w"
  if "w_side_a w \<noteq> w_side_b w" for s
  using that by (auto simp: slip_of_def is_participant_def side_in_def open_a_def open_b_def)

lemma slip_locked:
  assumes "life_wf E now w" "w_side_a w \<noteq> w_side_b w"
  shows "locked (slip_of w) \<longleftrightarrow> w_state w = Active"
  using assms by (auto simp: locked_def sides_def slip_of_def life_wf_def)

lemma slip_deadline:
  assumes "life_wf E now w" "w_side_a w \<noteq> w_side_b w"
  shows "deadline (slip_of w) = sint (operative_deadline w)"
  using slip_locked [OF assms] assms(1)
  by (auto simp: deadline_def operative_deadline_def life_wf_def)

lemma slip_gone: "sl_paid (slip_of w) \<subseteq> sl_back (slip_of w) \<longleftrightarrow> fully_exited w"
  if "w_side_a w \<noteq> w_side_b w"
  using that by (auto simp: slip_of_def fully_exited_def)

text \<open>What the steps of a wager do to its slip.\<close>

lemma slip_stake_in:
  assumes "is_participant w s"
  shows "slip_of (stake_in s w) = (slip_of w)\<lparr>sl_paid := insert s (sl_paid (slip_of w))\<rparr>"
  using assms by (auto simp: slip_of_def stake_in_def Let_def is_participant_def)

lemma slip_stake_out:
  assumes "is_participant w s" "w_side_a w \<noteq> w_side_b w"
  shows "slip_of (stake_out s w) = (slip_of w)\<lparr>sl_paid := sl_paid (slip_of w) - {s}\<rparr>"
  using assms by (auto simp: slip_of_def stake_out_def is_participant_def)

lemma slip_refunded:
  assumes "is_participant w s"
  shows "slip_of (mark_refunded s w) = (slip_of w)\<lparr>sl_back := insert s (sl_back (slip_of w))\<rparr>"
  using assms by (auto simp: slip_of_def mark_refunded_def is_participant_def)

lemma slip_offer:
  "slip_of (w\<lparr>w_cancel_proposed_by := s\<rparr>) =
    (slip_of w)\<lparr>sl_offer := (if s = default_key then None else Some s)\<rparr>"
  by (simp add: slip_of_def)

section \<open>Every instruction is the step it names\<close>

lemma slip_at_cong:
  "(\<And>w. d' = Some (WagerAcc w) \<longleftrightarrow> d = Some (WagerAcc w)) \<Longrightarrow> slip_at d' = slip_at d"
  by (cases d rule: slip_at.cases; cases d' rule: slip_at.cases) (auto, metis)

text \<open>No wager appears but by its creation, and the other wagers stay.\<close>

lemma wagers_are_old:
  assumes run: "exec E sg c W = Inr W'" and k: "call_wager c = Some k" "j \<noteq> k"
    and j: "accts W' j = Some (WagerAcc w)"
  shows "\<exists>w. accts W j = Some (WagerAcc w)"
proof (cases c)
  case (Create_Wager a args)
  with run have "handle_create_wager E sg a args W = Inr W'" by simp
  then show ?thesis
    by (rule create_wager_success)
      (use k j Create_Wager in \<open>auto dest!: create_wager_accts(1) split: if_splits\<close>)
next
  case (Stake_Side a)
  with run have "handle_stake_side E sg a W = Inr W'" by simp
  then show ?thesis
    by (rule stake_side_success) (use k j Stake_Side in
      \<open>auto simp: validate_stake_side_Inr init_if_needed_counter_Inr split: if_splits\<close>)
next
  case (Unstake_Side a)
  with run have "handle_unstake_side E sg a W = Inr W'" by simp
  then show ?thesis
    by (rule unstake_side_success) (use k j Unstake_Side in \<open>auto split: if_splits\<close>)
next
  case (Resolve a winner)
  with run have "handle_resolve E sg a winner W = Inr W'" by simp
  then show ?thesis by (rule resolve_success) (use k j Resolve in \<open>auto split: if_splits\<close>)
next
  case (Concede a)
  with run have "handle_concede E sg a W = Inr W'" by simp
  then show ?thesis by (rule concede_success) (use k j Concede in \<open>auto split: if_splits\<close>)
next
  case (Refund_Side a)
  with run have "handle_refund_side E sg a W = Inr W'" by simp
  then show ?thesis by (rule refund_side_success) (use k j Refund_Side in \<open>auto split: if_splits\<close>)
next
  case (Cancel_Propose a)
  with run have "handle_cancel_propose E sg a W = Inr W'" by simp
  then show ?thesis by (rule cancel_propose_success) (use k j Cancel_Propose in \<open>auto split: if_splits\<close>)
next
  case (Cancel_Clear a)
  with run have "handle_cancel_clear E sg a W = Inr W'" by simp
  then show ?thesis by (rule cancel_clear_success) (use k j Cancel_Clear in \<open>auto split: if_splits\<close>)
next
  case (Cancel_Accept a)
  with run have "handle_cancel_accept E sg a W = Inr W'" by simp
  then show ?thesis by (rule cancel_accept_success) (use k j Cancel_Accept in \<open>auto split: if_splits\<close>)
next
  case (Close_Expired a)
  with run have "handle_close_expired E sg a W = Inr W'" by simp
  then show ?thesis by (rule close_expired_success) (use k j Close_Expired in \<open>auto split: if_splits\<close>)
qed (use k in simp_all)

lemma other_slips:
  assumes run: "exec E sg c W = Inr W'" and k: "call_wager c = Some k" "j \<noteq> k"
  shows "slip_at (accts W' j) = slip_at (accts W j)"
proof (rule slip_at_cong)
  fix w
  have same: "accts W' j = accts W j" if "accts W j = Some (WagerAcc u)" for u
    using exec_follows [OF run that] k by simp
  show "accts W' j = Some (WagerAcc w) \<longleftrightarrow> accts W j = Some (WagerAcc w)"
  proof
    assume "accts W' j = Some (WagerAcc w)"
    with wagers_are_old [OF run k this] same show "accts W j = Some (WagerAcc w)" by auto
  qed (use same in auto)
qed

text \<open>A rail is the sum of its parts.\<close>

lemma rail_eqI:
  assumes "ra_rules R = ra_rules S" "\<And>k. ra_slips R k = ra_slips S k"
    and "\<And>j. ra_balance R j = ra_balance S j" "\<And>j. ra_count R j = ra_count S j"
    and "ra_total R = ra_total S"
  shows "R = (S :: rail)"
  by (rule rail.equality) (use assms in auto)

lemma counts_after:
  assumes "count_of (A' g) = count_of (A g)" "count_of (A' k) = count_of (A k)"
    and "\<And>i. i \<notin> {g, k} \<union> X \<Longrightarrow> A' i = A i" "j \<notin> X"
  shows "count_of (A' j) = count_of (A j)"
  using assms by (cases "j = g"; cases "j = k") simp_all

text \<open>Balances after a payment from \<open>f\<close> to \<open>t\<close>.\<close>

lemma balances_shift:
  assumes "amount_at T' f + n = amount_at T f" "amount_at T' t = amount_at T t + n"
    and "\<And>j. j \<noteq> f \<Longrightarrow> j \<noteq> t \<Longrightarrow> T' j = T j"
  shows "amount_at T' j = shift f t n (amount_at T) j"
proof (cases "j = f \<or> j = t")
  case True
  with assms(1,2) show ?thesis by (cases "f = t") (auto simp: shift_def)
next
  case False
  with assms(3) [of j] show ?thesis by (simp add: shift_def amount_at_def)
qed

lemma rail_give_back:
  assumes ret: "returns_stake E W k s w' W'" and k: "accts W k = Some (WagerAcc w)"
    and slips: "\<And>j. j \<noteq> k \<Longrightarrow> slip_at (accts W' j) = slip_at (accts W j)"
  shows "rail_of E W' = give_back E k (slip_of w) s (slip_of w') (rail_of E W)"
proof -
  obtain c t where r: "accts W' k = Some (WagerAcc w')"
    "accts W (config_key E) = Some (ConfigAcc c)"
    "accts W' (config_key E) = Some (ConfigAcc (c\<lparr>c_total_open_value := t\<rparr>))"
    "unat t + unat (w_stake w) = unat (c_total_open_value c)"
    "count_of (accts W' (counter_key E s)) + 1 = count_of (accts W (counter_key E s))"
    "\<And>j. j \<notin> {config_key E, k, counter_key E s} \<Longrightarrow> accts W' j = accts W j"
    "amount_at (tokens (ledger W')) (vault_key E k w) + unat (w_stake w) =
      amount_at (tokens (ledger W)) (vault_key E k w)"
    "amount_at (tokens (ledger W')) (ata_address E s (w_mint w)) =
      amount_at (tokens (ledger W)) (ata_address E s (w_mint w)) + unat (w_stake w)"
    "\<And>j. j \<noteq> vault_key E k w \<Longrightarrow> j \<noteq> ata_address E s (w_mint w) \<Longrightarrow>
      tokens (ledger W') j = tokens (ledger W) j"
    using ret k by (auto simp: returns_stake_def Let_def)
  show ?thesis
  proof (rule rail_eqI)
    fix j
    show "ra_slips (rail_of E W') j = ra_slips (give_back E k (slip_of w) s (slip_of w') (rail_of E W)) j"
      using r(1) slips by (simp add: give_back_def)
    show "ra_balance (rail_of E W') j = ra_balance (give_back E k (slip_of w) s (slip_of w') (rail_of E W)) j"
      using balances_shift [OF r(7,8,9)] by (simp add: give_back_def vault_key_def)
    show "ra_count (rail_of E W') j = ra_count (give_back E k (slip_of w) s (slip_of w') (rail_of E W)) j"
    proof (cases "j = counter_key E s")
      case True
      with r(5) show ?thesis by (simp add: give_back_def)
    next
      case False
      with counts_after [of "accts W'" "config_key E" "accts W" k "{counter_key E s}" j] r(1-3,6) k
      show ?thesis by (simp add: give_back_def)
    qed
  qed (use r(2-4) in \<open>simp_all add: give_back_def\<close>)
qed

lemma rail_take_stake:
  assumes took: "takes_stake E W k s from W'" and k: "accts W k = Some (WagerAcc w)"
    and slips: "\<And>j. j \<noteq> k \<Longrightarrow> slip_at (accts W' j) = slip_at (accts W j)"
    and s: "is_participant w s"
  shows "rail_of E W' = take_stake E k (slip_of w) s from (rail_of E W)"
    and "within_caps E (rail_of E W) (slip_of w) s from"
proof -
  from took obtain w1 c t where w1: "accts W k = Some (WagerAcc w1)"
    and r: "accts W' k = Some (WagerAcc (stake_in s w1))"
    "accts W (config_key E) = Some (ConfigAcc c)"
    "accts W' (config_key E) = Some (ConfigAcc (c\<lparr>c_total_open_value := t\<rparr>))"
    "unat t = unat (c_total_open_value c) + unat (w_stake w1)"
    "count_of (accts W' (counter_key E s)) = count_of (accts W (counter_key E s)) + 1"
    "\<forall>j. j \<notin> {config_key E, k, counter_key E s} \<longrightarrow> accts W' j = accts W j"
    "amount_at (tokens (ledger W')) from + unat (w_stake w1) = amount_at (tokens (ledger W)) from"
    "amount_at (tokens (ledger W')) (vault_key E k w1) =
      amount_at (tokens (ledger W)) (vault_key E k w1) + unat (w_stake w1)"
    "\<forall>j. j \<noteq> vault_key E k w1 \<and> j \<noteq> from \<longrightarrow> tokens (ledger W') j = tokens (ledger W) j"
    and caps: "t \<le> c_max_total_open c"
      "count_of (accts W' (counter_key E s)) \<le> unat (c_max_open_per_wallet c)"
    unfolding takes_stake_def Let_def by (elim exE conjE) (rule that; assumption)
  have "w1 = w" using w1 k by simp
  note r = r [unfolded this]
  show "within_caps E (rail_of E W) (slip_of w) s from"
    using r(2,4,5,7) caps by (simp add: within_caps_def rules_of_def word_le_nat_alt)
  show "rail_of E W' = take_stake E k (slip_of w) s from (rail_of E W)"
  proof (rule rail_eqI)
    fix j
    show "ra_slips (rail_of E W') j = ra_slips (take_stake E k (slip_of w) s from (rail_of E W)) j"
      using r(1) slips slip_stake_in [OF s] by (simp add: take_stake_def)
    show "ra_balance (rail_of E W') j = ra_balance (take_stake E k (slip_of w) s from (rail_of E W)) j"
      using balances_shift [OF r(7,8), of j] r(9) by (simp add: take_stake_def vault_key_def)
    show "ra_count (rail_of E W') j = ra_count (take_stake E k (slip_of w) s from (rail_of E W)) j"
    proof (cases "j = counter_key E s")
      case True
      with r(5) show ?thesis by (simp add: take_stake_def)
    next
      case False
      with counts_after [of "accts W'" "config_key E" "accts W" k "{counter_key E s}" j] r(1-3,6) k
      show ?thesis by (simp add: take_stake_def)
    qed
  qed (use r(2-4) in \<open>simp_all add: take_stake_def\<close>)
qed

text \<open>The end of a slip: it is gone, its vault is empty, the books no longer count it.\<close>

lemma rail_wind_off:
  assumes k: "accts W k = Some (WagerAcc w)" and gone: "accts W' k = None"
    and c: "accts W (config_key E) = Some (ConfigAcc c)"
      "accts W' (config_key E) = Some (ConfigAcc (c\<lparr>c_total_open_value := t\<rparr>))"
    and total: "unat t + unat (w_stake w) * card out = unat (c_total_open_value c)"
    and dec: "\<And>s. s \<in> out \<Longrightarrow>
      count_of (accts W' (counter_key E s)) + 1 = count_of (accts W (counter_key E s))"
    and rest: "\<And>j. j \<notin> {config_key E, k} \<union> counter_key E ` out \<Longrightarrow> accts W' j = accts W j"
    and vault: "tokens (ledger W') (vault_key E k w) = None"
    and paid: "\<And>j. j \<noteq> vault_key E k w \<Longrightarrow> amount_at (tokens (ledger W')) j =
      amount_at (tokens (ledger W)) j +
      sum_list (map (\<lambda>(s, n). if j = ata_address E s (w_mint w) then n else 0) pays) +
      (if j = w_fee_destination w
       then amount_at (tokens (ledger W)) (vault_key E k w) - sum_list (map snd pays) else 0)"
    and slips: "\<And>j. j \<noteq> k \<Longrightarrow> slip_at (accts W' j) = slip_at (accts W j)"
  shows "rail_of E W' = wind_off E k (slip_of w) pays out (rail_of E W)"
proof (rule rail_eqI)
  fix j
  show "ra_slips (rail_of E W') j = ra_slips (wind_off E k (slip_of w) pays out (rail_of E W)) j"
    using gone slips by (simp add: wind_off_def)
  show "ra_balance (rail_of E W') j = ra_balance (wind_off E k (slip_of w) pays out (rail_of E W)) j"
    using vault paid [of j] by (simp add: wind_off_def pay_out_def Let_def vault_key_def amount_at_def)
  show "ra_count (rail_of E W') j = ra_count (wind_off E k (slip_of w) pays out (rail_of E W)) j"
  proof (cases "j \<in> counter_key E ` out")
    case True
    then obtain s where "s \<in> out" "j = counter_key E s" by blast
    with dec [of s] True show ?thesis by (simp add: wind_off_def)
  next
    case False
    have "count_of (accts W' j) = count_of (accts W j)"
      by (rule counts_after [where g = "config_key E" and k = k, OF _ _ rest False])
        (use k gone c in auto)
    with False show ?thesis by (simp add: wind_off_def)
  qed
qed (use c total in \<open>simp_all add: wind_off_def\<close>)

lemma rail_settle:
  assumes st: "settles E W k winner W'" and k: "accts W k = Some (WagerAcc w)"
    and ne: "w_side_a w \<noteq> w_side_b w"
    and slips: "\<And>j. j \<noteq> k \<Longrightarrow> slip_at (accts W' j) = slip_at (accts W j)"
  shows "rail_of E W' = wind_off E k (slip_of w) [(winner, prize (slip_of w))] (sides (slip_of w))
    (rail_of E W)"
proof -
  from st obtain w1 c t where w1: "accts W k = Some (WagerAcc w1)"
    and c: "accts W (config_key E) = Some (ConfigAcc c)"
      "accts W' (config_key E) = Some (ConfigAcc (c\<lparr>c_total_open_value := t\<rparr>))"
    and total: "unat t + 2 * unat (w_stake w1) = unat (c_total_open_value c)"
    and gone: "accts W' k = None"
    and dec: "\<forall>s \<in> {w_side_a w1, w_side_b w1}.
      count_of (accts W' (counter_key E s)) + 1 = count_of (accts W (counter_key E s))"
    and rest: "\<forall>j. j \<notin> {config_key E, k, counter_key E (w_side_a w1), counter_key E (w_side_b w1)} \<longrightarrow>
      accts W' j = accts W j"
    and dat: "token_data (tokens (ledger W')) =
      (token_data (tokens (ledger W)))(vault_key E k w1 := None)"
    and am: "\<forall>j. j \<noteq> vault_key E k w1 \<longrightarrow> amount_at (tokens (ledger W')) j =
      amount_at (tokens (ledger W)) j +
      (if j = ata_address E winner (w_mint w1)
       then 2 * unat (w_stake w1) - fee_of (unat (w_stake w1)) (unat (w_fee_bps w1)) else 0) +
      (if j = w_fee_destination w1
       then amount_at (tokens (ledger W)) (vault_key E k w1) -
         (2 * unat (w_stake w1) - fee_of (unat (w_stake w1)) (unat (w_fee_bps w1))) else 0)"
    unfolding settles_def Let_def by (elim exE conjE) (rule that; assumption)
  have "w1 = w" using w1 k by simp
  note total = total [unfolded this] and dec = dec [unfolded this] and rest = rest [unfolded this]
    and dat = dat [unfolded this] and am = am [unfolded this]
  have prize: "prize (slip_of w) =
      2 * unat (w_stake w) - fee_of (unat (w_stake w)) (unat (w_fee_bps w))"
    by (simp add: prize_def pot_of_def fee_of_def)
  have "tokens (ledger W') (vault_key E k w) = None"
    using fun_cong [OF dat, of "vault_key E k w"] by (simp add: token_data_None)
  then show ?thesis
    by (intro rail_wind_off [OF k gone c])
      (use total dec rest am slips ne in \<open>auto simp: prize\<close>)
qed

lemma rail_finish:
  assumes k: "accts W k = Some (WagerAcc w)" and W': "accts W' = (accts W)(k := None)"
    and dat: "token_data (tokens (ledger W')) =
      (token_data (tokens (ledger W)))(vault_key E k w := None)"
    and am: "\<forall>j. j \<noteq> vault_key E k w \<longrightarrow> amount_at (tokens (ledger W')) j =
      amount_at (tokens (ledger W)) j +
      (if j = w_fee_destination w then amount_at (tokens (ledger W)) (vault_key E k w) else 0)"
    and c: "accts W (config_key E) = Some (ConfigAcc c)"
  shows "rail_of E W' = wind_off E k (slip_of w) [] {} (rail_of E W)"
proof (rule rail_wind_off [OF k _ c])
  show "tokens (ledger W') (vault_key E k w) = None"
    using fun_cong [OF dat, of "vault_key E k w"] by (simp add: token_data_None)
  show "accts W' (config_key E) = Some (ConfigAcc (c\<lparr>c_total_open_value := c_total_open_value c\<rparr>))"
    using W' c k by auto
qed (use k W' am in auto)

lemma rail_offer:
  assumes k: "accts W k = Some (WagerAcc w)"
    and c: "accts W (config_key E) = Some (ConfigAcc c)"
    and W': "accts W' = (accts W)(k \<mapsto> WagerAcc (w\<lparr>w_cancel_proposed_by := s\<rparr>))"
      "ledger W' = ledger W"
  shows "rail_of E W' = (rail_of E W)\<lparr>ra_slips := (ra_slips (rail_of E W))(k \<mapsto>
    (slip_of w)\<lparr>sl_offer := (if s = default_key then None else Some s)\<rparr>)\<rparr>"
proof (rule rail_eqI)
  have ne: "k \<noteq> config_key E" using k c by auto
  show "ra_rules (rail_of E W') = ra_rules ((rail_of E W)\<lparr>ra_slips := (ra_slips (rail_of E W))(k \<mapsto>
    (slip_of w)\<lparr>sl_offer := (if s = default_key then None else Some s)\<rparr>)\<rparr>)"
    "ra_total (rail_of E W') = ra_total ((rail_of E W)\<lparr>ra_slips := (ra_slips (rail_of E W))(k \<mapsto>
    (slip_of w)\<lparr>sl_offer := (if s = default_key then None else Some s)\<rparr>)\<rparr>)"
    using W' ne by simp_all
qed (use W' k in \<open>simp_all add: slip_offer\<close>)

context chain
begin

lemma cancel_accept_counts:
  assumes inv: "inv E W" and run: "handle_cancel_accept E sg a W = Inr W'"
    and k: "accts W (ac_wager a) = Some (WagerAcc w)"
  shows "\<forall>s \<in> {w_side_a w, w_side_b w}.
      count_of (accts W' (counter_key E s)) + 1 = count_of (accts W (counter_key E s))"
    and "\<forall>j. j \<notin> {config_key E, ac_wager a, counter_key E (w_side_a w), counter_key E (w_side_b w)} \<longrightarrow>
      accts W' j = accts W j"
proof -
  let ?k = "ac_wager a"
  obtain c w1 xa xb n t L where v: "validate_cancel_accept E sg a W = Inr (c, w1, xa, xb)"
    and both: "w_state w1 = Active" "clock W \<le>s w_deadline_resolve w1"
    and A': "accts W' = (accts W)(ac_config a \<mapsto> ConfigAcc (c\<lparr>c_total_open_value := t\<rparr>), ?k := None,
      ac_counter_a a \<mapsto> CounterAcc (xa\<lparr>x_count := saturating_sub (x_count xa) 1\<rparr>),
      ac_counter_b a \<mapsto> CounterAcc (xb\<lparr>x_count := saturating_sub (x_count xb) 1\<rparr>))"
    by (rule cancel_accept_success [OF run]) simp
  have w1: "w1 = w" using v k by (simp add: validate_cancel_accept_Inr)
  from v have c: "accts W (ac_config a) = Some (ConfigAcc c)"
    and xa: "accts W (ac_counter_a a) = Some (CounterAcc xa)"
      "pda_at E (counter_seeds (w_side_a w)) (x_bump xa) (ac_counter_a a)"
    and xb: "accts W (ac_counter_b a) = Some (CounterAcc xb)"
      "pda_at E (counter_seeds (w_side_b w)) (x_bump xb) (ac_counter_b a)"
    and ne: "ac_counter_a a \<noteq> ac_counter_b a"
    unfolding validate_cancel_accept_Inr w1 mut_guard_iff by auto
  have ct: "counters_ok E (accts W)" and bk: "books_ok E (accts W)" and life: "life_wf E (clock W) w"
    and ck: "ac_config a = config_key E"
    using inv k c by (auto simp: inv_def wagers_ok_def config_ok_def)
  have keys: "counter_key E (w_side_a w) = ac_counter_a a" "counter_key E (w_side_b w) = ac_counter_b a"
    using counter_found [OF ct xa] counter_found [OF ct xb] .
  have "exposure E (ac_counter_a a) w \<le> unat (x_count xa)" "exposure E (ac_counter_b a) w \<le> unat (x_count xb)"
    using books_count [OF bk k, of "ac_counter_a a"] books_count [OF bk k, of "ac_counter_b a"] xa(1) xb(1)
    by simp_all
  then have counts: "1 \<le> unat (x_count xa)" "1 \<le> unat (x_count xb)"
    using active_both_open [OF life both [unfolded w1]] keys by (simp_all add: exposure_def)
  show "\<forall>s \<in> {w_side_a w, w_side_b w}.
      count_of (accts W' (counter_key E s)) + 1 = count_of (accts W (counter_key E s))"
    using A' keys ne counts xa(1) xb(1) by (simp add: unat_saturating_sub)
  show "\<forall>j. j \<notin> {config_key E, ?k, counter_key E (w_side_a w), counter_key E (w_side_b w)} \<longrightarrow>
      accts W' j = accts W j"
    using A' keys ck by simp
qed

lemma rail_agree:
  assumes inv: "inv E W" and run: "handle_cancel_accept E sg a W = Inr W'"
    and k: "accts W (ac_wager a) = Some (WagerAcc w)" and token: "w_mint w \<noteq> native_mint E"
    and slips: "\<And>j. j \<noteq> ac_wager a \<Longrightarrow> slip_at (accts W' j) = slip_at (accts W j)"
  shows "rail_of E W' = wind_off E (ac_wager a) (slip_of w)
    [(w_side_a w, unat (w_stake w)), (w_side_b w, unat (w_stake w))] (sides (slip_of w)) (rail_of E W)"
proof -
  note eff = cancel_accept_effect [OF inv run k token]
  have gone: "accts W' (ac_wager a) = None"
    and dat: "token_data (tokens (ledger W')) =
      (token_data (tokens (ledger W)))(vault_key E (ac_wager a) w := None)"
    and am: "\<forall>j. j \<noteq> vault_key E (ac_wager a) w \<longrightarrow>
      amount_at (tokens (ledger W')) j = amount_at (tokens (ledger W)) j +
        (if j = ata_address E (w_side_a w) (w_mint w) then unat (w_stake w) else 0) +
        (if j = ata_address E (w_side_b w) (w_mint w) then unat (w_stake w) else 0) +
        (if j = w_fee_destination w
         then amount_at (tokens (ledger W)) (vault_key E (ac_wager a) w) - 2 * unat (w_stake w)
         else 0)"
    using eff by blast+
  obtain c t where c: "accts W (config_key E) = Some (ConfigAcc c)"
    "accts W' (config_key E) = Some (ConfigAcc (c\<lparr>c_total_open_value := t\<rparr>))"
    and total: "unat t + 2 * unat (w_stake w) = unat (c_total_open_value c)"
    using eff by blast
  have ne: "w_side_a w \<noteq> w_side_b w" using inv k by (auto simp: inv_def wagers_ok_def terms_wf_def)
  have V: "tokens (ledger W') (vault_key E (ac_wager a) w) = None"
    using fun_cong [OF dat, of "vault_key E (ac_wager a) w"] by (simp add: token_data_None)
  note books = cancel_accept_counts [OF inv run k]
  show ?thesis
    by (rule rail_wind_off [OF k gone c _ _ _ V])
      (use total books am slips ne in \<open>auto simp: mult_2 [symmetric]\<close>)
qed

lemma wager_facts:
  assumes inv: "inv E W" and k: "accts W k = Some (WagerAcc w)" and token: "token_stakes E W"
  shows "w_side_a w \<noteq> w_side_b w" "life_wf E (clock W) w" "w_mint w \<noteq> native_mint E"
    "s \<in> {w_side_a w, w_side_b w} \<Longrightarrow> s \<noteq> default_key"
proof -
  from inv k obtain c where w: "terms_wf w" "life_wf E (clock W) w"
    "accts W (config_key E) = Some (ConfigAcc c)" "c_mint c = w_mint w"
    unfolding inv_def wagers_ok_def by blast
  with token show "w_side_a w \<noteq> w_side_b w" "life_wf E (clock W) w" "w_mint w \<noteq> native_mint E"
    "s \<in> {w_side_a w, w_side_b w} \<Longrightarrow> s \<noteq> default_key"
    by (auto simp: terms_wf_def token_stakes_def)
qed

lemma open_simulated:
  assumes inv: "inv E W" and token: "token_stakes E W"
    and run: "handle_create_wager E sg a args W = Inr W'"
  shows "rail_step E (sint (clock W)) sg (cw_wager a) (act_of (Create_Wager a args)) (rail_of E W) =
    Some (rail_of E W')"
  using run
proof (rule create_wager_success)
  fix c W2
  assume v: "validate_create_wager E sg a args W = Inr (c, W2)"
    and g: "\<not> c_paused c" "c_min_stake c \<le> ca_stake args" "ca_stake args \<le> c_max_stake c"
      "resolver_allowed c (ca_resolver args) = Inr True"
      "ca_resolver args \<noteq> ca_side_a args" "ca_resolver args \<noteq> ca_side_b args"
      "ca_side_a args \<noteq> default_key" "ca_side_b args \<noteq> default_key"
      "ca_side_b args \<noteq> ca_side_a args"
      "clock W <s ca_deadline_fund args" "ca_deadline_fund args <s ca_deadline_resolve args"
      "sint (ca_deadline_fund args) - sint (clock W) \<le> sint (c_max_window c)"
      "sint (ca_deadline_resolve args) - sint (ca_deadline_fund args) \<le> sint (c_max_window c)"
    and W': "W' = put_acct (cw_wager a) (WagerAcc (new_wager E c args))
      (emit_cpi (WagerCreated (cw_wager a) (ca_side_a args) (ca_side_b args) (ca_stake args)
        (c_mint c) (ca_resolver args) (ca_terms_hash args) (ca_deadline_fund args)
        (ca_deadline_resolve args) (ca_nonce args)) W2)"
  have "accts W (cw_config a) = Some (ConfigAcc c)" using v by (simp add: validate_create_wager_Inr)
  then have c: "accts W (config_key E) = Some (ConfigAcc c)"
    using inv by (auto simp: inv_def config_ok_def)
  note new = create_wager_accts(1,2) [OF v]
  have ne: "cw_wager a \<noteq> config_key E" using c new(2) by auto
  have A': "accts W' = (accts W)(cw_wager a \<mapsto> WagerAcc (new_wager E c args))" using W' new by simp
  have ok: "acceptable (rules_of c) (sint (clock W)) (ca_side_a args) (ca_side_b args)
      (unat (ca_stake args)) (ca_resolver args) (sint (ca_deadline_fund args))
      (sint (ca_deadline_resolve args))"
    using g by (simp add: acceptable_def rules_of_def resolver_allowed_Inr word_le_nat_alt
        word_sless_alt)
  have slip: "slip_of (new_wager E c args) = new_slip (rules_of c) (ca_side_a args) (ca_side_b args)
      (unat (ca_stake args)) (ca_resolver args) (sint (ca_deadline_fund args))
      (sint (ca_deadline_resolve args))"
    by (simp add: slip_of_def new_slip_def new_wager_def rules_of_def)
  have am: "amount_at (tokens (ledger W')) = amount_at (tokens (ledger W))"
    by (rule ext) (rule create_wager_tokens(1) [OF inv run token])
  have "rail_of E W' = (rail_of E W)\<lparr>ra_slips := (ra_slips (rail_of E W))(cw_wager a \<mapsto>
      slip_of (new_wager E c args))\<rparr>"
    by (rule rail_eqI) (use A' am ne new(2) in auto)
  with ok slip c new(2) show ?thesis by simp
qed

lemma exec_simulated:
  assumes inv: "inv E W" and real: "real_signers E sg" and token: "token_stakes E W"
    and run: "exec E sg c W = Inr W'" and named: "call_wager c = Some k"
  shows "rail_step E (sint (clock W)) sg k (act_of c) (rail_of E W) = Some (rail_of E W')"
proof (cases "\<exists>a args. c = Create_Wager a args")
  case True
  with run named open_simulated [OF inv token] show ?thesis by auto
next
  case False
  with exec_names_wager [OF run named] obtain w where k: "accts W k = Some (WagerAcc w)" by blast
  note facts = wager_facts [OF inv k token]
  note slip = slip_paid [OF facts(1)] slip_in_play [OF facts(1)] slip_locked [OF facts(2,1)]
    slip_deadline [OF facts(2,1)] slip_gone [OF facts(1)]
  note due = life_operative [OF facts(2)]
  note slips = other_slips [OF run named]
  note sgn = word_sle_eq word_sless_alt
  obtain rules where cfg: "accts W (config_key E) = Some (ConfigAcc rules)"
    using config_found [OF inv k] .
  show ?thesis
  proof (cases c)
    case (Stake_Side a)
    with run have run': "handle_stake_side E sg a W = Inr W'" by simp
    from Stake_Side run named k have eff: "takes_stake E W k (ss_staker a) (ss_staker_token a) W'"
      "ss_staker a \<in> sg" "w_state w = Funding" "clock W \<le>s w_deadline_fund w"
      using stake_side_effect [OF real inv, of a W' w] by auto
    have part: "is_participant w (ss_staker a)" "\<not> funded (ss_staker a) w"
      by (rule stake_side_success [OF run']; use named k Stake_Side in \<open>simp add: validate_stake_side_Inr\<close>)+
    note taken = rail_take_stake [OF eff(1) k slips part(1)]
    have "ss_staker a \<in> {w_side_a w, w_side_b w}" using part(1) by (simp add: is_participant_def)
    with taken eff(2-4) part k Stake_Side slip(1) show ?thesis by (simp add: sgn)
  next
    case (Unstake_Side a)
    with run have run': "handle_unstake_side E sg a W = Inr W'" by simp
    from Unstake_Side run named k have eff: "returns_stake E W k (us_staker a) (stake_out (us_staker a) w) W'"
      "us_staker a \<in> sg" "w_state w = Funding" "clock W \<le>s w_deadline_fund w"
      using unstake_side_effect [OF inv, of sg a W' w] by auto
    have part: "is_participant w (us_staker a)" "funded (us_staker a) w"
      by (rule unstake_side_success [OF run']; use named k Unstake_Side in \<open>simp add: validate_unstake_side_Inr\<close>)+
    show ?thesis
      using rail_give_back [OF eff(1) k slips] slip_stake_out [OF part(1) facts(1)] eff(2-4) part k
        Unstake_Side slip(1,3) by (simp add: sgn)
  next
    case (Resolve a winner)
    with run named k have eff: "settles E W k winner W'" "w_resolver w \<in> sg"
      using resolve_effect [OF inv, of sg a winner W' w] facts(3) by auto
    then have "w_state w = Active" "clock W \<le>s w_deadline_resolve w" "is_participant w winner"
      using k by (auto simp: settles_def)
    with rail_settle [OF eff(1) k facts(1) slips] eff(2) k Resolve slip(3) show ?thesis
      by (simp add: sgn is_participant_def)
  next
    case (Concede a)
    with run named k have eff: "settles E W k (counterparty w (cc_conceder a)) W'"
      "cc_conceder a \<in> sg" "is_participant w (cc_conceder a)"
      using concede_effect [OF inv, of sg a W' w] facts(3) by auto
    then have "w_state w = Active" "clock W \<le>s w_deadline_resolve w"
      using k by (auto simp: settles_def)
    with rail_settle [OF eff(1) k facts(1) slips] eff(2,3) k Concede slip(3) show ?thesis
      by (simp add: sgn is_participant_def)
  next
    case (Refund_Side a)
    with run have run': "handle_refund_side E sg a W = Inr W'" by simp
    from Refund_Side run named k have eff: "returns_stake E W k (rf_side a) (mark_refunded (rf_side a) w) W'"
      "refund_due (clock W) w" "is_participant w (rf_side a)"
      using refund_side_effect [OF inv, of sg a W' w] by auto
    have "side_in (rf_side a) w"
      by (rule refund_side_success [OF run'])
        (use named k Refund_Side in \<open>simp add: validate_refund_side_Inr\<close>)
    with rail_give_back [OF eff(1) k slips] slip_refunded [OF eff(3)] eff(2,3) k Refund_Side
      slip(2,4) due(1) show ?thesis by (simp add: sgn)
  next
    case (Cancel_Propose a)
    with run have run': "handle_cancel_propose E sg a W = Inr W'" by simp
    have g: "cp_participant a \<in> sg" "w_state w = Active" "clock W \<le>s w_deadline_resolve w"
      "is_participant w (cp_participant a)" "w_cancel_proposed_by w = default_key"
      and W': "accts W' = (accts W)(k \<mapsto> WagerAcc (w\<lparr>w_cancel_proposed_by := cp_participant a\<rparr>))"
        "ledger W' = ledger W"
      by (rule cancel_propose_success [OF run'];
          use named k Cancel_Propose in \<open>simp add: validate_cancel_propose_Inr\<close>)+
    from g(4) facts(4) have "cp_participant a \<noteq> default_key" by (simp add: is_participant_def)
    with rail_offer [OF k cfg W'] g k Cancel_Propose slip(3) show ?thesis
      by (simp add: sgn is_participant_def)
  next
    case (Cancel_Clear a)
    with run have run': "handle_cancel_clear E sg a W = Inr W'" by simp
    have g: "cl_participant a \<in> sg" "is_participant w (cl_participant a)"
      "w_cancel_proposed_by w \<noteq> default_key"
      and W': "accts W' = (accts W)(k \<mapsto> WagerAcc (w\<lparr>w_cancel_proposed_by := default_key\<rparr>))"
        "ledger W' = ledger W"
      by (rule cancel_clear_success [OF run'];
          use named k Cancel_Clear in \<open>simp add: validate_cancel_clear_Inr\<close>)+
    with rail_offer [OF k cfg W'] g k Cancel_Clear show ?thesis by (simp add: is_participant_def)
  next
    case (Cancel_Accept a)
    with run named k have run': "handle_cancel_accept E sg a W = Inr W'"
      and k': "accts W (ac_wager a) = Some (WagerAcc w)" "ac_wager a = k" by simp_all
    have eff: "ac_acceptor a \<in> sg" "is_participant w (ac_acceptor a)"
      "w_cancel_proposed_by w = counterparty w (ac_acceptor a)" "w_state w = Active"
      "clock W \<le>s w_deadline_resolve w"
      using cancel_accept_effect [OF inv run' k'(1) facts(3)] by blast+
    have "w_cancel_proposed_by w \<noteq> default_key"
      using eff(2,3) facts(4) by (auto simp: counterparty_def is_participant_def)
    with rail_agree [OF inv run' k'(1) facts(3)] slips k' eff k Cancel_Accept slip(3) show ?thesis
      by (simp add: sgn is_participant_def)
  next
    case (Close_Expired a)
    with run named k have run': "handle_close_expired E sg a W = Inr W'"
      and k': "accts W (ce_wager a) = Some (WagerAcc w)" "ce_wager a = k" by simp_all
    note eff = close_expired_effect [OF inv run' k'(1) facts(3), unfolded k'(2)]
    have out: "fully_exited w"
      by (rule close_expired_success [OF run']) (use k' in \<open>auto simp: validate_close_expired_Inr\<close>)
    from rail_finish [OF k _ _ _ cfg] eff have "rail_of E W' = wind_off E k (slip_of w) [] {} (rail_of E W)"
      by blast
    with eff out k Close_Expired slip(4,5) due(2) show ?thesis by (simp add: sgn)
  qed (use False named in simp_all)
qed

end

end
