(* ===== verification/Availability.thy ===== *)
theory Availability
  imports Rail_Spec
begin

text \<open>
  The other direction of the refinement: what the specification allows, the program does. On the
  canonical accounts, which this theory spells out for each act, none of the checks of accounts
  and books stands in the way; what can is outside the program (missing or frozen token
  accounts, colliding addresses), and \<open>rail_ready\<close> names it.
\<close>

section \<open>Paying out of a vault\<close>

text \<open>
  A vault at \<open>V\<close> with owner \<open>k\<close> that can pay the accounts \<open>P\<close> and be closed: everything is of one
  mint, thawed, and there is room for what the vault holds.
\<close>

definition till :: "pubkey \<Rightarrow> pubkey \<Rightarrow> pubkey \<Rightarrow> pubkey set \<Rightarrow> ledger \<Rightarrow> bool" where
  "till k m V P L \<longleftrightarrow>
    (\<exists>v. tokens L V = Some v \<and> t_owner v = k \<and> t_mint v = m \<and> \<not> t_frozen v \<and>
      t_close_authority v = None) \<and>
    (\<forall>j \<in> P. receives (tokens L) m j) \<and> V \<notin> P \<and> total_supply m (tokens L) < 2 ^ 64"

context runtime
begin

lemma till_pays:
  assumes t: "till k m V P L" and j: "j \<in> P" and le: "unat n \<le> amount_at (tokens L) V"
  obtains L' where "spl_transfer E V j k n L = Inr L'" "till k m V P L'"
    "amount_at (tokens L') V = amount_at (tokens L) V - unat n"
proof -
  obtain v where v: "tokens L V = Some v" "t_owner v = k" "t_mint v = m" "\<not> t_frozen v"
    "t_close_authority v = None" and total: "total_supply m (tokens L) < 2 ^ 64"
    using t by (auto simp: till_def)
  obtain u where u: "tokens L j = Some u" "t_mint u = m" "\<not> t_frozen u" and ne: "V \<noteq> j"
    using t j by (auto simp: till_def receives_def)
  have n: "n \<le> t_amount v" using le v(1) by (simp add: word_le_nat_alt)
  obtain L' where L': "spl_transfer E V j k n L = Inr L'"
    using transfer_enabled [OF v(1) u(1) v(2) _ v(4) u(3) n ne]
      room_for [OF ne v(1,3) u(1,2) n total] v(3) u(2) by auto
  have d: "token_data (tokens L') = token_data (tokens L)" by (rule transfer_data [OF L'])
  obtain v' where "tokens L' V = Some v'" "t_owner v' = k" "t_mint v' = m" "\<not> t_frozen v'"
    "t_close_authority v' = None"
    using token_data_Some [OF fun_cong [OF d] v(1)] v by metis
  then have "till k m V P L'"
    using t transfer_supply [OF L'] by (simp add: till_def receives_cong [OF d])
  moreover have "amount_at (tokens L') V = amount_at (tokens L) V - unat n"
    using transfer_amounts(1) [OF L' ne] by simp
  ultimately show thesis using that L' by blast
qed

text \<open>The same with seeds, and skipped when there is nothing to pay.\<close>

lemma till_pays_some:
  assumes t: "till k m V P L" and j: "j \<in> P" and le: "unat n \<le> amount_at (tokens L) V"
    and seeds: "create_pda E s = Some k"
  obtains L' where "(if 0 < n then transfer_with_seeds E s k V j n L else Inr L) = Inr L'"
    "till k m V P L'" "amount_at (tokens L') V = amount_at (tokens L) V - unat n"
proof (cases "0 < n")
  case True
  with till_pays [OF t j le] seeds that show thesis by (auto simp: transfer_with_seeds_Inr)
next
  case False
  then have "n = 0" by (simp add: word_gt_0)
  with t that show thesis by simp
qed

lemma till_closes:
  assumes t: "till k m V P L" and "amount_at (tokens L) V = 0" "d \<noteq> V"
  obtains L' where "spl_close_account E V d k L = Inr L'"
proof -
  obtain v where v: "tokens L V = Some v" "t_owner v = k" "\<not> t_frozen v" "t_close_authority v = None"
    using t by (auto simp: till_def)
  have "t_amount v = 0" using assms(2) v(1) by (simp add: unat_eq_0)
  from close_enabled [OF v(1,2,4) this v(3) assms(3)] that show thesis by blast
qed

lemma till_amount:
  assumes "till k m V P L"
  obtains v where "tokens L V = Some v" "unat (t_amount v) = amount_at (tokens L) V"
  using assms by (auto simp: till_def)

lemma pay_winner_possible:
  assumes t: "till k m V {A, F} L" and seeds: "create_pda E s = Some k"
    and le: "unat p + unat f \<le> amount_at (tokens L) V" and rc: "rc \<noteq> V"
  shows "\<exists>r L'. pay_winner_and_close_vault E k s V A F rc p f L = Inr (r, L')"
proof -
  have A: "A \<in> {A, F}" and F: "F \<in> {A, F}" by simp_all
  obtain L1 where L1: "spl_transfer E V A k p L = Inr L1" "till k m V {A, F} L1"
    "amount_at (tokens L1) V = amount_at (tokens L) V - unat p"
    by (rule till_pays [OF t A, of p]) (use le in linarith)+
  obtain L2 where L2: "(if 0 < f then transfer_with_seeds E s k V F f L1 else Inr L1) = Inr L2"
    "till k m V {A, F} L2"
    by (rule till_pays_some [OF L1(2) F _ seeds, of f]) (use le L1(3) in linarith)+
  obtain v where v: "tokens L2 V = Some v" "unat (t_amount v) = amount_at (tokens L2) V"
    by (rule till_amount [OF L2(2)])
  obtain L3 where L3: "(if 0 < t_amount v then transfer_with_seeds E s k V F (t_amount v) L2
      else Inr L2) = Inr L3" "till k m V {A, F} L3" "amount_at (tokens L3) V = 0"
    by (rule till_pays_some [OF L2(2) F _ seeds, of "t_amount v"]) (use v(2) in simp_all)
  obtain L4 where "spl_close_account E V rc k L3 = Inr L4" by (rule till_closes [OF L3(2,3) rc])
  with L1(1) L2(1) L3(1) v(1) seeds show ?thesis
    by (simp add: pay_winner_and_close_vault_def Let_def transfer_with_seeds_def close_with_seeds_def
        load_token_def)
qed

end

section \<open>The canonical accounts\<close>

definition stake_for :: "env \<Rightarrow> pubkey \<Rightarrow> pubkey \<Rightarrow> wager \<Rightarrow> pubkey \<Rightarrow> pubkey \<Rightarrow> stake_side_accounts" where
  "stake_for E payer k w s from =
    \<lparr>ss_staker = s, ss_payer = payer, ss_config = config_key E, ss_wager = k,
     ss_counter = counter_key E s, ss_staker_token = from, ss_vault = vault_key E k w,
     ss_token_program = token_program_id E, ss_system_program = system_program_id E\<rparr>"

definition unstake_for :: "env \<Rightarrow> pubkey \<Rightarrow> wager \<Rightarrow> pubkey \<Rightarrow> unstake_side_accounts" where
  "unstake_for E k w s =
    \<lparr>us_staker = s, us_config = config_key E, us_wager = k, us_counter = counter_key E s,
     us_staker_token = ata_address E s (w_mint w), us_vault = vault_key E k w,
     us_token_program = token_program_id E\<rparr>"

definition resolve_for :: "env \<Rightarrow> pubkey \<Rightarrow> wager \<Rightarrow> pubkey \<Rightarrow> resolve_accounts" where
  "resolve_for E k w winner =
    \<lparr>rs_resolver = w_resolver w, rs_config = config_key E, rs_wager = k, rs_winner = winner,
     rs_winner_token = ata_address E winner (w_mint w), rs_fee_token = w_fee_destination w,
     rs_vault = vault_key E k w, rs_counter_a = counter_key E (w_side_a w),
     rs_counter_b = counter_key E (w_side_b w), rs_rent_collector = w_rent_collector w,
     rs_token_program = token_program_id E\<rparr>"

definition concede_for :: "env \<Rightarrow> pubkey \<Rightarrow> wager \<Rightarrow> pubkey \<Rightarrow> concede_accounts" where
  "concede_for E k w s =
    \<lparr>cc_conceder = s, cc_config = config_key E, cc_wager = k, cc_winner = counterparty w s,
     cc_winner_token = ata_address E (counterparty w s) (w_mint w),
     cc_fee_token = w_fee_destination w, cc_vault = vault_key E k w,
     cc_counter_a = counter_key E (w_side_a w), cc_counter_b = counter_key E (w_side_b w),
     cc_rent_collector = w_rent_collector w, cc_token_program = token_program_id E\<rparr>"

definition accept_for :: "env \<Rightarrow> pubkey \<Rightarrow> wager \<Rightarrow> pubkey \<Rightarrow> cancel_accept_accounts" where
  "accept_for E k w s =
    \<lparr>ac_acceptor = s, ac_config = config_key E, ac_wager = k, ac_side_a = w_side_a w,
     ac_side_b = w_side_b w, ac_side_a_token = ata_address E (w_side_a w) (w_mint w),
     ac_side_b_token = ata_address E (w_side_b w) (w_mint w),
     ac_counter_a = counter_key E (w_side_a w), ac_counter_b = counter_key E (w_side_b w),
     ac_fee_token = w_fee_destination w, ac_vault = vault_key E k w,
     ac_rent_collector = w_rent_collector w, ac_token_program = token_program_id E\<rparr>"

text \<open>Their parts.\<close>

lemma stake_for_simps [simp]:
  "ss_staker (stake_for E payer k w s from) = s"
  "ss_payer (stake_for E payer k w s from) = payer"
  "ss_config (stake_for E payer k w s from) = config_key E"
  "ss_wager (stake_for E payer k w s from) = k"
  "ss_counter (stake_for E payer k w s from) = counter_key E s"
  "ss_staker_token (stake_for E payer k w s from) = from"
  "ss_vault (stake_for E payer k w s from) = vault_key E k w"
  "ss_token_program (stake_for E payer k w s from) = token_program_id E"
  "ss_system_program (stake_for E payer k w s from) = system_program_id E"
  by (simp_all add: stake_for_def)

lemma unstake_for_simps [simp]:
  "us_staker (unstake_for E k w s) = s"
  "us_config (unstake_for E k w s) = config_key E"
  "us_wager (unstake_for E k w s) = k"
  "us_counter (unstake_for E k w s) = counter_key E s"
  "us_staker_token (unstake_for E k w s) = ata_address E s (w_mint w)"
  "us_vault (unstake_for E k w s) = vault_key E k w"
  "us_token_program (unstake_for E k w s) = token_program_id E"
  by (simp_all add: unstake_for_def)

lemma resolve_for_simps [simp]:
  "rs_resolver (resolve_for E k w winner) = w_resolver w"
  "rs_config (resolve_for E k w winner) = config_key E"
  "rs_wager (resolve_for E k w winner) = k"
  "rs_winner (resolve_for E k w winner) = winner"
  "rs_winner_token (resolve_for E k w winner) = ata_address E winner (w_mint w)"
  "rs_fee_token (resolve_for E k w winner) = w_fee_destination w"
  "rs_vault (resolve_for E k w winner) = vault_key E k w"
  "rs_counter_a (resolve_for E k w winner) = counter_key E (w_side_a w)"
  "rs_counter_b (resolve_for E k w winner) = counter_key E (w_side_b w)"
  "rs_rent_collector (resolve_for E k w winner) = w_rent_collector w"
  "rs_token_program (resolve_for E k w winner) = token_program_id E"
  by (simp_all add: resolve_for_def)

lemma concede_for_simps [simp]:
  "cc_conceder (concede_for E k w s) = s"
  "cc_config (concede_for E k w s) = config_key E"
  "cc_wager (concede_for E k w s) = k"
  "cc_winner (concede_for E k w s) = counterparty w s"
  "cc_winner_token (concede_for E k w s) = ata_address E (counterparty w s) (w_mint w)"
  "cc_fee_token (concede_for E k w s) = w_fee_destination w"
  "cc_vault (concede_for E k w s) = vault_key E k w"
  "cc_counter_a (concede_for E k w s) = counter_key E (w_side_a w)"
  "cc_counter_b (concede_for E k w s) = counter_key E (w_side_b w)"
  "cc_rent_collector (concede_for E k w s) = w_rent_collector w"
  "cc_token_program (concede_for E k w s) = token_program_id E"
  by (simp_all add: concede_for_def)

lemma accept_for_simps [simp]:
  "ac_acceptor (accept_for E k w s) = s"
  "ac_config (accept_for E k w s) = config_key E"
  "ac_wager (accept_for E k w s) = k"
  "ac_side_a (accept_for E k w s) = w_side_a w"
  "ac_side_b (accept_for E k w s) = w_side_b w"
  "ac_side_a_token (accept_for E k w s) = ata_address E (w_side_a w) (w_mint w)"
  "ac_side_b_token (accept_for E k w s) = ata_address E (w_side_b w) (w_mint w)"
  "ac_counter_a (accept_for E k w s) = counter_key E (w_side_a w)"
  "ac_counter_b (accept_for E k w s) = counter_key E (w_side_b w)"
  "ac_fee_token (accept_for E k w s) = w_fee_destination w"
  "ac_vault (accept_for E k w s) = vault_key E k w"
  "ac_rent_collector (accept_for E k w s) = w_rent_collector w"
  "ac_token_program (accept_for E k w s) = token_program_id E"
  by (simp_all add: accept_for_def)

text \<open>
  What the acts need beyond the exits: the fee account can be paid and is none of the wager's
  other accounts, and the two sides have different token accounts and counters.
\<close>

definition rail_ready :: "env \<Rightarrow> world \<Rightarrow> pubkey \<Rightarrow> wager \<Rightarrow> bool" where
  "rail_ready E W k w \<longleftrightarrow> exit_ready E W k w \<and>
    (let A = ata_address E (w_side_a w) (w_mint w); B = ata_address E (w_side_b w) (w_mint w) in
     receives (tokens (ledger W)) (w_mint w) (w_fee_destination w) \<and>
     w_fee_destination w \<notin> {vault_key E k w, A, B} \<and> A \<noteq> B \<and>
     counter_key E (w_side_a w) \<noteq> counter_key E (w_side_b w))"

text \<open>
  What staking needs: the paying account is the staker's, of the mint and thawed, and the
  staker's counter is there or can be created.
\<close>

definition stake_ready :: "env \<Rightarrow> world \<Rightarrow> pubkey \<Rightarrow> wager \<Rightarrow> pubkey \<Rightarrow> pubkey \<Rightarrow> bool" where
  "stake_ready E W payer w s from \<longleftrightarrow>
    (\<exists>t. tokens (ledger W) from = Some t \<and> t_owner t = s \<and> t_mint t = w_mint w \<and> \<not> t_frozen t) \<and>
    ((\<exists>x. accts W (counter_key E s) = Some (CounterAcc x)) \<or>
     accts W (counter_key E s) = None \<and>
     (\<exists>L. create_account E payer (counter_key E s) (8 + COUNTER_INIT_SPACE) (ledger W) = Inr L))"

text \<open>
  An active wager before its deadline: configuration and both counters are there with their
  bumps, both sides and the fee account have token accounts, and no two accounts coincide.
\<close>

definition active_books ::
  "env \<Rightarrow> world \<Rightarrow> pubkey \<Rightarrow> wager \<Rightarrow> config \<Rightarrow> exposure_counter \<Rightarrow> exposure_counter \<Rightarrow> bool" where
  "active_books E W k w c xa xb \<longleftrightarrow>
    accts W (config_key E) = Some (ConfigAcc c) \<and> pda_at E config_seeds (c_bump c) (config_key E) \<and>
    accts W (counter_key E (w_side_a w)) = Some (CounterAcc xa) \<and>
    pda_at E (counter_seeds (w_side_a w)) (x_bump xa) (counter_key E (w_side_a w)) \<and>
    accts W (counter_key E (w_side_b w)) = Some (CounterAcc xb) \<and>
    pda_at E (counter_seeds (w_side_b w)) (x_bump xb) (counter_key E (w_side_b w)) \<and>
    create_pda E (signer_seeds w) = Some k \<and>
    distinct [config_key E, k, ata_address E (w_side_a w) (w_mint w),
      ata_address E (w_side_b w) (w_mint w), w_fee_destination w, vault_key E k w,
      counter_key E (w_side_a w), counter_key E (w_side_b w)] \<and>
    k \<noteq> w_rent_collector w \<and> w_rent_collector w \<noteq> vault_key E k w \<and>
    (\<exists>v. tokens (ledger W) (vault_key E k w) = Some v \<and> t_owner v = k) \<and>
    (\<exists>t. tokens (ledger W) (ata_address E (w_side_a w) (w_mint w)) = Some t \<and> t_owner t = w_side_a w) \<and>
    (\<exists>t. tokens (ledger W) (ata_address E (w_side_b w) (w_mint w)) = Some t \<and> t_owner t = w_side_b w) \<and>
    (\<exists>f. tokens (ledger W) (w_fee_destination w) = Some f)"

section \<open>Each act succeeds\<close>

lemma till_mono: "till k m V P L \<Longrightarrow> Q \<subseteq> P \<Longrightarrow> till k m V Q L"
  unfolding till_def by blast

lemma split_possible:
  assumes "terms_wf w"
  obtains p f where "split_pot (w_stake w) (w_fee_bps w) = Inr (p, f)"
    "unat p + unat f = 2 * unat (w_stake w)" "checked_add p f = Some (p + f)"
proof -
  have "2 * unat (w_stake w) < 2 ^ 64" "w_fee_bps w \<le> MAX_FEE_BPS"
    using assms by (simp_all add: terms_wf_def MAX_FEE_BPS_def word_le_nat_alt)
  from payout.split_defined [OF this] that payout.split_total payout.pot_sum_checked
  show thesis by blast
qed

context chain
begin

text \<open>The vault of a ready wager can pay every side that is in, and the fee account.\<close>

lemma ready_till:
  assumes inv: "inv E W" and k: "accts W k = Some (WagerAcc w)" and ready: "rail_ready E W k w"
  shows "till k (w_mint w) (vault_key E k w)
    (insert (w_fee_destination w)
      ((\<lambda>s. ata_address E s (w_mint w)) ` {s \<in> {w_side_a w, w_side_b w}. side_in s w})) (ledger W)"
proof -
  let ?V = "vault_key E k w" and ?T = "tokens (ledger W)"
  have vt: "vault_ok E ?T k w" using inv k by (auto simp: inv_def vaults_ok_def)
  obtain v where v: "?T ?V = Some v" "t_owner v = k" "t_mint v = w_mint w" by (rule vault_okE [OF vt])
  have ex: "exit_ready E W k w" and F: "receives ?T (w_mint w) (w_fee_destination w)"
    "w_fee_destination w \<noteq> ?V"
    using ready by (auto simp: rail_ready_def Let_def)
  have vault: "\<not> t_frozen v" "t_close_authority v = None"
    and total: "total_supply (w_mint w) ?T < 2 ^ 64"
    using ex v(1) by (auto simp: exit_ready_def Let_def receives_def)
  have side: "receives ?T (w_mint w) (ata_address E s (w_mint w)) \<and> ata_address E s (w_mint w) \<noteq> ?V"
    if s: "s \<in> {w_side_a w, w_side_b w}" "side_in s w" for s
  proof -
    obtain t where "?T (ata_address E s (w_mint w)) = Some t" "t_owner t = s"
      and r: "receives ?T (w_mint w) (ata_address E s (w_mint w))"
      using ex s unfolding exit_ready_def Let_def by blast
    from side_not_vault [OF inv k _ s(2) this(1,2)] s(1) r show ?thesis
      by (auto simp: is_participant_def)
  qed
  show ?thesis
    unfolding till_def
  proof (intro conjI ballI)
    show "\<exists>v. ?T ?V = Some v \<and> t_owner v = k \<and> t_mint v = w_mint w \<and> \<not> t_frozen v \<and>
        t_close_authority v = None"
      using v vault by blast
    show "?V \<notin> insert (w_fee_destination w)
        ((\<lambda>s. ata_address E s (w_mint w)) ` {s \<in> {w_side_a w, w_side_b w}. side_in s w})"
    proof
      assume "?V \<in> insert (w_fee_destination w)
          ((\<lambda>s. ata_address E s (w_mint w)) ` {s \<in> {w_side_a w, w_side_b w}. side_in s w})"
      with F(2) obtain s where "s \<in> {w_side_a w, w_side_b w}" "side_in s w"
        "?V = ata_address E s (w_mint w)" by auto
      with side [of s] show False by simp
    qed
  qed (use F(1) side total in auto)
qed

lemma active_accounts:
  assumes inv: "inv E W" and k: "accts W k = Some (WagerAcc w)" and ready: "rail_ready E W k w"
    and both: "w_state w = Active" "clock W \<le>s w_deadline_resolve w"
  obtains c xa xb where "active_books E W k w c xa xb" "terms_wf w"
    "2 * unat (w_stake w) \<le> amount_at (tokens (ledger W)) (vault_key E k w)"
    "till k (w_mint w) (vault_key E k w) {ata_address E (w_side_a w) (w_mint w),
      ata_address E (w_side_b w) (w_mint w), w_fee_destination w} (ledger W)"
proof -
  let ?V = "vault_key E k w" and ?T = "tokens (ledger W)" and ?F = "w_fee_destination w"
    and ?A = "ata_address E (w_side_a w) (w_mint w)" and ?B = "ata_address E (w_side_b w) (w_mint w)"
    and ?a = "counter_key E (w_side_a w)" and ?b = "counter_key E (w_side_b w)"
  have life: "life_wf E (clock W) w" and wf: "terms_wf w" and seeds: "create_pda E (signer_seeds w) = Some k"
    and vt: "vault_ok E ?T k w" and ap: "apart W"
    using inv k by (auto simp: inv_def wagers_ok_def vaults_ok_def)
  note o = active_both_open [OF life both]
  have "in": "side_in (w_side_a w) w" "side_in (w_side_b w) w"
    and part: "is_participant w (w_side_a w)" "is_participant w (w_side_b w)"
    using o by (simp_all add: side_in_def is_participant_def)
  obtain c where c: "accts W (config_key E) = Some (ConfigAcc c)"
    "pda_at E config_seeds (c_bump c) (config_key E)"
    by (rule config_found [OF inv k])
  obtain xa where xa: "accts W ?a = Some (CounterAcc xa)" "pda_at E (counter_seeds (w_side_a w)) (x_bump xa) ?a"
    by (rule own_counter [OF inv k part(1) "in"(1)])
  obtain xb where xb: "accts W ?b = Some (CounterAcc xb)" "pda_at E (counter_seeds (w_side_b w)) (x_bump xb) ?b"
    by (rule own_counter [OF inv k part(2) "in"(2)])
  obtain v where v: "?T ?V = Some v" "t_owner v = k" "owed w \<le> unat (t_amount v)"
    by (rule vault_okE [OF vt])
  have till: "till k (w_mint w) ?V {?A, ?B, ?F} (ledger W)"
    using "in" by (intro till_mono [OF ready_till [OF inv k ready]]) auto
  then have recv: "\<And>j. j \<in> {?A, ?B, ?F} \<Longrightarrow> ?T j \<noteq> None" and nv: "?V \<notin> {?A, ?B, ?F}"
    unfolding till_def receives_def by blast+
  have sep: "?F \<notin> {?A, ?B}" "?A \<noteq> ?B" "?a \<noteq> ?b" and rc: "w_rent_collector w \<noteq> k" "w_rent_collector w \<noteq> ?V"
    and own: "\<exists>t. ?T ?A = Some t \<and> t_owner t = w_side_a w" "\<exists>t. ?T ?B = Some t \<and> t_owner t = w_side_b w"
    using ready "in" by (auto simp: rail_ready_def exit_ready_def Let_def)
  have tokenless: "accts W j = None" if "j \<in> {?A, ?B, ?F, ?V}" for j
    using that recv [of j] v(1) ap by (auto simp: apart_def)
  have "distinct [config_key E, k, ?A, ?B, ?F, ?V, ?a, ?b]"
    using k c(1) xa(1) xb(1) sep nv tokenless [of ?A] tokenless [of ?B] tokenless [of ?F]
      tokenless [of ?V] by auto
  moreover have "\<exists>f. ?T ?F = Some f" using recv [of ?F] by simp
  ultimately have "active_books E W k w c xa xb"
    unfolding active_books_def using c xa xb seeds rc v own by blast
  moreover have "2 * unat (w_stake w) \<le> amount_at ?T ?V" using v(1,3) o by (simp add: owed_def)
  ultimately show thesis using that wf till by blast
qed

text \<open>Both settlements pay the same way.\<close>

lemma settlement_possible:
  assumes inv: "inv E W" and k: "accts W k = Some (WagerAcc w)" and ready: "rail_ready E W k w"
    and both: "w_state w = Active" "clock W \<le>s w_deadline_resolve w"
    and win: "winner \<in> {w_side_a w, w_side_b w}"
  obtains c xa xb p q r L where "active_books E W k w c xa xb"
    "split_pot (w_stake w) (w_fee_bps w) = Inr (p, q)" "checked_add p q = Some (p + q)"
    "pay_winner_and_close_vault E k (signer_seeds w) (vault_key E k w)
      (ata_address E winner (w_mint w)) (w_fee_destination w) (w_rent_collector w) p q (ledger W) =
      Inr (r, L)"
proof -
  let ?V = "vault_key E k w" and ?A = "ata_address E winner (w_mint w)"
  obtain c xa xb where books: "active_books E W k w c xa xb" and wf: "terms_wf w"
    and held: "2 * unat (w_stake w) \<le> amount_at (tokens (ledger W)) ?V"
    and till: "till k (w_mint w) ?V {ata_address E (w_side_a w) (w_mint w),
      ata_address E (w_side_b w) (w_mint w), w_fee_destination w} (ledger W)"
    by (rule active_accounts [OF inv k ready both])
  obtain p q where pot: "split_pot (w_stake w) (w_fee_bps w) = Inr (p, q)"
    "unat p + unat q = 2 * unat (w_stake w)" "checked_add p q = Some (p + q)"
    by (rule split_possible [OF wf])
  have t: "till k (w_mint w) ?V {?A, w_fee_destination w} (ledger W)"
    using till_mono [OF till] win by auto
  have "create_pda E (signer_seeds w) = Some k" "w_rent_collector w \<noteq> ?V"
    using books unfolding active_books_def by blast+
  from pay_winner_possible [OF t this(1) _ this(2), of p q] held pot(2)
  obtain r L where "pay_winner_and_close_vault E k (signer_seeds w) ?V ?A (w_fee_destination w)
      (w_rent_collector w) p q (ledger W) = Inr (r, L)"
    by auto
  with that books pot(1,3) show thesis by blast
qed

lemma resolve_possible:
  assumes inv: "inv E W" and k: "accts W k = Some (WagerAcc w)" and ready: "rail_ready E W k w"
    and both: "w_state w = Active" "clock W \<le>s w_deadline_resolve w"
    and win: "is_participant w winner" and sg: "w_resolver w \<in> sg"
  shows "\<exists>W'. handle_resolve E sg (resolve_for E k w winner) winner W = Inr W'"
proof -
  have w: "winner = w_side_a w \<or> winner = w_side_b w" using win by (simp add: is_participant_def)
  then have "winner \<in> {w_side_a w, w_side_b w}" by simp
  from settlement_possible [OF inv k ready both this]
  obtain c xa xb p q r L where books: "active_books E W k w c xa xb"
    and run: "split_pot (w_stake w) (w_fee_bps w) = Inr (p, q)" "checked_add p q = Some (p + q)"
      "pay_winner_and_close_vault E k (signer_seeds w) (vault_key E k w)
        (ata_address E winner (w_mint w)) (w_fee_destination w) (w_rent_collector w) p q (ledger W) =
        Inr (r, L)" .
  have "validate_resolve E sg (resolve_for E k w winner) W = Inr (c, w, xa, xb)"
    using books k sg w by (elim disjE) (simp_all add: active_books_def validate_resolve_Inr mut_guard_iff)
  with both win run show ?thesis by (simp add: handle_resolve_def Let_def)
qed

lemma concede_possible:
  assumes inv: "inv E W" and k: "accts W k = Some (WagerAcc w)" and ready: "rail_ready E W k w"
    and both: "w_state w = Active" "clock W \<le>s w_deadline_resolve w"
    and s: "is_participant w s" and sg: "s \<in> sg"
  shows "\<exists>W'. handle_concede E sg (concede_for E k w s) W = Inr W'"
proof -
  have w: "counterparty w s = w_side_a w \<or> counterparty w s = w_side_b w"
    by (simp add: counterparty_def)
  then have "counterparty w s \<in> {w_side_a w, w_side_b w}" by simp
  from settlement_possible [OF inv k ready both this]
  obtain c xa xb p q r L where books: "active_books E W k w c xa xb"
    and run: "split_pot (w_stake w) (w_fee_bps w) = Inr (p, q)" "checked_add p q = Some (p + q)"
      "pay_winner_and_close_vault E k (signer_seeds w) (vault_key E k w)
        (ata_address E (counterparty w s) (w_mint w)) (w_fee_destination w) (w_rent_collector w) p q
        (ledger W) = Inr (r, L)" .
  have "validate_concede E sg (concede_for E k w s) W = Inr (c, w, xa, xb)"
    using books k sg w by (elim disjE) (simp_all add: active_books_def validate_concede_Inr mut_guard_iff)
  with both s run show ?thesis
    by (simp add: handle_concede_def Let_def counterparty_def [symmetric])
qed

lemma accept_possible:
  assumes inv: "inv E W" and k: "accts W k = Some (WagerAcc w)" and ready: "rail_ready E W k w"
    and both: "w_state w = Active" "clock W \<le>s w_deadline_resolve w"
    and s: "is_participant w s" "w_cancel_proposed_by w = counterparty w s" and sg: "s \<in> sg"
  shows "\<exists>W'. handle_cancel_accept E sg (accept_for E k w s) W = Inr W'"
proof -
  let ?V = "vault_key E k w" and ?n = "w_stake w" and ?F = "w_fee_destination w"
    and ?A = "ata_address E (w_side_a w) (w_mint w)" and ?B = "ata_address E (w_side_b w) (w_mint w)"
  obtain c xa xb where books: "active_books E W k w c xa xb" and wf: "terms_wf w"
    and held: "2 * unat ?n \<le> amount_at (tokens (ledger W)) ?V"
    and till: "till k (w_mint w) ?V {?A, ?B, ?F} (ledger W)"
    by (rule active_accounts [OF inv k ready both])
  have seeds: "create_pda E (signer_seeds w) = Some k" and rc: "w_rent_collector w \<noteq> ?V"
    using books unfolding active_books_def by blast+
  obtain L1 where L1: "spl_transfer E ?V ?A k ?n (ledger W) = Inr L1"
    "till k (w_mint w) ?V {?A, ?B, ?F} L1"
    "amount_at (tokens L1) ?V = amount_at (tokens (ledger W)) ?V - unat ?n"
    by (rule till_pays [OF till, of ?A ?n]) (use held in simp_all)
  obtain L2 where L2: "spl_transfer E ?V ?B k ?n L1 = Inr L2" "till k (w_mint w) ?V {?A, ?B, ?F} L2"
    by (rule till_pays [OF L1(2), of ?B ?n]) (use held L1(3) in simp_all)
  obtain v where v: "tokens L2 ?V = Some v" "unat (t_amount v) = amount_at (tokens L2) ?V"
    by (rule till_amount [OF L2(2)])
  obtain L3 where L3: "(if 0 < t_amount v then transfer_with_seeds E (signer_seeds w) k ?V ?F (t_amount v) L2
      else Inr L2) = Inr L3" "till k (w_mint w) ?V {?A, ?B, ?F} L3" "amount_at (tokens L3) ?V = 0"
    by (rule till_pays_some [OF L2(2) _ _ seeds, of ?F "t_amount v"]) (use v(2) in simp_all)
  obtain L4 where L4: "spl_close_account E ?V (w_rent_collector w) k L3 = Inr L4"
    by (rule till_closes [OF L3(2,3) rc])
  have val: "validate_cancel_accept E sg (accept_for E k w s) W = Inr (c, w, xa, xb)"
    using books k sg by (auto simp: active_books_def validate_cancel_accept_Inr mut_guard_iff)
  have "w_side_a w \<noteq> default_key" "w_side_b w \<noteq> default_key" "w_side_a w \<noteq> w_side_b w"
    using wf by (simp_all add: terms_wf_def)
  then have "w_cancel_proposed_by w \<noteq> default_key" "s \<noteq> w_cancel_proposed_by w"
    using s by (auto simp: counterparty_def is_participant_def)
  then show ?thesis
    using both s(1) seeds L1(1) L2(1) v(1) L3(1) L4
    by (cases "0 < t_amount v") (simp_all add: handle_cancel_accept_def val Let_def
        transfer_with_seeds_def close_with_seeds_def load_token_def)
qed

lemma unstake_possible:
  assumes inv: "inv E W" and k: "accts W k = Some (WagerAcc w)" and ready: "rail_ready E W k w"
    and st: "w_state w = Funding" "clock W \<le>s w_deadline_fund w"
    and s: "is_participant w s" "funded s w" and sg: "s \<in> sg"
  shows "\<exists>W'. handle_unstake_side E sg (unstake_for E k w s) W = Inr W'"
proof -
  let ?V = "vault_key E k w" and ?A = "ata_address E s (w_mint w)" and ?T = "tokens (ledger W)"
  have life: "life_wf E (clock W) w" and seeds: "create_pda E (signer_seeds w) = Some k"
    and vt: "vault_ok E ?T k w" and ap: "apart W"
    using inv k by (auto simp: inv_def wagers_ok_def vaults_ok_def)
  have "in": "side_in s w"
    using nobody_refunded [OF life] st s
    by (simp add: side_in_def open_a_def open_b_def funded_def split: if_splits)
  obtain c where c: "accts W (config_key E) = Some (ConfigAcc c)"
    "pda_at E config_seeds (c_bump c) (config_key E)"
    by (rule config_found [OF inv k])
  obtain x where x: "accts W (counter_key E s) = Some (CounterAcc x)"
    "pda_at E (counter_seeds s) (x_bump x) (counter_key E s)"
    by (rule own_counter [OF inv k s(1) "in"])
  obtain t where t: "?T ?A = Some t" "t_owner t = s"
    using ready s(1) "in" by (auto simp: rail_ready_def exit_ready_def Let_def is_participant_def)
  obtain v where v: "?T ?V = Some v" "t_owner v = k" "owed w \<le> unat (t_amount v)"
    by (rule vault_okE [OF vt])
  have till: "till k (w_mint w) ?V {?A} (ledger W)"
    by (rule till_mono [OF ready_till [OF inv k ready]])
      (use s(1) "in" in \<open>auto simp: is_participant_def\<close>)
  have ne: "?A \<noteq> ?V" using till by (auto simp: till_def)
  have "accts W ?A = None" "accts W ?V = None" using ap t(1) v(1) by (auto simp: apart_def)
  then have "distinct [config_key E, k, counter_key E s, ?A, ?V]"
    using k c(1) x(1) ne by auto
  then have val: "validate_unstake_side E sg (unstake_for E k w s) W = Inr (c, w, x)"
    using sg k c x t v seeds by (simp add: validate_unstake_side_Inr mut_guard_iff)
  have "unat (w_stake w) \<le> amount_at ?T ?V" using side_stake_owed [OF "in"] v by simp
  then obtain L where "spl_transfer E ?V ?A k (w_stake w) (ledger W) = Inr L"
    using till_pays [OF till, of ?A "w_stake w"] by auto
  with s st seeds show ?thesis
    by (simp add: handle_unstake_side_def val Let_def transfer_with_seeds_def is_participant_def
        funded_def split: if_splits)
qed

lemma propose_possible:
  assumes inv: "inv E W" and k: "accts W k = Some (WagerAcc w)"
    and both: "w_state w = Active" "clock W \<le>s w_deadline_resolve w"
    and s: "is_participant w s" "w_cancel_proposed_by w = default_key" and sg: "s \<in> sg"
  shows "\<exists>W'. handle_cancel_propose E sg \<lparr>cp_participant = s, cp_wager = k\<rparr> W = Inr W'"
proof -
  have "create_pda E (signer_seeds w) = Some k" using inv k by (auto simp: inv_def wagers_ok_def)
  then have "validate_cancel_propose E sg \<lparr>cp_participant = s, cp_wager = k\<rparr> W = Inr w"
    using k sg by (simp add: validate_cancel_propose_Inr mut_guard_iff)
  with both s show ?thesis by (simp add: handle_cancel_propose_def Let_def)
qed

lemma clear_possible:
  assumes inv: "inv E W" and k: "accts W k = Some (WagerAcc w)"
    and s: "is_participant w s" "w_cancel_proposed_by w \<noteq> default_key" and sg: "s \<in> sg"
  shows "\<exists>W'. handle_cancel_clear E sg \<lparr>cl_participant = s, cl_wager = k\<rparr> W = Inr W'"
proof -
  have "create_pda E (signer_seeds w) = Some k" using inv k by (auto simp: inv_def wagers_ok_def)
  then have "validate_cancel_clear E sg \<lparr>cl_participant = s, cl_wager = k\<rparr> W = Inr w"
    using k sg by (simp add: validate_cancel_clear_Inr mut_guard_iff)
  with s show ?thesis by (simp add: handle_cancel_clear_def Let_def)
qed

text \<open>
  A stake within the caps goes through: the cap on the wallet keeps the counter within a byte,
  the cap on the sum keeps the accumulator within 64 bits.
\<close>

lemma stake_possible:
  assumes inv: "inv E W" and real: "real_signers E sg"
    and k: "accts W k = Some (WagerAcc w)" and ready: "rail_ready E W k w"
    and st: "w_state w = Funding" "clock W \<le>s w_deadline_fund w"
    and s: "is_participant w s" "\<not> funded s w" and sg: "s \<in> sg" "payer \<in> sg"
    and src: "stake_ready E W payer w s from"
    and caps: "within_caps E (rail_of E W) (slip_of w) s from"
  shows "\<exists>W'. handle_stake_side E sg (stake_for E payer k w s from) W = Inr W'"
proof -
  let ?V = "vault_key E k w" and ?T = "tokens (ledger W)" and ?j = "counter_key E s"
  have seeds: "create_pda E (signer_seeds w) = Some k" and vt: "vault_ok E ?T k w" and ap: "apart W"
    using inv k by (auto simp: inv_def wagers_ok_def vaults_ok_def)
  obtain c where c: "accts W (config_key E) = Some (ConfigAcc c)"
    "pda_at E config_seeds (c_bump c) (config_key E)"
    by (rule config_found [OF inv k])
  have count: "count_of (accts W ?j) < unat (c_max_open_per_wallet c)"
    and total: "unat (c_total_open_value c) + unat (w_stake w) \<le> unat (c_max_total_open c)"
    and le: "unat (w_stake w) \<le> amount_at ?T from"
    using caps c(1) by (simp_all add: within_caps_def rules_of_def)
  obtain t where t: "?T from = Some t" "t_owner t = s" "t_mint t = w_mint w" "\<not> t_frozen t"
    using src by (auto simp: stake_ready_def)
  obtain v where v: "?T ?V = Some v" "t_owner v = k" "t_mint v = w_mint w"
    by (rule vault_okE [OF vt])
  have thawed: "\<not> t_frozen v" and sup: "total_supply (w_mint w) ?T < 2 ^ 64"
    using ready v(1) by (auto simp: rail_ready_def exit_ready_def Let_def receives_def)
  obtain x W1 where ini: "init_if_needed_counter E payer ?j (counter_seeds s) W = Inr (x, W1)"
  proof -
    from src consider x where "accts W ?j = Some (CounterAcc x)"
      | L where "accts W ?j = None" "create_account E payer ?j (8 + COUNTER_INIT_SPACE) (ledger W) = Inr L"
      by (auto simp: stake_ready_def)
    then show thesis
      by cases (use that in \<open>auto simp: init_if_needed_counter_Inr counter_key_def\<close>)
  qed
  note made = counter_ready [OF ini]
  have ne: "from \<noteq> ?V" using t(1,2) v(1,2) real sg(1) seeds by (auto simp: real_signers_def is_pda_def)
  have "accts W from = None" "accts W ?V = None" using ap t(1) v(1) by (auto simp: apart_def)
  then have "distinct [config_key E, k, from, ?V]" using k c(1) ne by auto
  then have val: "validate_stake_side E sg (stake_for E payer k w s from) W = Inr (c, w, x, W1)"
    using sg k c t v seeds ini by (simp add: validate_stake_side_Inr mut_guard_iff)
  have small: "unat (x_count x) < unat (c_max_open_per_wallet c)" using count made(6) by simp
  have add: "checked_add (c_total_open_value c) (w_stake w) = Some (c_total_open_value c + w_stake w)"
    and cap: "c_total_open_value c + w_stake w \<le> c_max_total_open c"
    using total unat_word_bound [of "c_max_total_open c"]
    by (auto simp: checked_add_Some word_le_nat_alt unat_add_no_wrap)
  have inc: "checked_add (x_count x) 1 = Some (x_count x + 1)"
    using small unat_word_bound [of "c_max_open_per_wallet c"] by (auto simp: checked_add_Some)
  have "w_stake w \<le> t_amount t" using le t(1) by (simp add: word_le_nat_alt)
  then obtain L where L: "spl_transfer E from ?V s (w_stake w) (ledger W1) = Inr L"
    using transfer_enabled [of "ledger W1" "from" t ?V v s "w_stake w"] t v thawed ne made(4)
      room_for [OF ne t(1,3) v(1,3) _ sup, of "w_stake w"] by auto
  have "w_side_a w \<noteq> w_side_b w" using inv k by (auto simp: inv_def wagers_ok_def terms_wf_def)
  with s st sg L add cap inc small show ?thesis
    by (auto simp: handle_stake_side_def val Let_def transfer_signed_def is_participant_def
        funded_def word_less_nat_alt)
qed

end

section \<open>What is allowed succeeds\<close>

text \<open>The instruction for an act on an existing wager, on its canonical accounts.\<close>

fun instruction_for :: "env \<Rightarrow> pubkey \<Rightarrow> pubkey \<Rightarrow> wager \<Rightarrow> world \<Rightarrow> act \<Rightarrow> call option" where
  "instruction_for E p k w W (Open_Slip a b n judge fund resolve) = None"
| "instruction_for E p k w W (Stake s from) = Some (Stake_Side (stake_for E p k w s from))"
| "instruction_for E p k w W (Unstake s) = Some (Unstake_Side (unstake_for E k w s))"
| "instruction_for E p k w W (Decide winner) = Some (Resolve (resolve_for E k w winner) winner)"
| "instruction_for E p k w W (Yield s) = Some (Concede (concede_for E k w s))"
| "instruction_for E p k w W (Refund s) = Some (Refund_Side (refund_accounts E p k w s))"
| "instruction_for E p k w W (Offer s) = Some (Cancel_Propose \<lparr>cp_participant = s, cp_wager = k\<rparr>)"
| "instruction_for E p k w W (Withdraw s) = Some (Cancel_Clear \<lparr>cl_participant = s, cl_wager = k\<rparr>)"
| "instruction_for E p k w W (Agree s) = Some (Cancel_Accept (accept_for E k w s))"
| "instruction_for E p k w W Finish = Some (Close_Expired (close_accounts E p k w
    (0 < amount_at (tokens (ledger W)) (vault_key E k w))))"

lemma instruction_names:
  assumes "instruction_for E p k w W act = Some c"
  shows "call_wager c = Some k" "act_of c = act"
  using assms by (cases act; auto)+

fun act_ready :: "env \<Rightarrow> world \<Rightarrow> pubkey \<Rightarrow> wager \<Rightarrow> act \<Rightarrow> bool" where
  "act_ready E W p w (Stake s from) \<longleftrightarrow> stake_ready E W p w s from"
| "act_ready E W p w _ \<longleftrightarrow> True"

text \<open>
  A new wager. The canonical accounts of its creation, and what the runtime has to provide: the
  mint, a free address, and the payer's lamports for the wager and its vault.
\<close>

definition create_for ::
  "env \<Rightarrow> pubkey \<Rightarrow> config \<Rightarrow> create_wager_args \<Rightarrow> create_wager_accounts" where
  "create_for E p c args =
    (let k = fst (find_pda E (wager_seeds (ca_side_a args) (ca_nonce args)))
     in \<lparr>cw_payer = p, cw_config = config_key E, cw_wager = k, cw_mint = c_mint c,
         cw_vault = ata_address E k (c_mint c), cw_token_program = token_program_id E,
         cw_associated_token_program = ata_program_id E,
         cw_system_program = system_program_id E\<rparr>)"

definition open_ready ::
  "env \<Rightarrow> world \<Rightarrow> pubkey \<Rightarrow> config \<Rightarrow> create_wager_args \<Rightarrow> world \<Rightarrow> bool" where
  "open_ready E W p c args W2 \<longleftrightarrow>
    (let k = fst (find_pda E (wager_seeds (ca_side_a args) (ca_nonce args)));
         vault = ata_address E k (c_mint c)
     in c_mint c \<in> mints (ledger W) \<and> vault \<noteq> k \<and>
        (\<exists>W1. init_account E p k (8 + WAGER_INIT_SPACE) W = Inr W1 \<and>
          init_if_needed_ata E p vault (c_mint c) k W1 = Inr W2))"

context chain
begin

lemma act_possible:
  assumes inv: "inv E W" and real: "real_signers E sg" and token: "token_stakes E W"
    and k: "accts W k = Some (WagerAcc w)" and ready: "rail_ready E W k w" "act_ready E W p w act"
    and sg: "p \<in> sg" and step: "rail_step E (sint (clock W)) sg k act (rail_of E W) = Some R"
    and c: "instruction_for E p k w W act = Some c"
  shows "\<exists>W'. exec E sg c W = Inr W'"
proof -
  note facts = wager_facts [OF inv k token]
  note slip = slip_paid [OF facts(1)] slip_in_play [OF facts(1)] slip_locked [OF facts(2,1)]
    slip_deadline [OF facts(2,1)] slip_gone [OF facts(1)]
  note sgn = word_sle_eq word_sless_alt
  have ex: "exit_ready E W k w" using ready(1) by (simp add: rail_ready_def)
  have part: "s \<in> {w_side_a w, w_side_b w} \<longleftrightarrow> is_participant w s" for s
    by (simp add: is_participant_def)
  show ?thesis
  proof (cases act)
    case (Stake s "from")
    with step k slip(1) part have g: "s \<in> sg" "is_participant w s" "\<not> funded s w"
      "clock W \<le>s w_deadline_fund w" "within_caps E (rail_of E W) (slip_of w) s from"
      by (auto simp: sgn split: if_splits)
    from g(2,3) have "w_state w = Funding"
      using facts(2) by (auto simp: life_wf_def funded_def split: if_splits)
    from stake_possible [OF inv real k ready(1) this g(4,2,3,1) sg _ g(5)] ready(2) Stake c
    show ?thesis by auto
  next
    case (Unstake s)
    with step k slip(1,3) have g: "s \<in> sg" "is_participant w s" "funded s w" "w_state w \<noteq> Active"
      "clock W \<le>s w_deadline_fund w"
      by (auto simp: sgn split: if_splits)
    from g(4) facts(2) have "w_state w = Funding" unfolding life_wf_def by blast
    from unstake_possible [OF inv k ready(1) this g(5,2,3,1)] Unstake c show ?thesis by auto
  next
    case (Decide winner)
    with step k slip(3) part [of winner] have "w_resolver w \<in> sg" "is_participant w winner"
      "w_state w = Active" "clock W \<le>s w_deadline_resolve w"
      by (auto simp: sgn split: if_splits)
    from resolve_possible [OF inv k ready(1) this(3,4,2,1)] Decide c show ?thesis by auto
  next
    case (Yield s)
    with step k slip(3) part [of s] have "s \<in> sg" "is_participant w s"
      "w_state w = Active" "clock W \<le>s w_deadline_resolve w"
      by (auto simp: sgn split: if_splits)
    from concede_possible [OF inv k ready(1) this(3,4,2,1)] Yield c show ?thesis by auto
  next
    case (Refund s)
    with step k slip(2,4) have "is_participant w s" "side_in s w" "operative_deadline w <s clock W"
      by (auto simp: sgn split: if_splits)
    from refund_possible [OF inv k this(3,1,2) ex sg] Refund c show ?thesis by auto
  next
    case (Offer s)
    with step k slip(3) part [of s] have "s \<in> sg" "is_participant w s"
      "w_state w = Active" "clock W \<le>s w_deadline_resolve w" "w_cancel_proposed_by w = default_key"
      by (auto simp: sgn split: if_splits)
    from propose_possible [OF inv k this(3,4,2,5,1)] Offer c show ?thesis by auto
  next
    case (Withdraw s)
    with step k part [of s] have "s \<in> sg" "is_participant w s" "w_cancel_proposed_by w \<noteq> default_key"
      by (auto split: if_splits)
    from clear_possible [OF inv k this(2,3,1)] Withdraw c show ?thesis by auto
  next
    case (Agree s)
    with step k slip(3) part [of s] have "s \<in> sg" "is_participant w s"
      "w_state w = Active" "clock W \<le>s w_deadline_resolve w" "w_cancel_proposed_by w = counterparty w s"
      by (auto simp: sgn split: if_splits)
    from accept_possible [OF inv k ready(1) this(3,4,2,5,1)] Agree c show ?thesis by auto
  next
    case Finish
    with step k slip(4,5) have "fully_exited w" "operative_deadline w <s clock W"
      by (auto simp: sgn split: if_splits)
    from close_possible [OF inv k this(2,1) ex sg] Finish c show ?thesis by auto
  qed (use c in simp)
qed

text \<open>On the canonical accounts the program does exactly what the specification says.\<close>

lemma exec_is_rail_step:
  assumes "inv E W" "real_signers E sg" "token_stakes E W"
    and "accts W k = Some (WagerAcc w)" "rail_ready E W k w" "act_ready E W p w act" "p \<in> sg"
    and "instruction_for E p k w W act = Some c"
  shows "(case exec E sg c W of Inl _ \<Rightarrow> None | Inr W' \<Rightarrow> Some (rail_of E W')) =
    rail_step E (sint (clock W)) sg k act (rail_of E W)"
proof (cases "exec E sg c W")
  case (Inl e)
  with act_possible [OF assms(1-7) _ assms(8)] show ?thesis
    by (cases "rail_step E (sint (clock W)) sg k act (rail_of E W)") auto
next
  case (Inr W')
  from exec_simulated [OF assms(1-3) Inr] instruction_names [OF assms(8)] Inr show ?thesis by simp
qed

lemma create_possible:
  assumes c: "accts W (config_key E) = Some (ConfigAcc c)" and inv: "inv E W"
    and p: "p \<in> sg" and ready: "open_ready E W p c args W2"
    and ok: "acceptable (rules_of c) (sint (clock W)) (ca_side_a args) (ca_side_b args)
      (unat (ca_stake args)) (ca_resolver args) (sint (ca_deadline_fund args))
      (sint (ca_deadline_resolve args))"
    and th: "ca_terms_hash args \<noteq> 0"
  shows "\<exists>W'. exec E sg (Create_Wager (create_for E p c args) args) W = Inr W'"
proof -
  let ?a = "create_for E p c args"
  have wf: "config_wf c" and bump: "c_bump c = snd (find_pda E config_seeds)"
    using inv c by (auto simp: inv_def config_ok_def)
  have "pda_at E config_seeds (c_bump c) (config_key E)"
    using find_create [of config_seeds "config_key E" "c_bump c"] bump
    by (simp add: pda_at_def config_key_def)
  with c p ready have "validate_create_wager E sg ?a args W = Inr (c, W2)"
    by (auto simp: validate_create_wager_Inr create_for_def open_ready_def Let_def)
  moreover have "resolver_allowed c (ca_resolver args) = Inr True"
    using wf ok by (simp add: resolver_allowed_Inr config_wf_def acceptable_def rules_of_def)
  moreover have dl: "clock W <s ca_deadline_fund args"
      "ca_deadline_fund args <s ca_deadline_resolve args"
    using ok by (simp_all add: acceptable_def word_sless_alt)
  moreover have "windows_ok (clock W) (ca_deadline_fund args) (ca_deadline_resolve args)
      (c_max_window c) = Inr True"
    using ok by (simp add: windows_ok_iff [OF dl] acceptable_def rules_of_def)
  moreover have "\<not> c_paused c" "c_min_stake c \<le> ca_stake args" "ca_stake args \<le> c_max_stake c"
      "ca_resolver args \<noteq> ca_side_a args" "ca_resolver args \<noteq> ca_side_b args"
      "ca_side_a args \<noteq> default_key" "ca_side_b args \<noteq> default_key"
      "ca_side_b args \<noteq> ca_side_a args"
    using ok by (auto simp: acceptable_def rules_of_def word_le_nat_alt)
  ultimately show ?thesis using th by (simp add: handle_create_wager_def)
qed

end

end
