(* ===== verification/Refinement.thy ===== *)
theory Refinement
  imports Guarantees Availability
begin

text \<open>
  The program against its specification: every transaction is a run of the rail, and on the
  canonical accounts an instruction succeeds exactly when the rail allows its act.
\<close>

section \<open>Transactions are runs\<close>

text \<open>The acts of a transaction, one after the other, each with its wager.\<close>

fun rail_run ::
  "env \<Rightarrow> int \<Rightarrow> pubkey set \<Rightarrow> (pubkey \<times> act) list \<Rightarrow> rail \<Rightarrow> rail option" where
  "rail_run E now sg [] R = Some R"
| "rail_run E now sg ((k, act) # rest) R =
    Option.bind (rail_step E now sg k act R) (rail_run E now sg rest)"

fun acts_of :: "call list \<Rightarrow> (pubkey \<times> act) list" where
  "acts_of [] = []"
| "acts_of (c # cs) = (case call_wager c of
     None \<Rightarrow> acts_of cs
   | Some k \<Rightarrow> (k, act_of c) # acts_of cs)"

lemma effect_rules [simp]: "ra_rules (effect E k v act R) = ra_rules R"
  by (cases act) (simp_all add: take_stake_def give_back_def wind_off_def)

lemma rail_step_rules: "rail_step E now sg k act R = Some R' \<Longrightarrow> ra_rules R' = ra_rules R"
  by (cases act) (auto simp del: effect.simps split: option.splits if_splits)

lemma token_stakes_rules:
  "token_stakes E W \<longleftrightarrow> (\<forall>r. ra_rules (rail_of E W) = Some r \<longrightarrow> ru_mint r \<noteq> native_mint E)"
proof -
  have "rules_at d = Some r \<longleftrightarrow> (\<exists>c. d = Some (ConfigAcc c) \<and> r = rules_of c)" for d r
    by (cases d rule: rules_at.cases) auto
  then show ?thesis by (auto simp: token_stakes_def rules_of_def)
qed

context chain
begin

lemma transaction_simulated:
  assumes "inv E W" "real_signers E sg" "token_stakes E W" "\<forall>c \<in> set cs. call_wager c \<noteq> None"
    and "run_transaction exec E sg cs W = Inr W'"
  shows "rail_run E (sint (clock W)) sg (acts_of cs) (rail_of E W) = Some (rail_of E W')"
  using assms(1,3-5)
proof (induction cs arbitrary: W)
  case (Cons c cs)
  then obtain k where k: "call_wager c = Some k" by auto
  from Cons.prems(4) obtain W1 where run: "exec E sg c W = Inr W1"
    and rest: "run_transaction exec E sg cs W1 = Inr W'"
    by (auto simp: try_bind_Inr)
  have step: "rail_step E (sint (clock W)) sg k (act_of c) (rail_of E W) = Some (rail_of E W1)"
    by (rule exec_simulated [OF Cons.prems(1) assms(2) Cons.prems(2) run k])
  have "inv E W1"
    using program.keeps_inv [OF chain_axioms assms(2) Cons.prems(1) run] .
  moreover have "token_stakes E W1"
    using Cons.prems(2) rail_step_rules [OF step] by (simp add: token_stakes_rules del: rail_of_simps)
  moreover have "clock W1 = clock W" using program.keeps_time [OF run] by simp
  ultimately have "rail_run E (sint (clock W)) sg (acts_of cs) (rail_of E W1) = Some (rail_of E W')"
    using Cons.IH [of W1] Cons.prems(3) rest by simp
  with step k show ?case by simp
qed simp

end

text \<open>
  C3. Every transaction on wagers refines the rail: run on the slips, balances, counts and sum
  that the world's accounts stand for, the specification takes the same acts, in the same order,
  to exactly those the resulting accounts stand for. Whatever accounts were passed, nothing but
  the acts they name has happened.
\<close>

theorem transactions_refine_the_rail:
  assumes "chain E" "reachable E W" "real_signers E sg" "token_stakes E W"
    and "run_transaction exec E sg cs W = Inr W'" "None \<notin> call_wager ` set cs"
  shows "rail_run E (sint (clock W)) sg (acts_of cs) (rail_of E W) = Some (rail_of E W')"
proof -
  have "\<forall>c \<in> set cs. call_wager c \<noteq> None" using assms(6) by (metis imageI)
  from chain.transaction_simulated [OF assms(1) reachable_inv [OF assms(1,2)] assms(3,4) this assms(5)]
  show ?thesis .
qed

theorem transactions_refine_the_rail_witness:
  "rail_run ref_env 1000 people [(wager1, Stake bob (usd_of bob))] (rail_of ref_env world_half) =
    Some (rail_of ref_env world_locked)"
proof -
  have run: "run_transaction exec ref_env people [stake_call bob] world_half = Inr world_locked"
    using run_locked by simp
  have "None \<notin> call_wager ` set [stake_call bob]" by (simp add: stake_call_def)
  from transactions_refine_the_rail [OF ref.chain_axioms reachable_worlds(4) people_real
      scenario_token_stakes(1) run this]
  show ?thesis by (simp add: at_half(4) stake_call_def stake_args_def)
qed

section \<open>What is allowed is done\<close>

text \<open>The scenario's locked wager has all it needs.\<close>

lemma locked_rail_ready: "rail_ready ref_env world_locked wager1 locked_bet"
proof -
  have "ledger world_locked = ledger world_expired" by (simp add: world_expired_def)
  then have "exit_ready ref_env world_locked wager1 locked_bet"
    using expired_exit_ready by (simp add: exit_ready_def)
  moreover have "receives (tokens (ledger world_locked)) usd (usd_of treasury)"
    by (simp add: receives_def at_locked evaluate)
  moreover have "usd_of treasury \<notin> {vault1, usd_of alice, usd_of bob}" "usd_of alice \<noteq> usd_of bob"
    "counter_key ref_env alice \<noteq> counter_key ref_env bob"
    by (simp_all add: counter_key_def evaluate)
  moreover have "w_side_a locked_bet = alice" "w_side_b locked_bet = bob" "w_mint locked_bet = usd"
    "w_fee_destination locked_bet = usd_of treasury"
    by (simp_all add: locked_bet_def bet_def)
  ultimately show ?thesis
    by (simp add: rail_ready_def Let_def vault_key_def vault1_def usd_of_def)
qed

text \<open>
  C4. On a wager whose outside accounts are in order (token accounts there and thawed, no
  colliding addresses), the program does exactly what the specification says: the instruction
  for an act, on its canonical accounts, succeeds when the rail allows the act, with the rail's
  result, and fails when it does not. The instruction fails for no other reason, and no state
  of the books blocks an act that is allowed.
\<close>

theorem program_does_what_the_rail_allows:
  assumes "chain E" "reachable E W" "real_signers E sg" "token_stakes E W"
    and "accts W k = Some (WagerAcc w)" "rail_ready E W k w" "act_ready E W p w act" "p \<in> sg"
    and "instruction_for E p k w W act = Some c"
  shows "(case exec E sg c W of Inl _ \<Rightarrow> None | Inr W' \<Rightarrow> Some (rail_of E W')) =
    rail_step E (sint (clock W)) sg k act (rail_of E W)"
  by (rule chain.exec_is_rail_step [OF assms(1) reachable_inv [OF assms(1,2)] assms(3-9)])

theorem program_does_what_the_rail_allows_witness:
  "\<exists>W'. exec ref_env people (Resolve (resolve_for ref_env wager1 locked_bet bob) bob) world_locked =
      Inr W' \<and>
    ra_slips (rail_of ref_env W') wager1 = None"
proof -
  let ?c = "Resolve (resolve_for ref_env wager1 locked_bet bob) bob"
  have "locked (slip_of locked_bet)" "sl_resolve (slip_of locked_bet) = 1100"
    "judge \<in> people" "w_resolver locked_bet = judge" "bob \<in> sides (slip_of locked_bet)"
    by (auto simp: locked_def sides_def slip_of_def locked_bet_def bet_def people_def)
  then have "rail_step ref_env (sint (clock world_locked)) people wager1 (Decide bob)
      (rail_of ref_env world_locked) = Some (wind_off ref_env wager1 (slip_of locked_bet)
        [(bob, prize (slip_of locked_bet))] (sides (slip_of locked_bet)) (rail_of ref_env world_locked))"
    by (simp add: locked_wager at_locked(4) del: slip_of_keys)
  moreover have "anyone \<in> people" by (simp add: people_def)
  ultimately obtain W' where "exec ref_env people ?c world_locked = Inr W'"
    "rail_of ref_env W' = wind_off ref_env wager1 (slip_of locked_bet)
        [(bob, prize (slip_of locked_bet))] (sides (slip_of locked_bet)) (rail_of ref_env world_locked)"
    using program_does_what_the_rail_allows [OF ref.chain_axioms reachable_worlds(5) people_real
        scenario_token_stakes(2) locked_wager locked_rail_ready, of anyone "Decide bob" ?c]
    by (auto split: sum.splits)
  then show ?thesis by (auto simp: wind_off_def simp del: rail_of_simps)
qed

section \<open>Staking can be undone\<close>

lemma take_and_give:
  assumes "ra_slips R k = Some v" "s \<notin> sl_paid v" "sl_stake v \<le> ra_balance R (purse_key E v s)"
    and "purse_key E v s \<noteq> purse_key E v k"
  shows "give_back E k (v\<lparr>sl_paid := insert s (sl_paid v)\<rparr>) s v (take_stake E k v s (purse_key E v s) R) = R"
  by (rule rail_eqI) (use assms in \<open>simp_all add: give_back_def take_stake_def shift_def purse_key_def\<close>)

context chain
begin

lemma stake_undone:
  assumes inv: "inv E W" and real: "real_signers E sg" "real_signers E sg'" and token: "token_stakes E W"
    and one: "handle_stake_side E sg a W = Inr W1" and two: "handle_unstake_side E sg' b W1 = Inr W2"
    and same: "us_wager b = ss_wager a" "us_staker b = ss_staker a"
    and k: "accts W (ss_wager a) = Some (WagerAcc w)"
    and own: "ss_staker_token a = ata_address E (ss_staker a) (w_mint w)"
  shows "rail_of E W2 = rail_of E W" and "accts W2 (ss_wager a) = Some (WagerAcc w)"
proof -
  let ?k = "ss_wager a" and ?s = "ss_staker a" and ?A = "ata_address E (ss_staker a) (w_mint w)"
  let ?v = "slip_of w"
  note w1 = stake_side_wager [OF one k]
  have exec1: "exec E sg (Stake_Side a) W = Inr W1" and exec2: "exec E sg' (Unstake_Side b) W1 = Inr W2"
    using one two by simp_all
  have inv1: "inv E W1" by (rule program.keeps_inv [OF chain_axioms real(1) inv exec1])
  have step1: "rail_step E (sint (clock W)) sg ?k (Stake ?s ?A) (rail_of E W) = Some (rail_of E W1)"
    using exec_simulated [OF inv real(1) token exec1] own by simp
  then have R1: "rail_of E W1 = take_stake E ?k ?v ?s ?A (rail_of E W)" and new: "?s \<notin> sl_paid ?v"
    and le: "unat (w_stake w) \<le> amount_at (tokens (ledger W)) ?A"
    using k by (auto simp: within_caps_def simp del: rail_of_simps(1) split: if_splits option.splits)
  have token1: "token_stakes E W1"
    using token rail_step_rules [OF step1] by (simp add: token_stakes_rules del: rail_of_simps)
  have v1: "slip_of (stake_in ?s w) = ?v\<lparr>sl_paid := insert ?s (sl_paid ?v)\<rparr>"
    by (rule slip_stake_in [OF w1(2)])
  have "rail_step E (sint (clock W1)) sg' ?k (Unstake ?s) (rail_of E W1) = Some (rail_of E W2)"
    using exec_simulated [OF inv1 real(2) token1 exec2] same by simp
  then have "rail_of E W2 = give_back E ?k (slip_of (stake_in ?s w)) ?s
      ((slip_of (stake_in ?s w))\<lparr>sl_paid := sl_paid (slip_of (stake_in ?s w)) - {?s}\<rparr>) (rail_of E W1)"
    using w1(1) by (auto split: if_splits)
  moreover have "(?v\<lparr>sl_paid := insert ?s (sl_paid ?v)\<rparr>)\<lparr>sl_paid := insert ?s (sl_paid ?v) - {?s}\<rparr> = ?v"
    using new by simp
  moreover have ne: "?A \<noteq> vault_key E ?k w"
    by (rule stake_side_success [OF one])
      (use k own in \<open>auto simp: validate_stake_side_Inr mut_guard_iff\<close>)
  ultimately show "rail_of E W2 = rail_of E W"
    using take_and_give [of "rail_of E W" ?k ?v ?s E] k new le
    by (simp add: v1 R1 vault_key_def)
  have out: "accts W2 ?k = Some (WagerAcc (stake_out ?s (stake_in ?s w)))"
    and open1: "w_state (stake_in ?s w) = Funding"
    using unstake_side_effect [OF inv1 two, of "stake_in ?s w"] w1(1) same
    by (auto simp: returns_stake_def)
  have "w_side_a w \<noteq> w_side_b w" using wager_facts(1) [OF inv k token] .
  then have "\<not> funded ?s w" using new w1(2) slip_paid by blast
  moreover have "w_state w = Funding"
    using stake_side_effect [OF real(1) inv one k] by blast
  ultimately have "stake_out ?s (stake_in ?s w) = w"
    using open1 by (auto simp: stake_out_def stake_in_def Let_def funded_def split: if_splits)
  with out show "accts W2 ?k = Some (WagerAcc w)" by simp
qed

end

text \<open>
  C23. Staking can be undone: a stake taken from the staker's own token account and then taken
  back leaves the rail (all slips, balances, counts and the sum at stake) and the wager's
  account exactly as before.
\<close>

theorem staking_can_be_undone:
  assumes "chain E" "reachable E W" "real_signers E sg" "real_signers E sg'" "token_stakes E W"
    and "handle_stake_side E sg a W = Inr W1" "handle_unstake_side E sg' b W1 = Inr W2"
    and "us_wager b = ss_wager a" "us_staker b = ss_staker a"
    and "accts W (ss_wager a) = Some (WagerAcc w)"
    and "ss_staker_token a = ata_address E (ss_staker a) (w_mint w)"
  shows "rail_of E W2 = rail_of E W \<and> accts W2 (ss_wager a) = accts W (ss_wager a)"
  using chain.stake_undone [OF assms(1) reachable_inv [OF assms(1,2)] assms(3-11)] assms(10) by simp

theorem staking_can_be_undone_witness:
  "\<exists>W2. handle_unstake_side ref_env people unstake_args world_half = Inr W2 \<and>
    accts W2 wager1 = Some (WagerAcc bet) \<and>
    amount_at (tokens (ledger W2)) (usd_of alice) = 1000"
proof -
  obtain W2 where two: "handle_unstake_side ref_env people unstake_args world_half = Inr W2"
    using unstake_runs by blast
  have one: "handle_stake_side ref_env people (stake_args alice) world_open = Inr world_half"
    using run_half by (simp add: stake_call_def)
  have w: "accts world_open (ss_wager (stake_args alice)) = Some (WagerAcc bet)"
    by (simp add: at_open stake_args_def evaluate)
  have tok: "token_stakes ref_env world_open"
    by (simp add: token_stakes_def config_key_def at_open evaluate)
  have same: "us_wager unstake_args = ss_wager (stake_args alice)"
    "us_staker unstake_args = ss_staker (stake_args alice)"
    "ss_staker_token (stake_args alice) =
      ata_address ref_env (ss_staker (stake_args alice)) (w_mint bet)"
    by (simp_all add: unstake_args_def stake_args_def usd_of_def bet_def)
  from staking_can_be_undone [OF ref.chain_axioms reachable_worlds(3) people_real people_real tok
      one two same(1,2) w same(3)]
  have eq: "rail_of ref_env W2 = rail_of ref_env world_open"
    and k: "accts W2 wager1 = Some (WagerAcc bet)"
    using w by (simp_all add: stake_args_def)
  have "amount_at (tokens (ledger W2)) (usd_of alice) =
      amount_at (tokens (ledger world_open)) (usd_of alice)"
    using arg_cong [OF eq, of ra_balance] by simp
  also have "\<dots> = 1000" by (simp add: at_open evaluate amount_at_def)
  finally show ?thesis using two k by blast
qed

section \<open>Creation\<close>

text \<open>
  C5. A wager is created exactly when the specification takes it: with the mint there, the address
  free and the payer able to pay for the accounts, \<^verbatim>\<open>create_wager\<close> on its canonical accounts
  succeeds when stake, sides, resolver and windows are acceptable under the rules of the moment,
  with the new slip as the only change, and fails when they are not. The terms hash, which the
  specification does not know, must not be zero.
\<close>

theorem creation_is_what_the_rail_allows:
  assumes "chain E" "reachable E W" "real_signers E sg" "token_stakes E W"
    and c: "accts W (config_key E) = Some (ConfigAcc c)" and p: "p \<in> sg"
    and ready: "open_ready E W p c args W2" and th: "ca_terms_hash args \<noteq> 0"
  shows "(case exec E sg (Create_Wager (create_for E p c args) args) W of
      Inl _ \<Rightarrow> None | Inr W' \<Rightarrow> Some (rail_of E W')) =
    rail_step E (sint (clock W)) sg (fst (find_pda E (wager_seeds (ca_side_a args) (ca_nonce args))))
      (Open_Slip (ca_side_a args) (ca_side_b args) (unat (ca_stake args)) (ca_resolver args)
        (sint (ca_deadline_fund args)) (sint (ca_deadline_resolve args))) (rail_of E W)"
    (is "?run = ?spec")
proof -
  let ?c = "Create_Wager (create_for E p c args) args"
  have inv: "inv E W" by (rule reachable_inv [OF assms(1,2)])
  show ?thesis
  proof (cases "exec E sg ?c W")
    case (Inl e)
    then have "\<nexists>W'. exec E sg ?c W = Inr W'" by simp
    then have "\<not> acceptable (rules_of c) (sint (clock W)) (ca_side_a args) (ca_side_b args)
        (unat (ca_stake args)) (ca_resolver args) (sint (ca_deadline_fund args))
        (sint (ca_deadline_resolve args))"
      using chain.create_possible [OF assms(1) c inv p ready _ th] by blast
    with Inl c show ?thesis by (simp split: option.split)
  next
    case (Inr W')
    then show ?thesis
      using chain.exec_simulated [OF assms(1) inv assms(3,4) Inr]
      by (simp add: create_for_def Let_def)
  qed
qed

theorem creation_is_what_the_rail_allows_witness:
  "rail_step ref_env 1000 people wager1 (Open_Slip alice bob 300 judge 1050 1100)
    (rail_of ref_env world_ready) = Some (rail_of ref_env world_open)"
proof -
  let ?args = "\<lparr>ca_nonce = 1, ca_side_a = alice, ca_side_b = bob, ca_stake = 300,
    ca_terms_hash = 77, ca_deadline_fund = 1050, ca_deadline_resolve = 1100, ca_resolver = judge\<rparr>"
  have c: "accts world_ready (config_key ref_env) = Some (ConfigAcc (house 0))"
    by (simp add: at_ready config_key_def config1_def)
  have call: "create_call = Create_Wager (create_for ref_env alice (house 0) ?args) ?args"
    by (simp add: create_call_def create_for_def Let_def wager1_def vault1_def usd_of_def
        config_key_def config1_def house_def ref_ata_def)
  from run_open obtain W2 where "open_ready ref_env world_ready alice (house 0) ?args W2"
    unfolding call exec.simps
    by (rule create_wager_success)
      (auto simp: validate_create_wager_Inr open_ready_def create_for_def Let_def)
  moreover have "token_stakes ref_env world_ready" "alice \<in> people"
    by (simp_all add: token_stakes_def config_key_def at_ready evaluate people_def)
  ultimately show ?thesis
    using creation_is_what_the_rail_allows [OF ref.chain_axioms reachable_worlds(2) people_real _ c,
      of alice ?args W2] run_open
    by (simp add: call [symmetric] at_ready wager1_def)
qed

end
