(* ===== verification/Governance.thy ===== *)
theory Governance
  imports Custody
begin

text \<open>
  What the admin can do and who can become admin. The configuration changes by an update the
  admin signs, by an accepted handover, and in the accumulator, which follows the stakes;
  offers of the role are the admin's alone; and no instruction of the admin touches a wager
  or a token account.
\<close>

section \<open>Instructions on wagers and the configuration\<close>

text \<open>
  What an instruction on a wager may do to an account: of the configuration the accumulator
  changes; no offer of the admin role appears, changes or goes; no account becomes one of the
  two.
\<close>

fun incidental :: "account_data option \<Rightarrow> account_data option \<Rightarrow> bool" where
  "incidental (Some (ConfigAcc c)) d \<longleftrightarrow> (case d of
     Some (ConfigAcc c') \<Rightarrow> c' = c\<lparr>c_total_open_value := c_total_open_value c'\<rparr>
   | _ \<Rightarrow> False)"
| "incidental (Some (TransferAcc t)) d \<longleftrightarrow> d = Some (TransferAcc t)"
| "incidental _ d \<longleftrightarrow> (case d of
     Some (ConfigAcc _) \<Rightarrow> False
   | Some (TransferAcc _) \<Rightarrow> False
   | _ \<Rightarrow> True)"

definition bystander :: "world \<Rightarrow> world \<Rightarrow> bool" where
  "bystander W W' \<longleftrightarrow> (\<forall>j. incidental (accts W j) (accts W' j))"

lemma incidental_refl [simp]: "incidental d d"
  by (cases "(d, d)" rule: incidental.cases) auto

lemma bystander_config:
  assumes "bystander W W'" "accts W j = Some (ConfigAcc c)"
  obtains t where "accts W' j = Some (ConfigAcc (c\<lparr>c_total_open_value := t\<rparr>))"
proof -
  have "incidental (Some (ConfigAcc c)) (accts W' j)"
    using assms unfolding bystander_def by metis
  then show thesis using that by (auto split: option.splits account_data.splits)
qed

lemma bystander_transfer:
  assumes "bystander W W'"
  shows "accts W' j = Some (TransferAcc t) \<longleftrightarrow> accts W j = Some (TransferAcc t)"
proof -
  have "incidental (accts W j) (accts W' j)" using assms by (simp add: bystander_def)
  then show ?thesis
    by (cases "(accts W j, accts W' j)" rule: incidental.cases)
      (auto split: option.splits account_data.splits)
qed

lemma wager_calls_bystander:
  assumes run: "exec E sg c W = Inr W'" and named: "call_wager c \<noteq> None"
  shows "bystander W W'"
proof (cases c)
  case (Create_Wager a args)
  with run have "handle_create_wager E sg a args W = Inr W'" by simp
  then show ?thesis
    by (rule create_wager_success)
      (frule create_wager_accts(1), drule create_wager_accts(2), simp add: bystander_def)
next
  case (Stake_Side a)
  with run have "handle_stake_side E sg a W = Inr W'" by simp
  then show ?thesis
    by (rule stake_side_success)
      (auto simp: bystander_def validate_stake_side_Inr init_if_needed_counter_Inr)
next
  case (Unstake_Side a)
  with run have "handle_unstake_side E sg a W = Inr W'" by simp
  then show ?thesis
    by (rule unstake_side_success)
      (auto simp: bystander_def validate_unstake_side_Inr)
next
  case (Resolve a winner)
  with run have "handle_resolve E sg a winner W = Inr W'" by simp
  then show ?thesis
    by (rule resolve_success) (auto simp: bystander_def validate_resolve_Inr)
next
  case (Concede a)
  with run have "handle_concede E sg a W = Inr W'" by simp
  then show ?thesis
    by (rule concede_success) (auto simp: bystander_def validate_concede_Inr)
next
  case (Refund_Side a)
  with run have "handle_refund_side E sg a W = Inr W'" by simp
  then show ?thesis
    by (rule refund_side_success)
      (auto simp: bystander_def validate_refund_side_Inr)
next
  case (Cancel_Propose a)
  with run have "handle_cancel_propose E sg a W = Inr W'" by simp
  then show ?thesis
    by (rule cancel_propose_success)
      (auto simp: bystander_def validate_cancel_propose_Inr)
next
  case (Cancel_Clear a)
  with run have "handle_cancel_clear E sg a W = Inr W'" by simp
  then show ?thesis
    by (rule cancel_clear_success)
      (auto simp: bystander_def validate_cancel_clear_Inr)
next
  case (Cancel_Accept a)
  with run have "handle_cancel_accept E sg a W = Inr W'" by simp
  then show ?thesis
    by (rule cancel_accept_success) (auto simp: bystander_def validate_cancel_accept_Inr)
next
  case (Close_Expired a)
  with run have "handle_close_expired E sg a W = Inr W'" by simp
  then show ?thesis
    by (rule close_expired_success) (auto simp: bystander_def validate_close_expired_Inr)
qed (use named in simp_all)

section \<open>The admin's instructions\<close>

text \<open>An accepted update: signed by the admin, who stays, as do the mint and the accumulator.\<close>

definition updated_by_admin :: "pubkey set \<Rightarrow> config \<Rightarrow> config \<Rightarrow> bool" where
  "updated_by_admin sg c c' \<longleftrightarrow> c_admin c \<in> sg \<and> config_wf c' \<and>
    c_admin c' = c_admin c \<and> c_mint c' = c_mint c \<and>
    c_total_open_value c' = c_total_open_value c \<and> c_bump c' = c_bump c"

text \<open>An accepted handover: the stored proposal's key signs, and only the admin changes.\<close>

definition handed_over :: "env \<Rightarrow> pubkey set \<Rightarrow> world \<Rightarrow> config \<Rightarrow> config \<Rightarrow> bool" where
  "handed_over E sg W c c' \<longleftrightarrow> (\<exists>t. accts W (transfer_key E) = Some (TransferAcc t) \<and>
    at_proposed t \<in> sg \<and> c' = c\<lparr>c_admin := at_proposed t\<rparr>)"

lemma admin_calls_config:
  assumes inv: "inv E W" and run: "exec E sg k W = Inr W'" and admin: "call_wager k = None"
    and c: "accts W (config_key E) = Some (ConfigAcc c)"
  shows "\<exists>c'. accts W' (config_key E) = Some (ConfigAcc c') \<and>
    (c' = c \<or> (\<exists>a args. k = Update_Config a args) \<and> updated_by_admin sg c c' \<or>
     (\<exists>a. k = Accept_Admin a) \<and> handed_over E sg W c c' \<and> accts W' (transfer_key E) = None)"
proof (cases k)
  case (Initialize_Config a args)
  with run have "handle_initialize_config E sg a args W = Inr W'" by simp
  then show ?thesis by (rule initialize_config_success) (use c in simp)
next
  case (Update_Config a args)
  with run have "handle_update_config E sg a args W = Inr W'" by simp
  then show ?thesis
  proof (rule update_config_success)
    fix c1 d rs
    assume v: "validate_update_config E sg a W = Inr c1" and d: "allowlist_slice c1 = Inr d"
      and rs: "rs = unwrap_or (ua_resolvers args) d"
      and vals: "validate_config_values (unwrap_or (ua_fee_bps args) (c_fee_bps c1))
        (unwrap_or (ua_min_stake args) (c_min_stake c1))
        (unwrap_or (ua_max_stake args) (c_max_stake c1)) rs
        (unwrap_or (ua_max_window args) (c_max_window c1))
        (unwrap_or (ua_max_open_per_wallet args) (c_max_open_per_wallet c1))
        (unwrap_or (ua_max_total_open args) (c_max_total_open c1)) = Inr ()"
      and nd: "ua_fee_destination args \<noteq> Some default_key" "ua_rent_collector args \<noteq> Some default_key"
      and W': "W' = put_acct (uc_config a) (ConfigAcc (updated_config args c1 rs)) W"
    have "uc_config a = config_key E" "config_wf c1"
      using inv v by (auto simp: inv_def config_ok_def validate_update_config_Inr)
    moreover from this v c have "c1 = c" "c_admin c \<in> sg" by (auto simp: validate_update_config_Inr)
    moreover note updated_config_wf(1) [OF _ d rs vals nd]
    ultimately show ?thesis using W' Update_Config by (simp add: updated_by_admin_def)
  qed
next
  case (Propose_Admin a n)
  with run have "handle_propose_admin E sg a n W = Inr W'" by simp
  then show ?thesis
    by (rule propose_admin_success)
      (use c in \<open>auto simp: validate_propose_admin_Inr init_if_needed_transfer_Inr\<close>)
next
  case (Accept_Admin a)
  with run have "handle_accept_admin E sg a W = Inr W'" by simp
  then show ?thesis
  proof (rule accept_admin_success)
    fix c1
    assume v: "validate_accept_admin E sg a W = Inr c1"
      and W': "W' = close_acct (aa_admin_transfer a) (c_admin c1)
        (put_acct (aa_config a) (ConfigAcc (c1\<lparr>c_admin := aa_new_admin a\<rparr>))
          (emit_cpi (AdminTransferred (c_admin c1) (aa_new_admin a)) W))"
    from v obtain t where t: "accts W (aa_admin_transfer a) = Some (TransferAcc t)"
      "at_proposed t = aa_new_admin a" "aa_new_admin a \<in> sg" "accts W (aa_config a) = Some (ConfigAcc c1)"
      unfolding validate_accept_admin_Inr by blast
    then have "aa_admin_transfer a = transfer_key E" "aa_config a = config_key E"
      using inv by (auto simp: inv_def transfers_ok_def config_ok_def)
    with t c W' Accept_Admin show ?thesis by (auto simp: handed_over_def)
  qed
next
  case (Cancel_Admin_Transfer a)
  with run have "handle_cancel_admin_transfer E sg a W = Inr W'" by simp
  then show ?thesis
    by (rule cancel_admin_transfer_success) (use c in \<open>auto simp: validate_cancel_admin_transfer_Inr\<close>)
qed (use admin in simp_all)

text \<open>A new offer of the role is the admin's, for another key.\<close>

lemma offers_by_admin:
  assumes inv: "inv E W" and run: "exec E sg k W = Inr W'"
    and t: "accts W' j = Some (TransferAcc t)" "accts W j \<noteq> Some (TransferAcc t)"
  obtains c a where "accts W (config_key E) = Some (ConfigAcc c)" "c_admin c \<in> sg"
    "k = Propose_Admin a (at_proposed t)" "at_proposed t \<noteq> c_admin c" "at_proposed t \<noteq> default_key"
proof -
  have "call_wager k = None"
    using wager_calls_bystander [OF run] bystander_transfer t by blast
  then have "\<exists>a n. k = Propose_Admin a n"
    using run t
    by (cases k) (auto elim!: initialize_config_success update_config_success accept_admin_success
        cancel_admin_transfer_success simp: validate_accept_admin_Inr
        validate_cancel_admin_transfer_Inr split: if_splits)
  then obtain a n where k: "k = Propose_Admin a n" by blast
  with run have "handle_propose_admin E sg a n W = Inr W'" by simp
  then show thesis
  proof (rule propose_admin_success)
    fix c t1 W1
    assume v: "validate_propose_admin E sg a W = Inr (c, t1, W1)"
      and n: "n \<noteq> default_key" "n \<noteq> c_admin c"
      and W': "W' = put_acct (pa_admin_transfer a)
        (TransferAcc \<lparr>at_proposed = n, at_bump = snd (find_pda E admin_transfer_seeds)\<rparr>)
        (emit_cpi (AdminTransferProposed n) W1)"
    from v have c: "accts W (pa_config a) = Some (ConfigAcc c)" "c_admin c \<in> sg"
      and W1: "accts W1 = accts W"
      by (auto simp: validate_propose_admin_Inr init_if_needed_transfer_Inr)
    have "pa_config a = config_key E" using inv c by (simp add: inv_def config_ok_def)
    moreover have "at_proposed t = n" using t W' W1 by (auto split: if_splits)
    ultimately show thesis using that c k n by simp
  qed
qed

text \<open>The admin's instructions see no wager.\<close>

lemma admin_calls_wagers:
  assumes run: "exec E sg c W = Inr W'" and admin: "call_wager c = None"
  shows "accts W' k = Some (WagerAcc w) \<longleftrightarrow> accts W k = Some (WagerAcc w)"
proof
  assume "accts W k = Some (WagerAcc w)"
  with admin_calls_follow [OF run admin] show "accts W' k = Some (WagerAcc w)" by simp
next
  assume "accts W' k = Some (WagerAcc w)"
  with run admin show "accts W k = Some (WagerAcc w)"
    by (cases c) (auto elim!: initialize_config_success update_config_success accept_admin_success
        cancel_admin_transfer_success propose_admin_success simp: validate_propose_admin_Inr
        init_if_needed_transfer_Inr split: if_splits)
qed

text \<open>The first configuration is the upgrade authority's.\<close>

lemma initialized_by_authority:
  assumes run: "exec E sg k W = Inr W'" and new: "accts W (config_key E) = None"
    and c: "accts W' (config_key E) = Some (ConfigAcc c)"
  shows "c_admin c \<in> sg \<and> config_wf c \<and> c_total_open_value c = 0 \<and> \<not> c_paused c \<and>
    (\<exists>pd. programdata_address E = Some pd \<and> program_data W pd = Some (Some (c_admin c)))"
proof -
  obtain a args where k: "k = Initialize_Config a args"
  proof (cases k)
    case (Initialize_Config a args)
    with that show thesis by blast
  qed (use run new c in \<open>auto elim!: stake_side_success unstake_side_success resolve_success
      concede_success refund_side_success cancel_propose_success cancel_clear_success
      cancel_accept_success close_expired_success update_config_success accept_admin_success
      cancel_admin_transfer_success propose_admin_success create_wager_success
      simp: validate_propose_admin_Inr init_if_needed_transfer_Inr validate_stake_side_Inr
      init_if_needed_counter_Inr validate_unstake_side_Inr validate_resolve_Inr validate_concede_Inr
      validate_refund_side_Inr validate_cancel_propose_Inr validate_cancel_clear_Inr
      validate_cancel_accept_Inr validate_close_expired_Inr validate_update_config_Inr
      validate_accept_admin_Inr validate_cancel_admin_transfer_Inr
      dest: create_wager_accts(1) split: if_splits\<close>)
  with run have "handle_initialize_config E sg a args W = Inr W'" by simp
  then show ?thesis
  proof (rule initialize_config_success)
    fix L
    assume auth: "ic_authority a \<in> sg" "programdata_address E = Some (ic_program_data a)"
      "program_data W (ic_program_data a) = Some (Some (ic_authority a))"
      and v: "validate_config_values (ia_fee_bps args) (ia_min_stake args) (ia_max_stake args)
        (ia_resolvers args) (ia_max_window args) (ia_max_open_per_wallet args)
        (ia_max_total_open args) = Inr ()"
      and nd: "ia_mint args \<noteq> default_key" "ia_fee_destination args \<noteq> default_key"
        "ia_rent_collector args \<noteq> default_key"
      and "W' = put_acct (config_key E) (ConfigAcc (initial_config E a args)) (W\<lparr>ledger := L\<rparr>)"
    then have "c = initial_config E a args" using c by simp
    with auth initial_config_wf(1) [OF v nd] show ?thesis by (simp add: initial_config_def)
  qed
qed

end
