(* ===== verification/Administration.thy ===== *)
theory Administration
  imports Scenario Governance
begin

text \<open>
  What the admin can and cannot do, as properties of every instruction, and what a new wager
  takes over from the configuration.
\<close>

section \<open>The limits of the admin\<close>

text \<open>
  C16. The admin can never touch a live wager: an instruction that names no wager (the
  initialization, an update, the three steps of a handover) leaves every wager and every token
  account exactly as it was, whoever signs.
\<close>

theorem admin_cannot_touch_wagers:
  assumes "chain E" "exec E sg c W = Inr W'" "call_wager c = None"
  shows "(\<forall>k w. accts W' k = Some (WagerAcc w) \<longleftrightarrow> accts W k = Some (WagerAcc w)) \<and>
    tokens (ledger W') = tokens (ledger W)"
  using admin_calls_wagers [OF assms(2,3)] chain.admin_calls_tokens [OF assms] by blast

theorem admin_cannot_touch_wagers_witness:
  "\<exists>W'. exec ref_env people (Update_Config update_accounts update_args) world_locked = Inr W' \<and>
    accts W' wager1 = Some (WagerAcc locked_bet)"
proof -
  obtain W' where run: "exec ref_env people (Update_Config update_accounts update_args) world_locked = Inr W'"
    using update_runs by auto
  from admin_cannot_touch_wagers [OF ref.chain_axioms run] run show ?thesis
    by (simp add: locked_wager)
qed

text \<open>
  C32. The configuration, once it exists, stays, with its mint. An instruction on a wager changes
  of it at most the accumulator; otherwise it is unchanged, or the admin signed an update, which
  leaves admin and accumulator alone and the limits intact, or the key of a stored offer signed
  its acceptance, which changes the admin to that key and nothing else and uses the offer up.
\<close>

theorem config_changes_are_authorized:
  assumes "chain E" "reachable E W" "exec E sg k W = Inr W'"
    and "accts W (config_key E) = Some (ConfigAcc c)"
  shows "\<exists>c'. accts W' (config_key E) = Some (ConfigAcc c') \<and> c_mint c' = c_mint c \<and>
    (c' = c \<or>
     call_wager k \<noteq> None \<and> (\<exists>t. c' = c\<lparr>c_total_open_value := t\<rparr>) \<or>
     (\<exists>a args. k = Update_Config a args) \<and> c_admin c \<in> sg \<and> c_admin c' = c_admin c \<and>
       c_total_open_value c' = c_total_open_value c \<and> config_wf c' \<or>
     (\<exists>a t. k = Accept_Admin a \<and> accts W (transfer_key E) = Some (TransferAcc t) \<and>
       at_proposed t \<in> sg \<and> c' = c\<lparr>c_admin := at_proposed t\<rparr>) \<and>
       accts W' (transfer_key E) = None)"
proof (cases "call_wager k = None")
  case True
  from admin_calls_config [OF reachable_inv [OF assms(1,2)] assms(3) True assms(4)]
  show ?thesis by (auto simp: updated_by_admin_def handed_over_def)
next
  case False
  from wager_calls_bystander [OF assms(3) False] assms(4)
  obtain t where "accts W' (config_key E) = Some (ConfigAcc (c\<lparr>c_total_open_value := t\<rparr>))"
    by (rule bystander_config)
  with False show ?thesis by auto
qed

theorem config_changes_are_authorized_witness:
  "\<exists>W' c'. exec ref_env people (Accept_Admin accept_admin_args) world_offer = Inr W' \<and>
    accts W' config1 = Some (ConfigAcc c') \<and> c_mint c' = usd"
proof -
  obtain W' where run: "exec ref_env people (Accept_Admin accept_admin_args) world_offer = Inr W'"
    using accept_admin_runs by auto
  have c: "accts world_offer (config_key ref_env) = Some (ConfigAcc (house 0))"
    by (simp add: at_offer config_key_def evaluate)
  from config_changes_are_authorized [OF ref.chain_axioms reachable_worlds(11) run c] run
  show ?thesis by (auto simp: config_key_def config1_def house_def)
qed

text \<open>
  C36. Only the admin offers the role: an offer that is new after an instruction was made by
  \<^verbatim>\<open>propose_admin\<close>, signed by the admin of that moment, for the key the instruction names, which
  is neither the admin's own nor the default key.
\<close>

theorem offers_are_the_admins:
  assumes "chain E" "reachable E W" "exec E sg k W = Inr W'"
    and "accts W' j = Some (TransferAcc t)" "accts W j \<noteq> Some (TransferAcc t)"
  shows "\<exists>c a. accts W (config_key E) = Some (ConfigAcc c) \<and> c_admin c \<in> sg \<and>
    k = Propose_Admin a (at_proposed t) \<and> at_proposed t \<noteq> c_admin c \<and>
    at_proposed t \<noteq> default_key"
  using offers_by_admin [OF reachable_inv [OF assms(1,2)] assms(3-5)] by blast

theorem offers_are_the_admins_witness:
  "admin \<in> people \<and> bob \<noteq> admin"
proof -
  let ?t = "\<lparr>at_proposed = bob, at_bump = 255\<rparr>"
  have "accts world_offer offer1 = Some (TransferAcc ?t)" "accts world_ready offer1 \<noteq> Some (TransferAcc ?t)"
    by (simp_all add: at_offer at_ready evaluate)
  from offers_are_the_admins [OF ref.chain_axioms reachable_worlds(2) run_offer this]
  show ?thesis by (auto simp: at_ready config_key_def evaluate)
qed

text \<open>
  C37. The first configuration is the upgrade authority's: it appears only by an instruction the
  authority recorded for the program signed, within all limits, unpaused, with no stake in it,
  and that authority is the first admin.
\<close>

theorem first_config_is_the_authoritys:
  assumes "exec E sg k W = Inr W'" "accts W (config_key E) = None"
    and "accts W' (config_key E) = Some (ConfigAcc c)"
  shows "c_admin c \<in> sg \<and> config_wf c \<and> c_total_open_value c = 0 \<and> \<not> c_paused c \<and>
    (\<exists>pd. programdata_address E = Some pd \<and> program_data W pd = Some (Some (c_admin c)))"
  by (rule initialized_by_authority [OF assms])

theorem first_config_is_the_authoritys_witness:
  "config_wf (house 0) \<and> admin \<in> people"
proof -
  have "accts world_ready (config_key ref_env) = Some (ConfigAcc (house 0))"
    "accts world0 (config_key ref_env) = None"
    by (simp_all add: at_ready at_0 config_key_def evaluate)
  from first_config_is_the_authoritys [OF run_ready this(2,1)] show ?thesis
    by (simp add: house_def)
qed

text \<open>
  C38. The values of a configuration are accepted exactly when they are within the limits, read as
  numbers, and the first limit broken, in the order of the source, is the error.
\<close>

theorem config_values_checked_exactly:
  "validate_config_values fee lo hi rs win n cap =
    (if 1000 < unat fee then Inl (Shake FeeTooHigh)
     else if unat lo = 0 \<or> unat hi < unat lo then Inl (Shake BadStakeBounds)
     else if length rs = 0 \<or> 4 < length rs \<or> default_key \<in> set rs then Inl (Shake BadResolverList)
     else if sint win \<le> 0 \<or> 180 * 24 * 60 * 60 < sint win then Inl (Shake BadWindow)
     else if unat n = 0 \<or> unat cap < 2 * unat hi then Inl (Shake BadExposureCaps)
     else Inr ())"
proof -
  have fee: "fee \<le> MAX_FEE_BPS \<longleftrightarrow> \<not> 1000 < unat fee" by (metis valid_fee_bps not_less)
  have bounds: "0 < lo \<and> lo \<le> hi \<longleftrightarrow> \<not> (unat lo = 0 \<or> unat hi < unat lo)"
    by (auto simp: word_less_nat_alt word_le_nat_alt)
  have list: "rs \<noteq> [] \<and> length rs \<le> RESOLVER_ALLOWLIST_LEN \<and> (\<forall>r \<in> set rs. r \<noteq> default_key) \<longleftrightarrow>
      \<not> (length rs = 0 \<or> 4 < length rs \<or> default_key \<in> set rs)"
    by (auto simp: RESOLVER_ALLOWLIST_LEN_def Suc_le_eq)
  have win: "0 <s win \<and> win \<le>s MAX_WINDOW_CAP \<longleftrightarrow>
      \<not> (sint win \<le> 0 \<or> 180 * 24 * 60 * 60 < sint win)"
    by (auto simp: word_sless_alt word_sle_eq MAX_WINDOW_CAP_seconds)
  have caps: "0 < n \<and> hi \<le> cap div 2 \<longleftrightarrow> \<not> (unat n = 0 \<or> unat cap < 2 * unat hi)"
    by (auto simp: half_cap_iff word_less_nat_alt)
  show ?thesis
    unfolding validate_config_values_def fee bounds list win caps require_def by simp
qed

text \<open>
  C26. An update sets exactly the options it gives: every parameter of the configuration is the
  given value or, without one, the old one; the list of resolvers in force is the given list or
  the old one; admin, mint, accumulator and bump stay, and so does every other account.
\<close>

theorem update_applies_options:
  assumes "chain E" "reachable E W" "handle_update_config E sg a args W = Inr W'"
    and "accts W (config_key E) = Some (ConfigAcc c)" "allowlist_slice c = Inr old"
  shows "\<exists>c'. W' = W\<lparr>accts := (accts W)(config_key E \<mapsto> ConfigAcc c')\<rparr> \<and>
    allowlist_slice c' = Inr (unwrap_or (ua_resolvers args) old) \<and>
    c_fee_bps c' = unwrap_or (ua_fee_bps args) (c_fee_bps c) \<and>
    c_fee_destination c' = unwrap_or (ua_fee_destination args) (c_fee_destination c) \<and>
    c_rent_collector c' = unwrap_or (ua_rent_collector args) (c_rent_collector c) \<and>
    c_min_stake c' = unwrap_or (ua_min_stake args) (c_min_stake c) \<and>
    c_max_stake c' = unwrap_or (ua_max_stake args) (c_max_stake c) \<and>
    c_max_open_per_wallet c' = unwrap_or (ua_max_open_per_wallet args) (c_max_open_per_wallet c) \<and>
    c_paused c' = unwrap_or (ua_paused args) (c_paused c) \<and>
    c_max_window c' = unwrap_or (ua_max_window args) (c_max_window c) \<and>
    c_max_total_open c' = unwrap_or (ua_max_total_open args) (c_max_total_open c) \<and>
    c_admin c' = c_admin c \<and> c_mint c' = c_mint c \<and>
    c_total_open_value c' = c_total_open_value c \<and> c_bump c' = c_bump c"
  using assms(3)
proof (rule update_config_success)
  fix c0 d rs
  assume v: "validate_update_config E sg a W = Inr c0" and d: "allowlist_slice c0 = Inr d"
    and rs: "rs = unwrap_or (ua_resolvers args) d"
    and vals: "validate_config_values (unwrap_or (ua_fee_bps args) (c_fee_bps c0))
      (unwrap_or (ua_min_stake args) (c_min_stake c0))
      (unwrap_or (ua_max_stake args) (c_max_stake c0)) rs
      (unwrap_or (ua_max_window args) (c_max_window c0))
      (unwrap_or (ua_max_open_per_wallet args) (c_max_open_per_wallet c0))
      (unwrap_or (ua_max_total_open args) (c_max_total_open c0)) = Inr ()"
    and W': "W' = put_acct (uc_config a) (ConfigAcc (updated_config args c0 rs)) W"
  have "accts W (uc_config a) = Some (ConfigAcc c0)" using v by (simp add: validate_update_config_Inr)
  moreover have "config_ok E (accts W)" using reachable_inv [OF assms(1,2)] by (simp add: inv_def)
  ultimately have key: "uc_config a = config_key E" and c0: "c0 = c" and old: "d = old"
    using assms(4,5) d by (auto simp: config_ok_def)
  have "length rs \<le> 4"
    using vals by (simp add: validate_config_values_Inr RESOLVER_ALLOWLIST_LEN_def)
  then have "allowlist_slice (updated_config args c rs) = Inr (unwrap_or (ua_resolvers args) old)"
    using assms(5) rs old resolver_count_byte [of rs]
    by (cases "ua_resolvers args")
      (auto simp: allowlist_slice_def updated_config_def result_simps RESOLVER_ALLOWLIST_LEN_def)
  with W' key c0 show ?thesis
    by (intro exI [of _ "updated_config args c rs"]) (simp add: put_acct_def updated_config_def)
qed

theorem update_applies_options_witness:
  "\<exists>W' c'. handle_update_config ref_env people update_accounts update_args world_locked = Inr W' \<and>
    accts W' config1 = Some (ConfigAcc c') \<and> c_fee_bps c' = 1000 \<and> c_min_stake c' = 100 \<and>
    allowlist_slice c' = Inr [judge, anyone]"
proof -
  obtain W' where run: "handle_update_config ref_env people update_accounts update_args world_locked = Inr W'"
    using update_runs by blast
  have c: "accts world_locked (config_key ref_env) = Some (ConfigAcc (house 600))"
    by (simp add: at_locked config_key_def evaluate)
  have "allowlist_slice (house 600) = Inr [judge]"
    by (simp add: allowlist_slice_def house_def)
  from update_applies_options [OF ref.chain_axioms reachable_worlds(5) run c this]
  obtain c' where "W' = world_locked\<lparr>accts := (accts world_locked)(config_key ref_env \<mapsto> ConfigAcc c')\<rparr>"
    "allowlist_slice c' = Inr [judge, anyone]" "c_fee_bps c' = 1000" "c_min_stake c' = 100"
    by (auto simp: update_args_def house_def)
  with run show ?thesis by (auto simp: config_key_def config1_def)
qed

section \<open>A new wager\<close>

text \<open>
  C17. A wager is created only while the configuration is not paused, for a stake within its bounds,
  with an allowed resolver who is not a side, two different sides that are both named (neither is
  the default key, which would stand for an open side), a funding window and a resolution window of
  at most \<^verbatim>\<open>max_window\<close> each, and a terms hash; the payer has signed, the mint is the configured one, and
  wager and vault are at their derived addresses. The wager starts in \<^verbatim>\<open>Funding\<close> with nothing staked
  and no cancel proposal; its terms are the arguments; mint, fee, fee destination and rent collector
  are the configuration's at that moment; no other account of the program and no balance changes.
\<close>

theorem create_wager_snapshots_config:
  assumes "chain E" "reachable E W" "token_stakes E W" "handle_create_wager E sg a args W = Inr W'"
  shows "\<exists>c rs w. accts W (config_key E) = Some (ConfigAcc c) \<and> \<not> c_paused c \<and>
    c_min_stake c \<le> ca_stake args \<and> ca_stake args \<le> c_max_stake c \<and>
    allowlist_slice c = Inr rs \<and> ca_resolver args \<in> set rs \<and>
    ca_resolver args \<notin> {ca_side_a args, ca_side_b args} \<and> ca_side_a args \<noteq> ca_side_b args \<and>
    ca_side_a args \<noteq> default_key \<and> ca_side_b args \<noteq> default_key \<and>
    0 < sint (ca_deadline_fund args) - sint (clock W) \<and>
    sint (ca_deadline_fund args) - sint (clock W) \<le> sint (c_max_window c) \<and>
    0 < sint (ca_deadline_resolve args) - sint (ca_deadline_fund args) \<and>
    sint (ca_deadline_resolve args) - sint (ca_deadline_fund args) \<le> sint (c_max_window c) \<and>
    ca_terms_hash args \<noteq> 0 \<and> cw_payer a \<in> sg \<and> cw_mint a = c_mint c \<and>
    cw_wager a = fst (find_pda E (wager_seeds (ca_side_a args) (ca_nonce args))) \<and>
    cw_vault a = ata_address E (cw_wager a) (c_mint c) \<and>
    accts W (cw_wager a) = None \<and> accts W' = (accts W)(cw_wager a \<mapsto> WagerAcc w) \<and>
    w_state w = Funding \<and> owed w = 0 \<and> w_stake w = ca_stake args \<and>
    w_side_a w = ca_side_a args \<and> w_side_b w = ca_side_b args \<and> w_resolver w = ca_resolver args \<and>
    w_terms_hash w = ca_terms_hash args \<and> w_nonce w = ca_nonce args \<and>
    w_deadline_fund w = ca_deadline_fund args \<and> w_deadline_resolve w = ca_deadline_resolve args \<and>
    w_cancel_proposed_by w = default_key \<and> w_mint w = c_mint c \<and> w_fee_bps w = c_fee_bps c \<and>
    w_fee_destination w = c_fee_destination c \<and> w_rent_collector w = c_rent_collector c \<and>
    (\<forall>j. amount_at (tokens (ledger W')) j = amount_at (tokens (ledger W)) j)"
proof -
  note inv = reachable_inv [OF assms(1,2)]
  from assms(4) show ?thesis
  proof (rule create_wager_success)
    fix c W2
    assume v: "validate_create_wager E sg a args W = Inr (c, W2)"
      and g: "\<not> c_paused c" "c_min_stake c \<le> ca_stake args" "ca_stake args \<le> c_max_stake c"
        "resolver_allowed c (ca_resolver args) = Inr True"
        "ca_resolver args \<noteq> ca_side_a args" "ca_resolver args \<noteq> ca_side_b args"
        "ca_side_a args \<noteq> default_key" "ca_side_b args \<noteq> default_key"
        "ca_side_b args \<noteq> ca_side_a args"
        "clock W <s ca_deadline_fund args" "ca_deadline_fund args <s ca_deadline_resolve args"
        "sint (ca_deadline_fund args) - sint (clock W) \<le> sint (c_max_window c)"
        "sint (ca_deadline_resolve args) - sint (ca_deadline_fund args) \<le> sint (c_max_window c)"
        "ca_terms_hash args \<noteq> 0"
      and W': "W' = put_acct (cw_wager a) (WagerAcc (new_wager E c args))
        (emit_cpi (WagerCreated (cw_wager a) (ca_side_a args) (ca_side_b args) (ca_stake args)
          (c_mint c) (ca_resolver args) (ca_terms_hash args) (ca_deadline_fund args)
          (ca_deadline_resolve args) (ca_nonce args)) W2)"
    have acc: "cw_payer a \<in> sg" "cw_mint a = c_mint c"
        "cw_wager a = fst (find_pda E (wager_seeds (ca_side_a args) (ca_nonce args)))"
        "cw_vault a = ata_address E (cw_wager a) (c_mint c)"
      using v by (auto simp: validate_create_wager_Inr init_if_needed_ata_Inr)
    have "accts W (cw_config a) = Some (ConfigAcc c)" using v by (simp add: validate_create_wager_Inr)
    then have c: "accts W (config_key E) = Some (ConfigAcc c)"
      using inv by (auto simp: inv_def config_ok_def)
    obtain rs where rs: "allowlist_slice c = Inr rs" "ca_resolver args \<in> set rs"
      using g(4) by (auto simp: resolver_allowed_def try_bind_Inr)
    have am: "amount_at (tokens (ledger W')) j = amount_at (tokens (ledger W)) j" for j
      by (rule chain.create_wager_tokens(1) [OF assms(1) inv assms(4,3)])
    show ?thesis
      by (rule exI [of _ c], rule exI [of _ rs], rule exI [of _ "new_wager E c args"])
        (use g acc c rs W' create_wager_accts(1,2) [OF v] am in
          \<open>simp add: word_sless_alt new_wager_def owed_def open_a_def open_b_def\<close>)
  qed
qed

theorem create_wager_snapshots_config_witness:
  "\<exists>w. accts world_open wager1 = Some (WagerAcc w) \<and> w_fee_bps w = 250 \<and> owed w = 0"
proof -
  obtain a args where call: "create_call = Create_Wager a args" and k: "cw_wager a = wager1"
    by (simp add: create_call_def)
  then have run: "handle_create_wager ref_env people a args world_ready = Inr world_open"
    using run_open by (metis exec.simps(3))
  have tok: "token_stakes ref_env world_ready"
    by (simp add: token_stakes_def config_key_def at_ready evaluate)
  from create_wager_snapshots_config [OF ref.chain_axioms reachable_worlds(2) tok run]
  obtain w where "accts world_open = (accts world_ready)(wager1 \<mapsto> WagerAcc w)" "owed w = 0"
    "accts world_ready config1 = Some (ConfigAcc c) \<longrightarrow> w_fee_bps w = c_fee_bps c" for c
    by (auto simp: k config_key_def config1_def)
  then show ?thesis by (auto simp: at_ready evaluate)
qed

end
