(* ===== verification/Client_Admin.thy ===== *)
theory Client_Admin
  imports Client
begin

text \<open>
  The builders of the five instructions on the configuration and the admin role
  (\<^verbatim>\<open>types.rs\<close> of the fuzz client). For an instruction \<open>x\<close>: \<open>x_keys\<close> is
  \<^verbatim>\<open>XInstructionAccounts\<close>, \<open>x_metas\<close> is \<^verbatim>\<open>XInstructionAccountMetas\<close>, \<open>x_builder\<close> is
  \<^verbatim>\<open>XInstruction\<close>, and \<open>x_data\<close>, \<open>x_with_accounts\<close>, \<open>x_to_account_metas\<close>,
  \<open>x_discriminator\<close> and \<open>x_instruction\<close> are its methods.
  An instruction without arguments serializes an empty struct, which has no bytes.
\<close>

section \<open>\<open>Initialize_Config\<close>\<close>

record initialize_config_keys =
  ick_authority :: pubkey
  ick_config :: pubkey
  ick_program_data :: pubkey

record initialize_config_metas =
  icm_authority :: account_meta
  icm_config :: account_meta
  icm_program :: account_meta
  icm_program_data :: account_meta
  icm_system_program :: account_meta

type_synonym initialize_config_builder = "(initialize_config_metas, initialize_config_args) builder"

definition initialize_config_discriminator :: bytes where
  "initialize_config_discriminator = [208, 127, 21, 1, 194, 190, 196, 70]"

definition initialize_config_data :: "initialize_config_args \<Rightarrow> initialize_config_builder" where
  "initialize_config_data d =
    \<lparr>i_accounts =
      \<lparr>icm_authority = meta_default, icm_config = meta_default, icm_program = meta_default,
      icm_program_data = meta_default, icm_system_program = meta_default\<rparr>,
     i_data = d, i_remaining = []\<rparr>"

definition initialize_config_with_accounts ::
  "initialize_config_builder \<Rightarrow> initialize_config_keys \<Rightarrow> initialize_config_builder"
where
  "initialize_config_with_accounts i a = i\<lparr>i_accounts := (i_accounts i)\<lparr>
      icm_authority := meta_new (ick_authority a) True,
      icm_config := meta_new (ick_config a) False,
      icm_program := meta_new_readonly PROGRAM_ID False,
      icm_program_data := meta_new_readonly (ick_program_data a) False,
      icm_system_program := meta_new_readonly SYSTEM_PROGRAM_ID False\<rparr>\<rparr>"

definition initialize_config_to_account_metas :: "initialize_config_builder \<Rightarrow> account_meta list" where
  "initialize_config_to_account_metas i =
    [icm_authority (i_accounts i), icm_config (i_accounts i), icm_program (i_accounts i),
    icm_program_data (i_accounts i), icm_system_program (i_accounts i)] @ i_remaining i"

definition initialize_config_instruction :: "borsh \<Rightarrow> initialize_config_builder \<Rightarrow> wire_instruction" where
  "initialize_config_instruction B i =
    \<lparr>ix_program = PROGRAM_ID, ix_accounts = initialize_config_to_account_metas i,
     ix_data = initialize_config_discriminator @ put_initialize_config_args B (i_data i)\<rparr>"

lemma initialize_config_metas_built [built_metas]:
  "initialize_config_to_account_metas
      (with_remaining (initialize_config_with_accounts (initialize_config_data d) a) r) =
    [meta_new (ick_authority a) True, meta_new (ick_config a) False,
    meta_new_readonly PROGRAM_ID False, meta_new_readonly (ick_program_data a) False,
    meta_new_readonly SYSTEM_PROGRAM_ID False] @ r"
  by (simp add: initialize_config_to_account_metas_def initialize_config_with_accounts_def
      initialize_config_data_def with_remaining_def)

lemma initialize_config_data_built [built_data]:
  "i_data (with_remaining (initialize_config_with_accounts (initialize_config_data d) a) r) = d"
  by (simp add: initialize_config_with_accounts_def initialize_config_data_def with_remaining_def)

section \<open>\<open>Update_Config\<close>\<close>

record update_config_keys =
  uck_admin :: pubkey
  uck_config :: pubkey

record update_config_metas =
  ucm_admin :: account_meta
  ucm_config :: account_meta

type_synonym update_config_builder = "(update_config_metas, update_config_args) builder"

definition update_config_discriminator :: bytes where
  "update_config_discriminator = [29, 158, 252, 191, 10, 83, 219, 99]"

definition update_config_data :: "update_config_args \<Rightarrow> update_config_builder" where
  "update_config_data d =
    \<lparr>i_accounts =
      \<lparr>ucm_admin = meta_default, ucm_config = meta_default\<rparr>,
     i_data = d, i_remaining = []\<rparr>"

definition update_config_with_accounts ::
  "update_config_builder \<Rightarrow> update_config_keys \<Rightarrow> update_config_builder"
where
  "update_config_with_accounts i a = i\<lparr>i_accounts := (i_accounts i)\<lparr>
      ucm_admin := meta_new_readonly (uck_admin a) True,
      ucm_config := meta_new (uck_config a) False\<rparr>\<rparr>"

definition update_config_to_account_metas :: "update_config_builder \<Rightarrow> account_meta list" where
  "update_config_to_account_metas i =
    [ucm_admin (i_accounts i), ucm_config (i_accounts i)] @ i_remaining i"

definition update_config_instruction :: "borsh \<Rightarrow> update_config_builder \<Rightarrow> wire_instruction" where
  "update_config_instruction B i =
    \<lparr>ix_program = PROGRAM_ID, ix_accounts = update_config_to_account_metas i,
     ix_data = update_config_discriminator @ put_update_config_args B (i_data i)\<rparr>"

lemma update_config_metas_built [built_metas]:
  "update_config_to_account_metas
      (with_remaining (update_config_with_accounts (update_config_data d) a) r) =
    [meta_new_readonly (uck_admin a) True, meta_new (uck_config a) False] @ r"
  by (simp add: update_config_to_account_metas_def update_config_with_accounts_def
      update_config_data_def with_remaining_def)

lemma update_config_data_built [built_data]:
  "i_data (with_remaining (update_config_with_accounts (update_config_data d) a) r) = d"
  by (simp add: update_config_with_accounts_def update_config_data_def with_remaining_def)

section \<open>\<open>Propose_Admin\<close>\<close>

record propose_admin_keys =
  pak_admin :: pubkey
  pak_config :: pubkey
  pak_admin_transfer :: pubkey
  pak_event_authority :: pubkey
  pak_program :: pubkey

record propose_admin_metas =
  pam_admin :: account_meta
  pam_config :: account_meta
  pam_admin_transfer :: account_meta
  pam_system_program :: account_meta
  pam_event_authority :: account_meta
  pam_program :: account_meta

type_synonym propose_admin_builder = "(propose_admin_metas, pubkey) builder"

definition propose_admin_discriminator :: bytes where
  "propose_admin_discriminator = [121, 214, 199, 212, 87, 39, 117, 234]"

definition propose_admin_data :: "pubkey \<Rightarrow> propose_admin_builder" where
  "propose_admin_data d =
    \<lparr>i_accounts =
      \<lparr>pam_admin = meta_default, pam_config = meta_default, pam_admin_transfer = meta_default,
      pam_system_program = meta_default, pam_event_authority = meta_default,
      pam_program = meta_default\<rparr>,
     i_data = d, i_remaining = []\<rparr>"

definition propose_admin_with_accounts ::
  "propose_admin_builder \<Rightarrow> propose_admin_keys \<Rightarrow> propose_admin_builder"
where
  "propose_admin_with_accounts i a = i\<lparr>i_accounts := (i_accounts i)\<lparr>
      pam_admin := meta_new (pak_admin a) True,
      pam_config := meta_new_readonly (pak_config a) False,
      pam_admin_transfer := meta_new (pak_admin_transfer a) False,
      pam_system_program := meta_new_readonly SYSTEM_PROGRAM_ID False,
      pam_event_authority := meta_new_readonly (pak_event_authority a) False,
      pam_program := meta_new_readonly (pak_program a) False\<rparr>\<rparr>"

definition propose_admin_to_account_metas :: "propose_admin_builder \<Rightarrow> account_meta list" where
  "propose_admin_to_account_metas i =
    [pam_admin (i_accounts i), pam_config (i_accounts i), pam_admin_transfer (i_accounts i),
    pam_system_program (i_accounts i), pam_event_authority (i_accounts i),
    pam_program (i_accounts i)] @ i_remaining i"

definition propose_admin_instruction :: "borsh \<Rightarrow> propose_admin_builder \<Rightarrow> wire_instruction" where
  "propose_admin_instruction B i =
    \<lparr>ix_program = PROGRAM_ID, ix_accounts = propose_admin_to_account_metas i,
     ix_data = propose_admin_discriminator @ put (b_key B) (i_data i)\<rparr>"

lemma propose_admin_metas_built [built_metas]:
  "propose_admin_to_account_metas
      (with_remaining (propose_admin_with_accounts (propose_admin_data d) a) r) =
    [meta_new (pak_admin a) True, meta_new_readonly (pak_config a) False,
    meta_new (pak_admin_transfer a) False, meta_new_readonly SYSTEM_PROGRAM_ID False,
    meta_new_readonly (pak_event_authority a) False,
    meta_new_readonly (pak_program a) False] @ r"
  by (simp add: propose_admin_to_account_metas_def propose_admin_with_accounts_def
      propose_admin_data_def with_remaining_def)

lemma propose_admin_data_built [built_data]:
  "i_data (with_remaining (propose_admin_with_accounts (propose_admin_data d) a) r) = d"
  by (simp add: propose_admin_with_accounts_def propose_admin_data_def with_remaining_def)

section \<open>\<open>Accept_Admin\<close>\<close>

record accept_admin_keys =
  aak_new_admin :: pubkey
  aak_config :: pubkey
  aak_admin_transfer :: pubkey
  aak_previous_admin :: pubkey
  aak_event_authority :: pubkey
  aak_program :: pubkey

record accept_admin_metas =
  aam_new_admin :: account_meta
  aam_config :: account_meta
  aam_admin_transfer :: account_meta
  aam_previous_admin :: account_meta
  aam_event_authority :: account_meta
  aam_program :: account_meta

type_synonym accept_admin_builder = "(accept_admin_metas, unit) builder"

definition accept_admin_discriminator :: bytes where
  "accept_admin_discriminator = [112, 42, 45, 90, 116, 181, 13, 170]"

definition accept_admin_data :: "unit \<Rightarrow> accept_admin_builder" where
  "accept_admin_data d =
    \<lparr>i_accounts =
      \<lparr>aam_new_admin = meta_default, aam_config = meta_default,
      aam_admin_transfer = meta_default, aam_previous_admin = meta_default,
      aam_event_authority = meta_default, aam_program = meta_default\<rparr>,
     i_data = d, i_remaining = []\<rparr>"

definition accept_admin_with_accounts ::
  "accept_admin_builder \<Rightarrow> accept_admin_keys \<Rightarrow> accept_admin_builder"
where
  "accept_admin_with_accounts i a = i\<lparr>i_accounts := (i_accounts i)\<lparr>
      aam_new_admin := meta_new_readonly (aak_new_admin a) True,
      aam_config := meta_new (aak_config a) False,
      aam_admin_transfer := meta_new (aak_admin_transfer a) False,
      aam_previous_admin := meta_new (aak_previous_admin a) False,
      aam_event_authority := meta_new_readonly (aak_event_authority a) False,
      aam_program := meta_new_readonly (aak_program a) False\<rparr>\<rparr>"

definition accept_admin_to_account_metas :: "accept_admin_builder \<Rightarrow> account_meta list" where
  "accept_admin_to_account_metas i =
    [aam_new_admin (i_accounts i), aam_config (i_accounts i), aam_admin_transfer (i_accounts i),
    aam_previous_admin (i_accounts i), aam_event_authority (i_accounts i),
    aam_program (i_accounts i)] @ i_remaining i"

definition accept_admin_instruction :: "borsh \<Rightarrow> accept_admin_builder \<Rightarrow> wire_instruction" where
  "accept_admin_instruction B i =
    \<lparr>ix_program = PROGRAM_ID, ix_accounts = accept_admin_to_account_metas i,
     ix_data = accept_admin_discriminator\<rparr>"

lemma accept_admin_metas_built [built_metas]:
  "accept_admin_to_account_metas
      (with_remaining (accept_admin_with_accounts (accept_admin_data d) a) r) =
    [meta_new_readonly (aak_new_admin a) True, meta_new (aak_config a) False,
    meta_new (aak_admin_transfer a) False, meta_new (aak_previous_admin a) False,
    meta_new_readonly (aak_event_authority a) False,
    meta_new_readonly (aak_program a) False] @ r"
  by (simp add: accept_admin_to_account_metas_def accept_admin_with_accounts_def
      accept_admin_data_def with_remaining_def)

lemma accept_admin_data_built [built_data]:
  "i_data (with_remaining (accept_admin_with_accounts (accept_admin_data d) a) r) = d"
  by (simp add: accept_admin_with_accounts_def accept_admin_data_def with_remaining_def)

section \<open>\<open>Cancel_Admin_Transfer\<close>\<close>

record cancel_admin_transfer_keys =
  ctk_admin :: pubkey
  ctk_config :: pubkey
  ctk_admin_transfer :: pubkey
  ctk_event_authority :: pubkey
  ctk_program :: pubkey

record cancel_admin_transfer_metas =
  ctm_admin :: account_meta
  ctm_config :: account_meta
  ctm_admin_transfer :: account_meta
  ctm_event_authority :: account_meta
  ctm_program :: account_meta

type_synonym cancel_admin_transfer_builder = "(cancel_admin_transfer_metas, unit) builder"

definition cancel_admin_transfer_discriminator :: bytes where
  "cancel_admin_transfer_discriminator = [38, 131, 157, 31, 240, 137, 44, 215]"

definition cancel_admin_transfer_data :: "unit \<Rightarrow> cancel_admin_transfer_builder" where
  "cancel_admin_transfer_data d =
    \<lparr>i_accounts =
      \<lparr>ctm_admin = meta_default, ctm_config = meta_default, ctm_admin_transfer = meta_default,
      ctm_event_authority = meta_default, ctm_program = meta_default\<rparr>,
     i_data = d, i_remaining = []\<rparr>"

definition cancel_admin_transfer_with_accounts ::
  "cancel_admin_transfer_builder \<Rightarrow> cancel_admin_transfer_keys \<Rightarrow> cancel_admin_transfer_builder"
where
  "cancel_admin_transfer_with_accounts i a = i\<lparr>i_accounts := (i_accounts i)\<lparr>
      ctm_admin := meta_new (ctk_admin a) True,
      ctm_config := meta_new_readonly (ctk_config a) False,
      ctm_admin_transfer := meta_new (ctk_admin_transfer a) False,
      ctm_event_authority := meta_new_readonly (ctk_event_authority a) False,
      ctm_program := meta_new_readonly (ctk_program a) False\<rparr>\<rparr>"

definition cancel_admin_transfer_to_account_metas :: "cancel_admin_transfer_builder \<Rightarrow> account_meta list" where
  "cancel_admin_transfer_to_account_metas i =
    [ctm_admin (i_accounts i), ctm_config (i_accounts i), ctm_admin_transfer (i_accounts i),
    ctm_event_authority (i_accounts i), ctm_program (i_accounts i)] @ i_remaining i"

definition cancel_admin_transfer_instruction :: "borsh \<Rightarrow> cancel_admin_transfer_builder \<Rightarrow> wire_instruction" where
  "cancel_admin_transfer_instruction B i =
    \<lparr>ix_program = PROGRAM_ID, ix_accounts = cancel_admin_transfer_to_account_metas i,
     ix_data = cancel_admin_transfer_discriminator\<rparr>"

lemma cancel_admin_transfer_metas_built [built_metas]:
  "cancel_admin_transfer_to_account_metas
      (with_remaining (cancel_admin_transfer_with_accounts (cancel_admin_transfer_data d) a) r) =
    [meta_new (ctk_admin a) True, meta_new_readonly (ctk_config a) False,
    meta_new (ctk_admin_transfer a) False, meta_new_readonly (ctk_event_authority a) False,
    meta_new_readonly (ctk_program a) False] @ r"
  by (simp add: cancel_admin_transfer_to_account_metas_def cancel_admin_transfer_with_accounts_def
      cancel_admin_transfer_data_def with_remaining_def)

lemma cancel_admin_transfer_data_built [built_data]:
  "i_data (with_remaining (cancel_admin_transfer_with_accounts (cancel_admin_transfer_data d) a) r) = d"
  by (simp add: cancel_admin_transfer_with_accounts_def cancel_admin_transfer_data_def with_remaining_def)

end
