(* ===== verification/Client_Wager.thy ===== *)
theory Client_Wager
  imports Client
begin

text \<open>
  The builders of the ten instructions on wagers
  (\<^verbatim>\<open>types.rs\<close> of the fuzz client). For an instruction \<open>x\<close>: \<open>x_keys\<close> is
  \<^verbatim>\<open>XInstructionAccounts\<close>, \<open>x_metas\<close> is \<^verbatim>\<open>XInstructionAccountMetas\<close>, \<open>x_builder\<close> is
  \<^verbatim>\<open>XInstruction\<close>, and \<open>x_data\<close>, \<open>x_with_accounts\<close>, \<open>x_to_account_metas\<close>,
  \<open>x_discriminator\<close> and \<open>x_instruction\<close> are its methods.
  An instruction without arguments serializes an empty struct, which has no bytes.
\<close>

section \<open>\<open>Create_Wager\<close>\<close>

record create_wager_keys =
  cwk_payer :: pubkey
  cwk_config :: pubkey
  cwk_wager :: pubkey
  cwk_mint :: pubkey
  cwk_vault :: pubkey
  cwk_event_authority :: pubkey
  cwk_program :: pubkey

record create_wager_metas =
  cwm_payer :: account_meta
  cwm_config :: account_meta
  cwm_wager :: account_meta
  cwm_mint :: account_meta
  cwm_vault :: account_meta
  cwm_token_program :: account_meta
  cwm_associated_token_program :: account_meta
  cwm_system_program :: account_meta
  cwm_event_authority :: account_meta
  cwm_program :: account_meta

type_synonym create_wager_builder = "(create_wager_metas, create_wager_args) builder"

definition create_wager_discriminator :: bytes where
  "create_wager_discriminator = [210, 82, 178, 75, 253, 34, 84, 120]"

definition create_wager_data :: "create_wager_args \<Rightarrow> create_wager_builder" where
  "create_wager_data d =
    \<lparr>i_accounts =
      \<lparr>cwm_payer = meta_default, cwm_config = meta_default, cwm_wager = meta_default,
      cwm_mint = meta_default, cwm_vault = meta_default, cwm_token_program = meta_default,
      cwm_associated_token_program = meta_default, cwm_system_program = meta_default,
      cwm_event_authority = meta_default, cwm_program = meta_default\<rparr>,
     i_data = d, i_remaining = []\<rparr>"

definition create_wager_with_accounts ::
  "create_wager_builder \<Rightarrow> create_wager_keys \<Rightarrow> create_wager_builder"
where
  "create_wager_with_accounts i a = i\<lparr>i_accounts := (i_accounts i)\<lparr>
      cwm_payer := meta_new (cwk_payer a) True,
      cwm_config := meta_new_readonly (cwk_config a) False,
      cwm_wager := meta_new (cwk_wager a) False,
      cwm_mint := meta_new_readonly (cwk_mint a) False,
      cwm_vault := meta_new (cwk_vault a) False,
      cwm_token_program := meta_new_readonly TOKEN_PROGRAM_ID False,
      cwm_associated_token_program := meta_new_readonly ASSOCIATED_TOKEN_PROGRAM_ID False,
      cwm_system_program := meta_new_readonly SYSTEM_PROGRAM_ID False,
      cwm_event_authority := meta_new_readonly (cwk_event_authority a) False,
      cwm_program := meta_new_readonly (cwk_program a) False\<rparr>\<rparr>"

definition create_wager_to_account_metas :: "create_wager_builder \<Rightarrow> account_meta list" where
  "create_wager_to_account_metas i =
    [cwm_payer (i_accounts i), cwm_config (i_accounts i), cwm_wager (i_accounts i),
    cwm_mint (i_accounts i), cwm_vault (i_accounts i), cwm_token_program (i_accounts i),
    cwm_associated_token_program (i_accounts i), cwm_system_program (i_accounts i),
    cwm_event_authority (i_accounts i), cwm_program (i_accounts i)] @ i_remaining i"

definition create_wager_instruction :: "borsh \<Rightarrow> create_wager_builder \<Rightarrow> wire_instruction" where
  "create_wager_instruction B i =
    \<lparr>ix_program = PROGRAM_ID, ix_accounts = create_wager_to_account_metas i,
     ix_data = create_wager_discriminator @ put_create_wager_args B (i_data i)\<rparr>"

lemma create_wager_metas_built [built_metas]:
  "create_wager_to_account_metas
      (with_remaining (create_wager_with_accounts (create_wager_data d) a) r) =
    [meta_new (cwk_payer a) True, meta_new_readonly (cwk_config a) False,
    meta_new (cwk_wager a) False, meta_new_readonly (cwk_mint a) False,
    meta_new (cwk_vault a) False, meta_new_readonly TOKEN_PROGRAM_ID False,
    meta_new_readonly ASSOCIATED_TOKEN_PROGRAM_ID False,
    meta_new_readonly SYSTEM_PROGRAM_ID False, meta_new_readonly (cwk_event_authority a) False,
    meta_new_readonly (cwk_program a) False] @ r"
  by (simp add: create_wager_to_account_metas_def create_wager_with_accounts_def
      create_wager_data_def with_remaining_def)

lemma create_wager_data_built [built_data]:
  "i_data (with_remaining (create_wager_with_accounts (create_wager_data d) a) r) = d"
  by (simp add: create_wager_with_accounts_def create_wager_data_def with_remaining_def)

section \<open>\<open>Stake_Side\<close>\<close>

record stake_side_keys =
  ssk_staker :: pubkey
  ssk_payer :: pubkey
  ssk_config :: pubkey
  ssk_wager :: pubkey
  ssk_counter :: pubkey
  ssk_staker_token :: pubkey
  ssk_vault :: pubkey
  ssk_event_authority :: pubkey
  ssk_program :: pubkey

record stake_side_metas =
  ssm_staker :: account_meta
  ssm_payer :: account_meta
  ssm_config :: account_meta
  ssm_wager :: account_meta
  ssm_counter :: account_meta
  ssm_staker_token :: account_meta
  ssm_vault :: account_meta
  ssm_token_program :: account_meta
  ssm_system_program :: account_meta
  ssm_event_authority :: account_meta
  ssm_program :: account_meta

type_synonym stake_side_builder = "(stake_side_metas, unit) builder"

definition stake_side_discriminator :: bytes where
  "stake_side_discriminator = [87, 92, 180, 95, 96, 113, 66, 242]"

definition stake_side_data :: "unit \<Rightarrow> stake_side_builder" where
  "stake_side_data d =
    \<lparr>i_accounts =
      \<lparr>ssm_staker = meta_default, ssm_payer = meta_default, ssm_config = meta_default,
      ssm_wager = meta_default, ssm_counter = meta_default, ssm_staker_token = meta_default,
      ssm_vault = meta_default, ssm_token_program = meta_default,
      ssm_system_program = meta_default, ssm_event_authority = meta_default,
      ssm_program = meta_default\<rparr>,
     i_data = d, i_remaining = []\<rparr>"

definition stake_side_with_accounts ::
  "stake_side_builder \<Rightarrow> stake_side_keys \<Rightarrow> stake_side_builder"
where
  "stake_side_with_accounts i a = i\<lparr>i_accounts := (i_accounts i)\<lparr>
      ssm_staker := meta_new_readonly (ssk_staker a) True,
      ssm_payer := meta_new (ssk_payer a) True, ssm_config := meta_new (ssk_config a) False,
      ssm_wager := meta_new (ssk_wager a) False, ssm_counter := meta_new (ssk_counter a) False,
      ssm_staker_token := meta_new (ssk_staker_token a) False,
      ssm_vault := meta_new (ssk_vault a) False,
      ssm_token_program := meta_new_readonly TOKEN_PROGRAM_ID False,
      ssm_system_program := meta_new_readonly SYSTEM_PROGRAM_ID False,
      ssm_event_authority := meta_new_readonly (ssk_event_authority a) False,
      ssm_program := meta_new_readonly (ssk_program a) False\<rparr>\<rparr>"

definition stake_side_to_account_metas :: "stake_side_builder \<Rightarrow> account_meta list" where
  "stake_side_to_account_metas i =
    [ssm_staker (i_accounts i), ssm_payer (i_accounts i), ssm_config (i_accounts i),
    ssm_wager (i_accounts i), ssm_counter (i_accounts i), ssm_staker_token (i_accounts i),
    ssm_vault (i_accounts i), ssm_token_program (i_accounts i),
    ssm_system_program (i_accounts i), ssm_event_authority (i_accounts i),
    ssm_program (i_accounts i)] @ i_remaining i"

definition stake_side_instruction :: "borsh \<Rightarrow> stake_side_builder \<Rightarrow> wire_instruction" where
  "stake_side_instruction B i =
    \<lparr>ix_program = PROGRAM_ID, ix_accounts = stake_side_to_account_metas i,
     ix_data = stake_side_discriminator\<rparr>"

lemma stake_side_metas_built [built_metas]:
  "stake_side_to_account_metas
      (with_remaining (stake_side_with_accounts (stake_side_data d) a) r) =
    [meta_new_readonly (ssk_staker a) True, meta_new (ssk_payer a) True,
    meta_new (ssk_config a) False, meta_new (ssk_wager a) False, meta_new (ssk_counter a) False,
    meta_new (ssk_staker_token a) False, meta_new (ssk_vault a) False,
    meta_new_readonly TOKEN_PROGRAM_ID False, meta_new_readonly SYSTEM_PROGRAM_ID False,
    meta_new_readonly (ssk_event_authority a) False,
    meta_new_readonly (ssk_program a) False] @ r"
  by (simp add: stake_side_to_account_metas_def stake_side_with_accounts_def
      stake_side_data_def with_remaining_def)

lemma stake_side_data_built [built_data]:
  "i_data (with_remaining (stake_side_with_accounts (stake_side_data d) a) r) = d"
  by (simp add: stake_side_with_accounts_def stake_side_data_def with_remaining_def)

section \<open>\<open>Unstake_Side\<close>\<close>

record unstake_side_keys =
  usk_staker :: pubkey
  usk_config :: pubkey
  usk_wager :: pubkey
  usk_counter :: pubkey
  usk_staker_token :: pubkey
  usk_vault :: pubkey
  usk_event_authority :: pubkey
  usk_program :: pubkey

record unstake_side_metas =
  usm_staker :: account_meta
  usm_config :: account_meta
  usm_wager :: account_meta
  usm_counter :: account_meta
  usm_staker_token :: account_meta
  usm_vault :: account_meta
  usm_token_program :: account_meta
  usm_event_authority :: account_meta
  usm_program :: account_meta

type_synonym unstake_side_builder = "(unstake_side_metas, unit) builder"

definition unstake_side_discriminator :: bytes where
  "unstake_side_discriminator = [118, 120, 14, 146, 82, 45, 4, 227]"

definition unstake_side_data :: "unit \<Rightarrow> unstake_side_builder" where
  "unstake_side_data d =
    \<lparr>i_accounts =
      \<lparr>usm_staker = meta_default, usm_config = meta_default, usm_wager = meta_default,
      usm_counter = meta_default, usm_staker_token = meta_default, usm_vault = meta_default,
      usm_token_program = meta_default, usm_event_authority = meta_default,
      usm_program = meta_default\<rparr>,
     i_data = d, i_remaining = []\<rparr>"

definition unstake_side_with_accounts ::
  "unstake_side_builder \<Rightarrow> unstake_side_keys \<Rightarrow> unstake_side_builder"
where
  "unstake_side_with_accounts i a = i\<lparr>i_accounts := (i_accounts i)\<lparr>
      usm_staker := meta_new_readonly (usk_staker a) True,
      usm_config := meta_new (usk_config a) False, usm_wager := meta_new (usk_wager a) False,
      usm_counter := meta_new (usk_counter a) False,
      usm_staker_token := meta_new (usk_staker_token a) False,
      usm_vault := meta_new (usk_vault a) False,
      usm_token_program := meta_new_readonly TOKEN_PROGRAM_ID False,
      usm_event_authority := meta_new_readonly (usk_event_authority a) False,
      usm_program := meta_new_readonly (usk_program a) False\<rparr>\<rparr>"

definition unstake_side_to_account_metas :: "unstake_side_builder \<Rightarrow> account_meta list" where
  "unstake_side_to_account_metas i =
    [usm_staker (i_accounts i), usm_config (i_accounts i), usm_wager (i_accounts i),
    usm_counter (i_accounts i), usm_staker_token (i_accounts i), usm_vault (i_accounts i),
    usm_token_program (i_accounts i), usm_event_authority (i_accounts i),
    usm_program (i_accounts i)] @ i_remaining i"

definition unstake_side_instruction :: "borsh \<Rightarrow> unstake_side_builder \<Rightarrow> wire_instruction" where
  "unstake_side_instruction B i =
    \<lparr>ix_program = PROGRAM_ID, ix_accounts = unstake_side_to_account_metas i,
     ix_data = unstake_side_discriminator\<rparr>"

lemma unstake_side_metas_built [built_metas]:
  "unstake_side_to_account_metas
      (with_remaining (unstake_side_with_accounts (unstake_side_data d) a) r) =
    [meta_new_readonly (usk_staker a) True, meta_new (usk_config a) False,
    meta_new (usk_wager a) False, meta_new (usk_counter a) False,
    meta_new (usk_staker_token a) False, meta_new (usk_vault a) False,
    meta_new_readonly TOKEN_PROGRAM_ID False, meta_new_readonly (usk_event_authority a) False,
    meta_new_readonly (usk_program a) False] @ r"
  by (simp add: unstake_side_to_account_metas_def unstake_side_with_accounts_def
      unstake_side_data_def with_remaining_def)

lemma unstake_side_data_built [built_data]:
  "i_data (with_remaining (unstake_side_with_accounts (unstake_side_data d) a) r) = d"
  by (simp add: unstake_side_with_accounts_def unstake_side_data_def with_remaining_def)

section \<open>\<open>Resolve\<close>\<close>

record resolve_keys =
  rsk_resolver :: pubkey
  rsk_config :: pubkey
  rsk_wager :: pubkey
  rsk_winner :: pubkey
  rsk_winner_token :: pubkey
  rsk_fee_token :: pubkey
  rsk_vault :: pubkey
  rsk_counter_a :: pubkey
  rsk_counter_b :: pubkey
  rsk_rent_collector :: pubkey
  rsk_event_authority :: pubkey
  rsk_program :: pubkey

record resolve_metas =
  rsm_resolver :: account_meta
  rsm_config :: account_meta
  rsm_wager :: account_meta
  rsm_winner :: account_meta
  rsm_winner_token :: account_meta
  rsm_fee_token :: account_meta
  rsm_vault :: account_meta
  rsm_counter_a :: account_meta
  rsm_counter_b :: account_meta
  rsm_rent_collector :: account_meta
  rsm_token_program :: account_meta
  rsm_event_authority :: account_meta
  rsm_program :: account_meta

type_synonym resolve_builder = "(resolve_metas, pubkey) builder"

definition resolve_discriminator :: bytes where
  "resolve_discriminator = [246, 150, 236, 206, 108, 63, 58, 10]"

definition resolve_data :: "pubkey \<Rightarrow> resolve_builder" where
  "resolve_data d =
    \<lparr>i_accounts =
      \<lparr>rsm_resolver = meta_default, rsm_config = meta_default, rsm_wager = meta_default,
      rsm_winner = meta_default, rsm_winner_token = meta_default, rsm_fee_token = meta_default,
      rsm_vault = meta_default, rsm_counter_a = meta_default, rsm_counter_b = meta_default,
      rsm_rent_collector = meta_default, rsm_token_program = meta_default,
      rsm_event_authority = meta_default, rsm_program = meta_default\<rparr>,
     i_data = d, i_remaining = []\<rparr>"

definition resolve_with_accounts ::
  "resolve_builder \<Rightarrow> resolve_keys \<Rightarrow> resolve_builder"
where
  "resolve_with_accounts i a = i\<lparr>i_accounts := (i_accounts i)\<lparr>
      rsm_resolver := meta_new_readonly (rsk_resolver a) True,
      rsm_config := meta_new (rsk_config a) False, rsm_wager := meta_new (rsk_wager a) False,
      rsm_winner := meta_new_readonly (rsk_winner a) False,
      rsm_winner_token := meta_new (rsk_winner_token a) False,
      rsm_fee_token := meta_new (rsk_fee_token a) False,
      rsm_vault := meta_new (rsk_vault a) False,
      rsm_counter_a := meta_new (rsk_counter_a a) False,
      rsm_counter_b := meta_new (rsk_counter_b a) False,
      rsm_rent_collector := meta_new (rsk_rent_collector a) False,
      rsm_token_program := meta_new_readonly TOKEN_PROGRAM_ID False,
      rsm_event_authority := meta_new_readonly (rsk_event_authority a) False,
      rsm_program := meta_new_readonly (rsk_program a) False\<rparr>\<rparr>"

definition resolve_to_account_metas :: "resolve_builder \<Rightarrow> account_meta list" where
  "resolve_to_account_metas i =
    [rsm_resolver (i_accounts i), rsm_config (i_accounts i), rsm_wager (i_accounts i),
    rsm_winner (i_accounts i), rsm_winner_token (i_accounts i), rsm_fee_token (i_accounts i),
    rsm_vault (i_accounts i), rsm_counter_a (i_accounts i), rsm_counter_b (i_accounts i),
    rsm_rent_collector (i_accounts i), rsm_token_program (i_accounts i),
    rsm_event_authority (i_accounts i), rsm_program (i_accounts i)] @ i_remaining i"

definition resolve_instruction :: "borsh \<Rightarrow> resolve_builder \<Rightarrow> wire_instruction" where
  "resolve_instruction B i =
    \<lparr>ix_program = PROGRAM_ID, ix_accounts = resolve_to_account_metas i,
     ix_data = resolve_discriminator @ put (b_key B) (i_data i)\<rparr>"

lemma resolve_metas_built [built_metas]:
  "resolve_to_account_metas
      (with_remaining (resolve_with_accounts (resolve_data d) a) r) =
    [meta_new_readonly (rsk_resolver a) True, meta_new (rsk_config a) False,
    meta_new (rsk_wager a) False, meta_new_readonly (rsk_winner a) False,
    meta_new (rsk_winner_token a) False, meta_new (rsk_fee_token a) False,
    meta_new (rsk_vault a) False, meta_new (rsk_counter_a a) False,
    meta_new (rsk_counter_b a) False, meta_new (rsk_rent_collector a) False,
    meta_new_readonly TOKEN_PROGRAM_ID False, meta_new_readonly (rsk_event_authority a) False,
    meta_new_readonly (rsk_program a) False] @ r"
  by (simp add: resolve_to_account_metas_def resolve_with_accounts_def
      resolve_data_def with_remaining_def)

lemma resolve_data_built [built_data]:
  "i_data (with_remaining (resolve_with_accounts (resolve_data d) a) r) = d"
  by (simp add: resolve_with_accounts_def resolve_data_def with_remaining_def)

section \<open>\<open>Concede\<close>\<close>

record concede_keys =
  cck_conceder :: pubkey
  cck_config :: pubkey
  cck_wager :: pubkey
  cck_winner :: pubkey
  cck_winner_token :: pubkey
  cck_fee_token :: pubkey
  cck_vault :: pubkey
  cck_counter_a :: pubkey
  cck_counter_b :: pubkey
  cck_rent_collector :: pubkey
  cck_event_authority :: pubkey
  cck_program :: pubkey

record concede_metas =
  ccm_conceder :: account_meta
  ccm_config :: account_meta
  ccm_wager :: account_meta
  ccm_winner :: account_meta
  ccm_winner_token :: account_meta
  ccm_fee_token :: account_meta
  ccm_vault :: account_meta
  ccm_counter_a :: account_meta
  ccm_counter_b :: account_meta
  ccm_rent_collector :: account_meta
  ccm_token_program :: account_meta
  ccm_event_authority :: account_meta
  ccm_program :: account_meta

type_synonym concede_builder = "(concede_metas, unit) builder"

definition concede_discriminator :: bytes where
  "concede_discriminator = [19, 182, 3, 3, 43, 35, 60, 202]"

definition concede_data :: "unit \<Rightarrow> concede_builder" where
  "concede_data d =
    \<lparr>i_accounts =
      \<lparr>ccm_conceder = meta_default, ccm_config = meta_default, ccm_wager = meta_default,
      ccm_winner = meta_default, ccm_winner_token = meta_default, ccm_fee_token = meta_default,
      ccm_vault = meta_default, ccm_counter_a = meta_default, ccm_counter_b = meta_default,
      ccm_rent_collector = meta_default, ccm_token_program = meta_default,
      ccm_event_authority = meta_default, ccm_program = meta_default\<rparr>,
     i_data = d, i_remaining = []\<rparr>"

definition concede_with_accounts ::
  "concede_builder \<Rightarrow> concede_keys \<Rightarrow> concede_builder"
where
  "concede_with_accounts i a = i\<lparr>i_accounts := (i_accounts i)\<lparr>
      ccm_conceder := meta_new_readonly (cck_conceder a) True,
      ccm_config := meta_new (cck_config a) False, ccm_wager := meta_new (cck_wager a) False,
      ccm_winner := meta_new_readonly (cck_winner a) False,
      ccm_winner_token := meta_new (cck_winner_token a) False,
      ccm_fee_token := meta_new (cck_fee_token a) False,
      ccm_vault := meta_new (cck_vault a) False,
      ccm_counter_a := meta_new (cck_counter_a a) False,
      ccm_counter_b := meta_new (cck_counter_b a) False,
      ccm_rent_collector := meta_new (cck_rent_collector a) False,
      ccm_token_program := meta_new_readonly TOKEN_PROGRAM_ID False,
      ccm_event_authority := meta_new_readonly (cck_event_authority a) False,
      ccm_program := meta_new_readonly (cck_program a) False\<rparr>\<rparr>"

definition concede_to_account_metas :: "concede_builder \<Rightarrow> account_meta list" where
  "concede_to_account_metas i =
    [ccm_conceder (i_accounts i), ccm_config (i_accounts i), ccm_wager (i_accounts i),
    ccm_winner (i_accounts i), ccm_winner_token (i_accounts i), ccm_fee_token (i_accounts i),
    ccm_vault (i_accounts i), ccm_counter_a (i_accounts i), ccm_counter_b (i_accounts i),
    ccm_rent_collector (i_accounts i), ccm_token_program (i_accounts i),
    ccm_event_authority (i_accounts i), ccm_program (i_accounts i)] @ i_remaining i"

definition concede_instruction :: "borsh \<Rightarrow> concede_builder \<Rightarrow> wire_instruction" where
  "concede_instruction B i =
    \<lparr>ix_program = PROGRAM_ID, ix_accounts = concede_to_account_metas i,
     ix_data = concede_discriminator\<rparr>"

lemma concede_metas_built [built_metas]:
  "concede_to_account_metas
      (with_remaining (concede_with_accounts (concede_data d) a) r) =
    [meta_new_readonly (cck_conceder a) True, meta_new (cck_config a) False,
    meta_new (cck_wager a) False, meta_new_readonly (cck_winner a) False,
    meta_new (cck_winner_token a) False, meta_new (cck_fee_token a) False,
    meta_new (cck_vault a) False, meta_new (cck_counter_a a) False,
    meta_new (cck_counter_b a) False, meta_new (cck_rent_collector a) False,
    meta_new_readonly TOKEN_PROGRAM_ID False, meta_new_readonly (cck_event_authority a) False,
    meta_new_readonly (cck_program a) False] @ r"
  by (simp add: concede_to_account_metas_def concede_with_accounts_def
      concede_data_def with_remaining_def)

lemma concede_data_built [built_data]:
  "i_data (with_remaining (concede_with_accounts (concede_data d) a) r) = d"
  by (simp add: concede_with_accounts_def concede_data_def with_remaining_def)

section \<open>\<open>Refund_Side\<close>\<close>

record refund_side_keys =
  rfk_cranker :: pubkey
  rfk_config :: pubkey
  rfk_wager :: pubkey
  rfk_side :: pubkey
  rfk_side_token :: pubkey
  rfk_counter :: pubkey
  rfk_vault :: pubkey
  rfk_event_authority :: pubkey
  rfk_program :: pubkey

record refund_side_metas =
  rfm_cranker :: account_meta
  rfm_config :: account_meta
  rfm_wager :: account_meta
  rfm_side :: account_meta
  rfm_side_token :: account_meta
  rfm_counter :: account_meta
  rfm_vault :: account_meta
  rfm_token_program :: account_meta
  rfm_event_authority :: account_meta
  rfm_program :: account_meta

type_synonym refund_side_builder = "(refund_side_metas, unit) builder"

definition refund_side_discriminator :: bytes where
  "refund_side_discriminator = [82, 211, 109, 116, 111, 44, 242, 156]"

definition refund_side_data :: "unit \<Rightarrow> refund_side_builder" where
  "refund_side_data d =
    \<lparr>i_accounts =
      \<lparr>rfm_cranker = meta_default, rfm_config = meta_default, rfm_wager = meta_default,
      rfm_side = meta_default, rfm_side_token = meta_default, rfm_counter = meta_default,
      rfm_vault = meta_default, rfm_token_program = meta_default,
      rfm_event_authority = meta_default, rfm_program = meta_default\<rparr>,
     i_data = d, i_remaining = []\<rparr>"

definition refund_side_with_accounts ::
  "refund_side_builder \<Rightarrow> refund_side_keys \<Rightarrow> refund_side_builder"
where
  "refund_side_with_accounts i a = i\<lparr>i_accounts := (i_accounts i)\<lparr>
      rfm_cranker := meta_new_readonly (rfk_cranker a) True,
      rfm_config := meta_new (rfk_config a) False, rfm_wager := meta_new (rfk_wager a) False,
      rfm_side := meta_new_readonly (rfk_side a) False,
      rfm_side_token := meta_new (rfk_side_token a) False,
      rfm_counter := meta_new (rfk_counter a) False, rfm_vault := meta_new (rfk_vault a) False,
      rfm_token_program := meta_new_readonly TOKEN_PROGRAM_ID False,
      rfm_event_authority := meta_new_readonly (rfk_event_authority a) False,
      rfm_program := meta_new_readonly (rfk_program a) False\<rparr>\<rparr>"

definition refund_side_to_account_metas :: "refund_side_builder \<Rightarrow> account_meta list" where
  "refund_side_to_account_metas i =
    [rfm_cranker (i_accounts i), rfm_config (i_accounts i), rfm_wager (i_accounts i),
    rfm_side (i_accounts i), rfm_side_token (i_accounts i), rfm_counter (i_accounts i),
    rfm_vault (i_accounts i), rfm_token_program (i_accounts i),
    rfm_event_authority (i_accounts i), rfm_program (i_accounts i)] @ i_remaining i"

definition refund_side_instruction :: "borsh \<Rightarrow> refund_side_builder \<Rightarrow> wire_instruction" where
  "refund_side_instruction B i =
    \<lparr>ix_program = PROGRAM_ID, ix_accounts = refund_side_to_account_metas i,
     ix_data = refund_side_discriminator\<rparr>"

lemma refund_side_metas_built [built_metas]:
  "refund_side_to_account_metas
      (with_remaining (refund_side_with_accounts (refund_side_data d) a) r) =
    [meta_new_readonly (rfk_cranker a) True, meta_new (rfk_config a) False,
    meta_new (rfk_wager a) False, meta_new_readonly (rfk_side a) False,
    meta_new (rfk_side_token a) False, meta_new (rfk_counter a) False,
    meta_new (rfk_vault a) False, meta_new_readonly TOKEN_PROGRAM_ID False,
    meta_new_readonly (rfk_event_authority a) False,
    meta_new_readonly (rfk_program a) False] @ r"
  by (simp add: refund_side_to_account_metas_def refund_side_with_accounts_def
      refund_side_data_def with_remaining_def)

lemma refund_side_data_built [built_data]:
  "i_data (with_remaining (refund_side_with_accounts (refund_side_data d) a) r) = d"
  by (simp add: refund_side_with_accounts_def refund_side_data_def with_remaining_def)

section \<open>\<open>Cancel_Propose\<close>\<close>

record cancel_propose_keys =
  cpk_participant :: pubkey
  cpk_wager :: pubkey
  cpk_event_authority :: pubkey
  cpk_program :: pubkey

record cancel_propose_metas =
  cpm_participant :: account_meta
  cpm_wager :: account_meta
  cpm_event_authority :: account_meta
  cpm_program :: account_meta

type_synonym cancel_propose_builder = "(cancel_propose_metas, unit) builder"

definition cancel_propose_discriminator :: bytes where
  "cancel_propose_discriminator = [26, 234, 145, 66, 243, 176, 98, 167]"

definition cancel_propose_data :: "unit \<Rightarrow> cancel_propose_builder" where
  "cancel_propose_data d =
    \<lparr>i_accounts =
      \<lparr>cpm_participant = meta_default, cpm_wager = meta_default,
      cpm_event_authority = meta_default, cpm_program = meta_default\<rparr>,
     i_data = d, i_remaining = []\<rparr>"

definition cancel_propose_with_accounts ::
  "cancel_propose_builder \<Rightarrow> cancel_propose_keys \<Rightarrow> cancel_propose_builder"
where
  "cancel_propose_with_accounts i a = i\<lparr>i_accounts := (i_accounts i)\<lparr>
      cpm_participant := meta_new_readonly (cpk_participant a) True,
      cpm_wager := meta_new (cpk_wager a) False,
      cpm_event_authority := meta_new_readonly (cpk_event_authority a) False,
      cpm_program := meta_new_readonly (cpk_program a) False\<rparr>\<rparr>"

definition cancel_propose_to_account_metas :: "cancel_propose_builder \<Rightarrow> account_meta list" where
  "cancel_propose_to_account_metas i =
    [cpm_participant (i_accounts i), cpm_wager (i_accounts i),
    cpm_event_authority (i_accounts i), cpm_program (i_accounts i)] @ i_remaining i"

definition cancel_propose_instruction :: "borsh \<Rightarrow> cancel_propose_builder \<Rightarrow> wire_instruction" where
  "cancel_propose_instruction B i =
    \<lparr>ix_program = PROGRAM_ID, ix_accounts = cancel_propose_to_account_metas i,
     ix_data = cancel_propose_discriminator\<rparr>"

lemma cancel_propose_metas_built [built_metas]:
  "cancel_propose_to_account_metas
      (with_remaining (cancel_propose_with_accounts (cancel_propose_data d) a) r) =
    [meta_new_readonly (cpk_participant a) True, meta_new (cpk_wager a) False,
    meta_new_readonly (cpk_event_authority a) False,
    meta_new_readonly (cpk_program a) False] @ r"
  by (simp add: cancel_propose_to_account_metas_def cancel_propose_with_accounts_def
      cancel_propose_data_def with_remaining_def)

lemma cancel_propose_data_built [built_data]:
  "i_data (with_remaining (cancel_propose_with_accounts (cancel_propose_data d) a) r) = d"
  by (simp add: cancel_propose_with_accounts_def cancel_propose_data_def with_remaining_def)

section \<open>\<open>Cancel_Clear\<close>\<close>

record cancel_clear_keys =
  clk_participant :: pubkey
  clk_wager :: pubkey
  clk_event_authority :: pubkey
  clk_program :: pubkey

record cancel_clear_metas =
  clm_participant :: account_meta
  clm_wager :: account_meta
  clm_event_authority :: account_meta
  clm_program :: account_meta

type_synonym cancel_clear_builder = "(cancel_clear_metas, unit) builder"

definition cancel_clear_discriminator :: bytes where
  "cancel_clear_discriminator = [145, 6, 252, 203, 185, 13, 229, 32]"

definition cancel_clear_data :: "unit \<Rightarrow> cancel_clear_builder" where
  "cancel_clear_data d =
    \<lparr>i_accounts =
      \<lparr>clm_participant = meta_default, clm_wager = meta_default,
      clm_event_authority = meta_default, clm_program = meta_default\<rparr>,
     i_data = d, i_remaining = []\<rparr>"

definition cancel_clear_with_accounts ::
  "cancel_clear_builder \<Rightarrow> cancel_clear_keys \<Rightarrow> cancel_clear_builder"
where
  "cancel_clear_with_accounts i a = i\<lparr>i_accounts := (i_accounts i)\<lparr>
      clm_participant := meta_new_readonly (clk_participant a) True,
      clm_wager := meta_new (clk_wager a) False,
      clm_event_authority := meta_new_readonly (clk_event_authority a) False,
      clm_program := meta_new_readonly (clk_program a) False\<rparr>\<rparr>"

definition cancel_clear_to_account_metas :: "cancel_clear_builder \<Rightarrow> account_meta list" where
  "cancel_clear_to_account_metas i =
    [clm_participant (i_accounts i), clm_wager (i_accounts i),
    clm_event_authority (i_accounts i), clm_program (i_accounts i)] @ i_remaining i"

definition cancel_clear_instruction :: "borsh \<Rightarrow> cancel_clear_builder \<Rightarrow> wire_instruction" where
  "cancel_clear_instruction B i =
    \<lparr>ix_program = PROGRAM_ID, ix_accounts = cancel_clear_to_account_metas i,
     ix_data = cancel_clear_discriminator\<rparr>"

lemma cancel_clear_metas_built [built_metas]:
  "cancel_clear_to_account_metas
      (with_remaining (cancel_clear_with_accounts (cancel_clear_data d) a) r) =
    [meta_new_readonly (clk_participant a) True, meta_new (clk_wager a) False,
    meta_new_readonly (clk_event_authority a) False,
    meta_new_readonly (clk_program a) False] @ r"
  by (simp add: cancel_clear_to_account_metas_def cancel_clear_with_accounts_def
      cancel_clear_data_def with_remaining_def)

lemma cancel_clear_data_built [built_data]:
  "i_data (with_remaining (cancel_clear_with_accounts (cancel_clear_data d) a) r) = d"
  by (simp add: cancel_clear_with_accounts_def cancel_clear_data_def with_remaining_def)

section \<open>\<open>Cancel_Accept\<close>\<close>

record cancel_accept_keys =
  ack_acceptor :: pubkey
  ack_config :: pubkey
  ack_wager :: pubkey
  ack_side_a :: pubkey
  ack_side_b :: pubkey
  ack_side_a_token :: pubkey
  ack_side_b_token :: pubkey
  ack_counter_a :: pubkey
  ack_counter_b :: pubkey
  ack_fee_token :: pubkey
  ack_vault :: pubkey
  ack_rent_collector :: pubkey
  ack_event_authority :: pubkey
  ack_program :: pubkey

record cancel_accept_metas =
  acm_acceptor :: account_meta
  acm_config :: account_meta
  acm_wager :: account_meta
  acm_side_a :: account_meta
  acm_side_b :: account_meta
  acm_side_a_token :: account_meta
  acm_side_b_token :: account_meta
  acm_counter_a :: account_meta
  acm_counter_b :: account_meta
  acm_fee_token :: account_meta
  acm_vault :: account_meta
  acm_rent_collector :: account_meta
  acm_token_program :: account_meta
  acm_event_authority :: account_meta
  acm_program :: account_meta

type_synonym cancel_accept_builder = "(cancel_accept_metas, unit) builder"

definition cancel_accept_discriminator :: bytes where
  "cancel_accept_discriminator = [238, 198, 11, 182, 13, 108, 81, 95]"

definition cancel_accept_data :: "unit \<Rightarrow> cancel_accept_builder" where
  "cancel_accept_data d =
    \<lparr>i_accounts =
      \<lparr>acm_acceptor = meta_default, acm_config = meta_default, acm_wager = meta_default,
      acm_side_a = meta_default, acm_side_b = meta_default, acm_side_a_token = meta_default,
      acm_side_b_token = meta_default, acm_counter_a = meta_default,
      acm_counter_b = meta_default, acm_fee_token = meta_default, acm_vault = meta_default,
      acm_rent_collector = meta_default, acm_token_program = meta_default,
      acm_event_authority = meta_default, acm_program = meta_default\<rparr>,
     i_data = d, i_remaining = []\<rparr>"

definition cancel_accept_with_accounts ::
  "cancel_accept_builder \<Rightarrow> cancel_accept_keys \<Rightarrow> cancel_accept_builder"
where
  "cancel_accept_with_accounts i a = i\<lparr>i_accounts := (i_accounts i)\<lparr>
      acm_acceptor := meta_new_readonly (ack_acceptor a) True,
      acm_config := meta_new (ack_config a) False, acm_wager := meta_new (ack_wager a) False,
      acm_side_a := meta_new_readonly (ack_side_a a) False,
      acm_side_b := meta_new_readonly (ack_side_b a) False,
      acm_side_a_token := meta_new (ack_side_a_token a) False,
      acm_side_b_token := meta_new (ack_side_b_token a) False,
      acm_counter_a := meta_new (ack_counter_a a) False,
      acm_counter_b := meta_new (ack_counter_b a) False,
      acm_fee_token := meta_new (ack_fee_token a) False,
      acm_vault := meta_new (ack_vault a) False,
      acm_rent_collector := meta_new (ack_rent_collector a) False,
      acm_token_program := meta_new_readonly TOKEN_PROGRAM_ID False,
      acm_event_authority := meta_new_readonly (ack_event_authority a) False,
      acm_program := meta_new_readonly (ack_program a) False\<rparr>\<rparr>"

definition cancel_accept_to_account_metas :: "cancel_accept_builder \<Rightarrow> account_meta list" where
  "cancel_accept_to_account_metas i =
    [acm_acceptor (i_accounts i), acm_config (i_accounts i), acm_wager (i_accounts i),
    acm_side_a (i_accounts i), acm_side_b (i_accounts i), acm_side_a_token (i_accounts i),
    acm_side_b_token (i_accounts i), acm_counter_a (i_accounts i), acm_counter_b (i_accounts i),
    acm_fee_token (i_accounts i), acm_vault (i_accounts i), acm_rent_collector (i_accounts i),
    acm_token_program (i_accounts i), acm_event_authority (i_accounts i),
    acm_program (i_accounts i)] @ i_remaining i"

definition cancel_accept_instruction :: "borsh \<Rightarrow> cancel_accept_builder \<Rightarrow> wire_instruction" where
  "cancel_accept_instruction B i =
    \<lparr>ix_program = PROGRAM_ID, ix_accounts = cancel_accept_to_account_metas i,
     ix_data = cancel_accept_discriminator\<rparr>"

lemma cancel_accept_metas_built [built_metas]:
  "cancel_accept_to_account_metas
      (with_remaining (cancel_accept_with_accounts (cancel_accept_data d) a) r) =
    [meta_new_readonly (ack_acceptor a) True, meta_new (ack_config a) False,
    meta_new (ack_wager a) False, meta_new_readonly (ack_side_a a) False,
    meta_new_readonly (ack_side_b a) False, meta_new (ack_side_a_token a) False,
    meta_new (ack_side_b_token a) False, meta_new (ack_counter_a a) False,
    meta_new (ack_counter_b a) False, meta_new (ack_fee_token a) False,
    meta_new (ack_vault a) False, meta_new (ack_rent_collector a) False,
    meta_new_readonly TOKEN_PROGRAM_ID False, meta_new_readonly (ack_event_authority a) False,
    meta_new_readonly (ack_program a) False] @ r"
  by (simp add: cancel_accept_to_account_metas_def cancel_accept_with_accounts_def
      cancel_accept_data_def with_remaining_def)

lemma cancel_accept_data_built [built_data]:
  "i_data (with_remaining (cancel_accept_with_accounts (cancel_accept_data d) a) r) = d"
  by (simp add: cancel_accept_with_accounts_def cancel_accept_data_def with_remaining_def)

section \<open>\<open>Close_Expired\<close>\<close>

record close_expired_keys =
  cek_cranker :: pubkey
  cek_wager :: pubkey
  cek_vault :: pubkey
  cek_fee_token :: pubkey
  cek_rent_collector :: pubkey
  cek_event_authority :: pubkey
  cek_program :: pubkey

record close_expired_metas =
  cem_cranker :: account_meta
  cem_wager :: account_meta
  cem_vault :: account_meta
  cem_fee_token :: account_meta
  cem_rent_collector :: account_meta
  cem_token_program :: account_meta
  cem_event_authority :: account_meta
  cem_program :: account_meta

type_synonym close_expired_builder = "(close_expired_metas, unit) builder"

definition close_expired_discriminator :: bytes where
  "close_expired_discriminator = [138, 186, 164, 245, 32, 116, 162, 62]"

definition close_expired_data :: "unit \<Rightarrow> close_expired_builder" where
  "close_expired_data d =
    \<lparr>i_accounts =
      \<lparr>cem_cranker = meta_default, cem_wager = meta_default, cem_vault = meta_default,
      cem_fee_token = meta_default, cem_rent_collector = meta_default,
      cem_token_program = meta_default, cem_event_authority = meta_default,
      cem_program = meta_default\<rparr>,
     i_data = d, i_remaining = []\<rparr>"

definition close_expired_with_accounts ::
  "close_expired_builder \<Rightarrow> close_expired_keys \<Rightarrow> close_expired_builder"
where
  "close_expired_with_accounts i a = i\<lparr>i_accounts := (i_accounts i)\<lparr>
      cem_cranker := meta_new_readonly (cek_cranker a) True,
      cem_wager := meta_new (cek_wager a) False, cem_vault := meta_new (cek_vault a) False,
      cem_fee_token := meta_new (cek_fee_token a) False,
      cem_rent_collector := meta_new (cek_rent_collector a) False,
      cem_token_program := meta_new_readonly TOKEN_PROGRAM_ID False,
      cem_event_authority := meta_new_readonly (cek_event_authority a) False,
      cem_program := meta_new_readonly (cek_program a) False\<rparr>\<rparr>"

definition close_expired_to_account_metas :: "close_expired_builder \<Rightarrow> account_meta list" where
  "close_expired_to_account_metas i =
    [cem_cranker (i_accounts i), cem_wager (i_accounts i), cem_vault (i_accounts i),
    cem_fee_token (i_accounts i), cem_rent_collector (i_accounts i),
    cem_token_program (i_accounts i), cem_event_authority (i_accounts i),
    cem_program (i_accounts i)] @ i_remaining i"

definition close_expired_instruction :: "borsh \<Rightarrow> close_expired_builder \<Rightarrow> wire_instruction" where
  "close_expired_instruction B i =
    \<lparr>ix_program = PROGRAM_ID, ix_accounts = close_expired_to_account_metas i,
     ix_data = close_expired_discriminator\<rparr>"

lemma close_expired_metas_built [built_metas]:
  "close_expired_to_account_metas
      (with_remaining (close_expired_with_accounts (close_expired_data d) a) r) =
    [meta_new_readonly (cek_cranker a) True, meta_new (cek_wager a) False,
    meta_new (cek_vault a) False, meta_new (cek_fee_token a) False,
    meta_new (cek_rent_collector a) False, meta_new_readonly TOKEN_PROGRAM_ID False,
    meta_new_readonly (cek_event_authority a) False,
    meta_new_readonly (cek_program a) False] @ r"
  by (simp add: close_expired_to_account_metas_def close_expired_with_accounts_def
      close_expired_data_def with_remaining_def)

lemma close_expired_data_built [built_data]:
  "i_data (with_remaining (close_expired_with_accounts (close_expired_data d) a) r) = d"
  by (simp add: close_expired_with_accounts_def close_expired_data_def with_remaining_def)

end
