(* ===== verification/Reference_Wire.thy ===== *)
theory Reference_Wire
  imports Wire
begin

text \<open>
  The Borsh format itself, as its specification gives it: numbers little-endian, a key or a hash as
  its 32 bytes, a truth value and the presence of an option as one byte, a vector as its length in
  32 bits followed by the elements. It meets the locale \<open>wire_format\<close>, so the round trips of
  \<open>Wire\<close> rest on nothing that cannot hold, and the witnesses compute on it.
\<close>

section \<open>Numbers\<close>

definition le_put :: "nat \<Rightarrow> 'a::len word \<Rightarrow> bytes" where
  "le_put n x = map (\<lambda>i. ucast (drop_bit (8 * i) x)) [0..<n]"

definition le_get :: "nat \<Rightarrow> bytes \<Rightarrow> ('a::len word \<times> bytes) option" where
  "le_get n bs = (if length bs < n then None else Some (word_rcat (rev (take n bs)), drop n bs))"

definition le_codec :: "nat \<Rightarrow> 'a::len word codec" where
  "le_codec n = \<lparr>put = le_put n, get = le_get n\<rparr>"

lemma length_le_put [simp]: "length (le_put n x) = n"
  by (simp add: le_put_def)

lemma nth_le_put: "i < n \<Longrightarrow> le_put n x ! i = ucast (drop_bit (8 * i) x)"
  by (simp add: le_put_def)

lemma bit_word_rcat:
  "bit (word_rcat (rev bs) :: 'a::len word) i \<longleftrightarrow>
    i < LENGTH('a) \<and> i div 8 < length bs \<and> bit (bs ! (i div 8)) (i mod 8)" for bs :: bytes
  using bit_horner_sum_uint_exp_iff [of bs i]
  by (simp add: word_rcat_def bit_word_of_int_iff)

lemma rcat_le_put:
  fixes x :: "'a::len word"
  assumes "LENGTH('a) = 8 * n"
  shows "word_rcat (rev (le_put n x)) = x"
proof (rule bit_word_eqI)
  fix i assume i: "i < LENGTH('a)"
  with assms have "i div 8 < n" by simp
  with i show "bit (word_rcat (rev (le_put n x)) :: 'a word) i = bit x i"
    by (simp add: bit_word_rcat nth_le_put bit_ucast_iff bit_drop_bit_eq)
qed

lemma le_codec_reads_back:
  "LENGTH('a::len) = 8 * n \<Longrightarrow> reads_back P (le_codec n :: 'a word codec)"
  by (simp add: reads_back_def le_codec_def le_get_def rcat_le_put)

lemma le_codec_width: "has_width P n (le_codec n)"
  by (simp add: has_width_def le_codec_def)

section \<open>Keys\<close>

definition key_codec :: "256 word codec" where
  "key_codec = \<lparr>put = key_bytes, get = (\<lambda>bs. if length bs < 32 then None
     else Some (word_rcat (take 32 bs), drop 32 bs))\<rparr>"

lemma key_bytes_le: "key_bytes k = rev (le_put 32 k)"
  by (rule nth_equalityI) (simp_all add: key_bytes_def rev_nth nth_le_put)

lemma key_codec_reads_back: "reads_back P key_codec"
  by (simp add: reads_back_def key_codec_def key_bytes_le rcat_le_put)

lemma key_codec_width: "has_width P 32 key_codec"
  by (simp add: has_width_def key_codec_def)

section \<open>Truth values, options and sequences\<close>

definition flag_codec :: "bool codec" where
  "flag_codec = \<lparr>put = (\<lambda>b. [if b then 1 else 0]),
     get = (\<lambda>bs. case bs of [] \<Rightarrow> None
       | b # rest \<Rightarrow> if b = 0 then Some (False, rest) else if b = 1 then Some (True, rest) else None)\<rparr>"

definition option_codec :: "'a codec \<Rightarrow> 'a option codec" where
  "option_codec c =
    \<lparr>put = (\<lambda>x. case x of None \<Rightarrow> put flag_codec False | Some y \<Rightarrow> put flag_codec True @ put c y),
     get = and_then (get flag_codec) (\<lambda>b.
       if b then and_then (get c) (\<lambda>y. return_read (Some y)) else return_read None)\<rparr>"

primrec get_many :: "'a reader \<Rightarrow> nat \<Rightarrow> 'a list reader" where
  "get_many r 0 = return_read []"
| "get_many r (Suc n) = and_then r (\<lambda>x. and_then (get_many r n) (\<lambda>xs. return_read (x # xs)))"

definition array_codec :: "nat \<Rightarrow> 'a codec \<Rightarrow> 'a list codec" where
  "array_codec n c = \<lparr>put = (\<lambda>xs. concat (map (put c) xs)), get = get_many (get c) n\<rparr>"

definition vec_codec :: "'a codec \<Rightarrow> 'a list codec" where
  "vec_codec c =
    \<lparr>put = (\<lambda>xs. le_put 4 (of_nat (length xs) :: 32 word) @ concat (map (put c) xs)),
     get = and_then (le_get 4) (\<lambda>n. get_many (get c) (unat (n :: 32 word)))\<rparr>"

lemma flag_codec_reads_back: "reads_back P flag_codec"
  by (simp add: reads_back_def flag_codec_def)

lemma flag_codec_width: "has_width P (Suc 0) flag_codec"
  by (simp add: has_width_def flag_codec_def)

lemma option_codec_reads_back:
  assumes "reads_back P c"
  shows "reads_back (\<lambda>x. case x of None \<Rightarrow> True | Some y \<Rightarrow> P y) (option_codec c)"
  using assms by (auto simp: reads_back_def option_codec_def flag_codec_def and_then_def
      return_read_def split: option.splits)

lemma get_many_puts:
  assumes "reads_back (\<lambda>_. True) c"
  shows "get_many (get c) (length xs) (concat (map (put c) xs) @ rest) = Some (xs, rest)"
  using assms by (induction xs) (simp_all add: return_read_def and_then_def reads_back_def)

lemma array_codec_reads_back:
  "reads_back (\<lambda>_. True) c \<Longrightarrow> reads_back (\<lambda>xs. length xs = n) (array_codec n c)"
  using get_many_puts by (fastforce simp: reads_back_def array_codec_def)

lemma array_codec_width:
  assumes "has_width (\<lambda>_. True) w c"
  shows "has_width (\<lambda>xs. length xs = n) (w * n) (array_codec n c)"
proof -
  have "length (concat (map (put c) xs)) = w * length xs" for xs
    using assms by (induction xs) (simp_all add: has_width_def)
  then show ?thesis by (simp add: has_width_def array_codec_def)
qed

lemma vec_codec_reads_back:
  assumes c: "reads_back (\<lambda>_. True) c"
  shows "reads_back (\<lambda>xs. length xs < 2 ^ 32) (vec_codec c)"
  unfolding reads_back_def
proof (intro allI impI)
  fix xs :: "'a list" and rest assume "length xs < 2 ^ 32"
  then have "unat (of_nat (length xs) :: 32 word) = length xs"
    by (simp add: unat_of_nat_fits)
  with get_many_puts [OF c] show "get (vec_codec c) (put (vec_codec c) xs @ rest) = Some (xs, rest)"
    by (simp add: vec_codec_def and_then_def le_get_def rcat_le_put)
qed

section \<open>The format\<close>

definition ref_borsh :: borsh where
  "ref_borsh =
    \<lparr>b_u8 = le_codec 1, b_u16 = le_codec 2, b_u64 = le_codec 8, b_i64 = le_codec 8,
     b_bool = flag_codec, b_key = key_codec, b_hash = key_codec,
     b_allowlist = array_codec RESOLVER_ALLOWLIST_LEN key_codec, b_keys = vec_codec key_codec,
     b_opt_u8 = option_codec (le_codec 1), b_opt_u16 = option_codec (le_codec 2),
     b_opt_u64 = option_codec (le_codec 8), b_opt_i64 = option_codec (le_codec 8),
     b_opt_bool = option_codec flag_codec, b_opt_key = option_codec key_codec,
     b_opt_keys = option_codec (vec_codec key_codec)\<rparr>"

lemma reads_back_weaken: "reads_back P c \<Longrightarrow> (\<And>x. Q x \<Longrightarrow> P x) \<Longrightarrow> reads_back Q c"
  by (simp add: reads_back_def)

lemma option_reads_back: "reads_back (\<lambda>_. True) c \<Longrightarrow> reads_back P (option_codec c)"
  by (erule reads_back_weaken [OF option_codec_reads_back]) (simp split: option.split)

lemma vec_reads_back:
  "reads_back (\<lambda>_. True) c \<Longrightarrow> reads_back vec_fits (vec_codec c)"
  by (erule reads_back_weaken [OF vec_codec_reads_back]) (simp add: vec_fits_def)

lemma opt_vec_reads_back:
  "reads_back (\<lambda>_. True) c \<Longrightarrow> reads_back opt_vec_fits (option_codec (vec_codec c))"
  by (rule reads_back_weaken [OF option_codec_reads_back [OF vec_reads_back]])
    (simp_all add: opt_vec_fits_def)

lemmas ref_codecs = le_codec_reads_back key_codec_reads_back flag_codec_reads_back
  option_reads_back vec_reads_back opt_vec_reads_back
  le_codec_width key_codec_width flag_codec_width

interpretation ref_wire: wire_format ref_borsh
proof
  show "reads_back allowlist_fits (b_allowlist ref_borsh)"
    using array_codec_reads_back [OF key_codec_reads_back, of RESOLVER_ALLOWLIST_LEN]
    by (simp add: ref_borsh_def reads_back_def allowlist_fits_def)
  show "has_width allowlist_fits (32 * RESOLVER_ALLOWLIST_LEN) (b_allowlist ref_borsh)"
    using array_codec_width [OF key_codec_width, of RESOLVER_ALLOWLIST_LEN]
    by (simp add: ref_borsh_def has_width_def allowlist_fits_def)
qed (simp_all add: ref_borsh_def ref_codecs)

end
