(* ===== verification/Sha256.thy ===== *)
theory Sha256
  imports Prelude
begin

unbundle bit_operations_syntax

text \<open>
  SHA-256 as the standard (FIPS 180-4) gives it, on 32-bit words: the discriminators of
  instructions are taken from it. The second half of the theory is the same computation on lists of
  bits, which the simplifier evaluates quickly, and its equivalence with the first.
\<close>

section \<open>The hash function\<close>

type_synonym u32 = "32 word"

definition rotr :: "nat \<Rightarrow> u32 \<Rightarrow> u32" where
  "rotr n x = drop_bit n x OR push_bit (32 - n) x"

definition sigma0 :: "u32 \<Rightarrow> u32" where
  "sigma0 x = rotr 7 x XOR rotr 18 x XOR drop_bit 3 x"

definition sigma1 :: "u32 \<Rightarrow> u32" where
  "sigma1 x = rotr 17 x XOR rotr 19 x XOR drop_bit 10 x"

definition Sigma0 :: "u32 \<Rightarrow> u32" where
  "Sigma0 x = rotr 2 x XOR rotr 13 x XOR rotr 22 x"

definition Sigma1 :: "u32 \<Rightarrow> u32" where
  "Sigma1 x = rotr 6 x XOR rotr 11 x XOR rotr 25 x"

definition Ch :: "u32 \<Rightarrow> u32 \<Rightarrow> u32 \<Rightarrow> u32" where
  "Ch x y z = (x AND y) XOR (NOT x AND z)"

definition Maj :: "u32 \<Rightarrow> u32 \<Rightarrow> u32 \<Rightarrow> u32" where
  "Maj x y z = (x AND y) XOR (x AND z) XOR (y AND z)"

definition initial_hash :: "u32 list" where
  "initial_hash =
    [1779033703, 3144134277, 1013904242, 2773480762, 1359893119, 2600822924,
      528734635, 1541459225]"

definition round_constants :: "u32 list" where
  "round_constants =
    [1116352408, 1899447441, 3049323471, 3921009573, 961987163, 1508970993,
      2453635748, 2870763221, 3624381080, 310598401, 607225278, 1426881987,
      1925078388, 2162078206, 2614888103, 3248222580, 3835390401, 4022224774,
      264347078, 604807628, 770255983, 1249150122, 1555081692, 1996064986,
      2554220882, 2821834349, 2952996808, 3210313671, 3336571891, 3584528711,
      113926993, 338241895, 666307205, 773529912, 1294757372, 1396182291,
      1695183700, 1986661051, 2177026350, 2456956037, 2730485921, 2820302411,
      3259730800, 3345764771, 3516065817, 3600352804, 4094571909, 275423344,
      430227734, 506948616, 659060556, 883997877, 958139571, 1322822218,
      1537002063, 1747873779, 1955562222, 2024104815, 2227730452, 2361852424,
      2428436474, 2756734187, 3204031479, 3329325298]"

text \<open>The message schedule, the newest word first.\<close>

primrec schedule :: "nat \<Rightarrow> u32 list \<Rightarrow> u32 list" where
  "schedule 0 ws = ws"
| "schedule (Suc n) ws =
    schedule n ((sigma1 (ws ! 1) + ws ! 6 + sigma0 (ws ! 14) + ws ! 15) # ws)"

text \<open>One round; \<open>k\<close> is the sum of the round's constant and word.\<close>

fun hash_round :: "u32 list \<Rightarrow> u32 \<Rightarrow> u32 list" where
  "hash_round [a, b, c, d, e, f, g, h] k =
    (let t1 = h + Sigma1 e + Ch e f g + k; t2 = Sigma0 a + Maj a b c
     in [t1 + t2, a, b, c, d + t1, e, f, g])"
| "hash_round s k = s"

definition compress :: "u32 list \<Rightarrow> u32 list \<Rightarrow> u32 list" where
  "compress s ws =
    map2 (+) s (foldl hash_round s (map2 (+) round_constants (rev (schedule 48 (rev ws)))))"

definition be_bytes :: "nat \<Rightarrow> 'a::len word \<Rightarrow> bytes" where
  "be_bytes n x = map (\<lambda>i. ucast (drop_bit (8 * i) x)) (rev [0..<n])"

definition pad_message :: "bytes \<Rightarrow> bytes" where
  "pad_message m = m @ [0x80] @ replicate ((119 - length m mod 64) mod 64) 0 @
     be_bytes 8 (of_nat (8 * length m) :: 64 word)"

fun message_words :: "bytes \<Rightarrow> u32 list" where
  "message_words (a # b # c # d # bs) = word_rcat [a, b, c, d] # message_words bs"
| "message_words _ = []"

fun hash_blocks :: "u32 list \<Rightarrow> u32 list \<Rightarrow> u32 list" where
  "hash_blocks s ws =
    (if length ws < 16 then s else hash_blocks (compress s (take 16 ws)) (drop 16 ws))"

declare hash_blocks.simps [simp del]

definition sha256 :: "bytes \<Rightarrow> bytes" where
  "sha256 m = concat (map (be_bytes 4) (hash_blocks initial_hash (message_words (pad_message m))))"

section \<open>The same on bits\<close>

text \<open>A word is the list of its bits, the lowest first.\<close>

definition bits_of :: "u32 \<Rightarrow> bool list" where
  "bits_of x = map (bit x) [0..<32]"

definition word_of :: "bool list \<Rightarrow> u32" where
  "word_of bs = horner_sum of_bool 2 bs"

fun xor3 :: "bool list \<Rightarrow> bool list \<Rightarrow> bool list \<Rightarrow> bool list" where
  "xor3 (x # xs) (y # ys) (z # zs) = (x \<noteq> (y \<noteq> z)) # xor3 xs ys zs"
| "xor3 _ _ _ = []"

fun choose3 :: "bool list \<Rightarrow> bool list \<Rightarrow> bool list \<Rightarrow> bool list" where
  "choose3 (x # xs) (y # ys) (z # zs) = (if x then y else z) # choose3 xs ys zs"
| "choose3 _ _ _ = []"

fun major3 :: "bool list \<Rightarrow> bool list \<Rightarrow> bool list \<Rightarrow> bool list" where
  "major3 (x # xs) (y # ys) (z # zs) = (if x then y \<or> z else y \<and> z) # major3 xs ys zs"
| "major3 _ _ _ = []"

fun ripple :: "bool \<Rightarrow> bool list \<Rightarrow> bool list \<Rightarrow> bool list" where
  "ripple c (x # xs) (y # ys) =
    (if x then (if y then c # ripple True xs ys else (\<not> c) # ripple c xs ys)
     else (if y then (\<not> c) # ripple c xs ys else c # ripple False xs ys))"
| "ripple _ _ _ = []"

definition rot :: "nat \<Rightarrow> bool list \<Rightarrow> bool list" where
  "rot n xs = drop n xs @ take n xs"

definition shift :: "nat \<Rightarrow> bool list \<Rightarrow> bool list" where
  "shift n xs = drop n xs @ replicate n False"

lemma length_bits_of [simp]: "length (bits_of x) = 32"
  by (simp add: bits_of_def)

lemma nth_bits_of [simp]: "i < 32 \<Longrightarrow> bits_of x ! i = bit x i"
  by (simp add: bits_of_def)

lemma word_of_bits_of: "word_of (bits_of x) = x"
  by (rule bit_word_eqI) (auto simp: word_of_def bit_horner_sum_bit_word_iff)

lemma xor3_nth:
  assumes "length xs = length ys" "length ys = length zs"
  shows "length (xor3 xs ys zs) = length zs \<and>
    (\<forall>i<length zs. xor3 xs ys zs ! i = (xs ! i \<noteq> (ys ! i \<noteq> zs ! i)))"
  using assms by (induction xs ys zs rule: list_induct3) (auto simp: nth_Cons split: nat.split)

lemma choose3_nth:
  assumes "length xs = length ys" "length ys = length zs"
  shows "length (choose3 xs ys zs) = length zs \<and>
    (\<forall>i<length zs. choose3 xs ys zs ! i = (if xs ! i then ys ! i else zs ! i))"
  using assms by (induction xs ys zs rule: list_induct3) (auto simp: nth_Cons split: nat.split)

lemma major3_nth:
  assumes "length xs = length ys" "length ys = length zs"
  shows "length (major3 xs ys zs) = length zs \<and>
    (\<forall>i<length zs. major3 xs ys zs ! i = (if xs ! i then ys ! i \<or> zs ! i else ys ! i \<and> zs ! i))"
  using assms by (induction xs ys zs rule: list_induct3) (auto simp: nth_Cons split: nat.split)

lemma bits_of_eqI: "length xs = 32 \<Longrightarrow> (\<And>i. i < 32 \<Longrightarrow> bit x i = xs ! i) \<Longrightarrow> bits_of x = xs"
  by (rule nth_equalityI) simp_all

lemma rot_bits: "n \<le> 32 \<Longrightarrow> rot n (bits_of x) = bits_of (rotr n x)"
  by (rule bits_of_eqI [symmetric])
    (auto simp: rot_def rotr_def nth_append bit_simps dest: bit_imp_le_length)

lemma shift_bits: "n \<le> 32 \<Longrightarrow> shift n (bits_of x) = bits_of (drop_bit n x)"
  by (rule bits_of_eqI [symmetric])
    (auto simp: shift_def nth_append bit_simps dest: bit_imp_le_length)

lemma xor3_bits: "xor3 (bits_of x) (bits_of y) (bits_of z) = bits_of (x XOR y XOR z)"
  using xor3_nth [of "bits_of x" "bits_of y" "bits_of z"]
  by (intro bits_of_eqI [symmetric]) (auto simp: bit_simps)

lemma choose3_bits: "choose3 (bits_of x) (bits_of y) (bits_of z) = bits_of (Ch x y z)"
  using choose3_nth [of "bits_of x" "bits_of y" "bits_of z"]
  by (intro bits_of_eqI [symmetric]) (auto simp: Ch_def bit_simps)

lemma major3_bits: "major3 (bits_of x) (bits_of y) (bits_of z) = bits_of (Maj x y z)"
  using major3_nth [of "bits_of x" "bits_of y" "bits_of z"]
  by (intro bits_of_eqI [symmetric]) (auto simp: Maj_def bit_simps)

text \<open>Addition, with its carry.\<close>

lemma ripple_length [simp]: "length (ripple c xs ys) = min (length xs) (length ys)"
  by (induction c xs ys rule: ripple.induct) simp_all

lemma ripple_sum:
  assumes "length xs = length ys"
  shows "\<exists>k. horner_sum of_bool 2 xs + horner_sum of_bool 2 ys + of_bool c =
    horner_sum of_bool 2 (ripple c xs ys) + (2::nat) ^ length ys * k"
  using assms
proof (induction xs ys arbitrary: c rule: list_induct2)
  case Nil
  show ?case by simp
next
  case (Cons x xs y ys)
  have "\<exists>k. horner_sum of_bool 2 xs + horner_sum of_bool 2 ys + of_bool d =
      horner_sum of_bool 2 (ripple d xs ys) + (2::nat) ^ length ys * k" for d
    by (rule Cons.IH)
  then obtain k where k: "horner_sum of_bool 2 xs + horner_sum of_bool 2 ys + of_bool d =
      horner_sum of_bool 2 (ripple d xs ys) + (2::nat) ^ length ys * k d" for d
    by metis
  define d where "d = (if x \<and> y then True else if x \<or> y then c else False)"
  have "of_bool x + 2 * horner_sum of_bool 2 xs + (of_bool y + 2 * horner_sum of_bool 2 ys) +
      of_bool c = of_bool (x \<noteq> (y \<noteq> c)) + 2 * horner_sum of_bool 2 (ripple d xs ys) +
      (2::nat) * (2 ^ length ys * k d)"
    using k [of d] by (cases x; cases y; cases c) (simp_all add: d_def)
  moreover have "ripple c (x # xs) (y # ys) = (x \<noteq> (y \<noteq> c)) # ripple d xs ys"
    by (cases x; cases y; cases c) (simp_all add: d_def)
  ultimately show ?case by (intro exI [of _ "k d"]) simp
qed

lemma word_of_nat_bits: "word_of xs = of_nat (horner_sum of_bool 2 xs)"
  by (induction xs) (simp_all add: word_of_def)

lemma ripple_bits: "ripple False (bits_of x) (bits_of y) = bits_of (x + y)"
proof -
  let ?r = "ripple False (bits_of x) (bits_of y)"
  obtain k where "horner_sum of_bool 2 (bits_of x) + horner_sum of_bool 2 (bits_of y) =
      horner_sum of_bool 2 ?r + (2::nat) ^ 32 * k"
    using ripple_sum [of "bits_of x" "bits_of y" False] by auto
  then have "of_nat (horner_sum of_bool 2 (bits_of x) + horner_sum of_bool 2 (bits_of y)) =
      (of_nat (horner_sum of_bool 2 ?r + (2::nat) ^ 32 * k) :: u32)"
    by (rule arg_cong)
  moreover have "(2::u32) ^ 32 = 0" by (rule exp_eq_zero_iff [THEN iffD2]) simp
  then have "(of_nat ((2::nat) ^ 32 * k) :: u32) = 0"
    by (simp only: of_nat_mult of_nat_power of_nat_numeral mult_zero_left)
  ultimately have "x + y = word_of ?r"
    by (simp only: of_nat_add add_0_right word_of_nat_bits [symmetric] word_of_bits_of)
  then show ?thesis
    by (intro bits_of_eqI [symmetric]) (simp_all add: word_of_def bit_horner_sum_bit_word_iff)
qed

section \<open>A block on bits\<close>

definition bits_sigma0 :: "bool list \<Rightarrow> bool list" where
  "bits_sigma0 x = xor3 (rot 7 x) (rot 18 x) (shift 3 x)"

definition bits_sigma1 :: "bool list \<Rightarrow> bool list" where
  "bits_sigma1 x = xor3 (rot 17 x) (rot 19 x) (shift 10 x)"

definition bits_Sigma0 :: "bool list \<Rightarrow> bool list" where
  "bits_Sigma0 x = xor3 (rot 2 x) (rot 13 x) (rot 22 x)"

definition bits_Sigma1 :: "bool list \<Rightarrow> bool list" where
  "bits_Sigma1 x = xor3 (rot 6 x) (rot 11 x) (rot 25 x)"

abbreviation add_bits :: "bool list \<Rightarrow> bool list \<Rightarrow> bool list" where
  "add_bits \<equiv> ripple False"

primrec bits_schedule :: "nat \<Rightarrow> bool list list \<Rightarrow> bool list list" where
  "bits_schedule 0 ws = ws"
| "bits_schedule (Suc n) ws =
    bits_schedule n (add_bits (add_bits (add_bits (bits_sigma1 (ws ! 1)) (ws ! 6))
      (bits_sigma0 (ws ! 14))) (ws ! 15) # ws)"

text \<open>The two sums of a round are arguments, so that they are evaluated once.\<close>

fun round_end :: "bool list list \<Rightarrow> bool list \<Rightarrow> bool list \<Rightarrow> bool list list" where
  "round_end [a, b, c, d, e, f, g, h] t1 t2 = [add_bits t1 t2, a, b, c, add_bits d t1, e, f, g]"
| "round_end s t1 t2 = s"

fun bits_round :: "bool list list \<Rightarrow> bool list \<Rightarrow> bool list list" where
  "bits_round [a, b, c, d, e, f, g, h] k =
    round_end [a, b, c, d, e, f, g, h]
      (add_bits (add_bits (add_bits h (bits_Sigma1 e)) (choose3 e f g)) k)
      (add_bits (bits_Sigma0 a) (major3 a b c))"
| "bits_round s k = s"

definition bits_compress :: "bool list list \<Rightarrow> bool list list \<Rightarrow> bool list list" where
  "bits_compress s ws =
    map2 add_bits s (foldl bits_round s
      (map2 add_bits (map bits_of round_constants) (rev (bits_schedule 48 (rev ws)))))"

lemma bits_sigma:
  "bits_sigma0 (bits_of x) = bits_of (sigma0 x)" "bits_sigma1 (bits_of x) = bits_of (sigma1 x)"
  "bits_Sigma0 (bits_of x) = bits_of (Sigma0 x)" "bits_Sigma1 (bits_of x) = bits_of (Sigma1 x)"
  by (simp_all add: bits_sigma0_def bits_sigma1_def bits_Sigma0_def bits_Sigma1_def rot_bits
      shift_bits xor3_bits sigma0_def sigma1_def Sigma0_def Sigma1_def)

lemma bits_schedule_map:
  "16 \<le> length ws \<Longrightarrow> bits_schedule n (map bits_of ws) = map bits_of (schedule n ws)"
  by (induction n arbitrary: ws) (simp_all add: bits_sigma ripple_bits flip: list.map(2))

lemma bits_round_map: "bits_round (map bits_of s) (bits_of k) = map bits_of (hash_round s k)"
  by (cases "(s, k)" rule: hash_round.cases)
    (simp_all add: bits_sigma ripple_bits choose3_bits major3_bits Let_def)

lemma bits_rounds_map:
  "foldl bits_round (map bits_of s) (map bits_of ks) = map bits_of (foldl hash_round s ks)"
  by (induction ks arbitrary: s) (simp_all add: bits_round_map)

lemma add_bits_map: "map2 add_bits (map bits_of xs) (map bits_of ys) = map bits_of (map2 (+) xs ys)"
  by (simp add: map2_map_map ripple_bits zip_map_map o_def split_def)

lemma bits_compress_map:
  "16 \<le> length ws \<Longrightarrow>
    bits_compress (map bits_of s) (map bits_of ws) = map bits_of (compress s ws)"
  by (simp only: bits_compress_def compress_def rev_map bits_schedule_map length_rev add_bits_map
      bits_rounds_map)

section \<open>Evaluating a block\<close>

text \<open>The operations on bits as rewrite rules: one step for each bit or rotation.\<close>

lemma bit_rules:
  "xor3 (True # xs) (True # ys) (True # zs) = True # xor3 xs ys zs"
  "xor3 (True # xs) (True # ys) (False # zs) = False # xor3 xs ys zs"
  "xor3 (True # xs) (False # ys) (True # zs) = False # xor3 xs ys zs"
  "xor3 (True # xs) (False # ys) (False # zs) = True # xor3 xs ys zs"
  "xor3 (False # xs) (True # ys) (True # zs) = False # xor3 xs ys zs"
  "xor3 (False # xs) (True # ys) (False # zs) = True # xor3 xs ys zs"
  "xor3 (False # xs) (False # ys) (True # zs) = True # xor3 xs ys zs"
  "xor3 (False # xs) (False # ys) (False # zs) = False # xor3 xs ys zs"
  "xor3 [] ys zs = []"
  "choose3 (True # xs) (y # ys) (z # zs) = y # choose3 xs ys zs"
  "choose3 (False # xs) (y # ys) (z # zs) = z # choose3 xs ys zs"
  "choose3 [] ys zs = []"
  "major3 (True # xs) (True # ys) (z # zs) = True # major3 xs ys zs"
  "major3 (True # xs) (False # ys) (z # zs) = z # major3 xs ys zs"
  "major3 (False # xs) (True # ys) (z # zs) = z # major3 xs ys zs"
  "major3 (False # xs) (False # ys) (z # zs) = False # major3 xs ys zs"
  "major3 [] ys zs = []"
  "ripple True (True # xs) (True # ys) = True # ripple True xs ys"
  "ripple True (True # xs) (False # ys) = False # ripple True xs ys"
  "ripple True (False # xs) (True # ys) = False # ripple True xs ys"
  "ripple True (False # xs) (False # ys) = True # ripple False xs ys"
  "ripple False (True # xs) (True # ys) = False # ripple True xs ys"
  "ripple False (True # xs) (False # ys) = True # ripple False xs ys"
  "ripple False (False # xs) (True # ys) = True # ripple False xs ys"
  "ripple False (False # xs) (False # ys) = False # ripple False xs ys"
  "ripple c [] ys = []"
  by simp_all

lemma rotation_rules:
  "rot 2 (x0 # x1 # xs) =
    xs @ [x0, x1]"
  "rot 6 (x0 # x1 # x2 # x3 # x4 # x5 # xs) =
    xs @ [x0, x1, x2, x3, x4, x5]"
  "rot 7 (x0 # x1 # x2 # x3 # x4 # x5 # x6 # xs) =
    xs @ [x0, x1, x2, x3, x4, x5, x6]"
  "rot 11 (x0 # x1 # x2 # x3 # x4 # x5 # x6 # x7 # x8 # x9 # x10 # xs) =
    xs @ [x0, x1, x2, x3, x4, x5, x6, x7, x8, x9, x10]"
  "rot 13 (x0 # x1 # x2 # x3 # x4 # x5 # x6 # x7 # x8 # x9 # x10 # x11 # x12 # xs) =
    xs @ [x0, x1, x2, x3, x4, x5, x6, x7, x8, x9, x10, x11, x12]"
  "rot 17 (x0 # x1 # x2 # x3 # x4 # x5 # x6 # x7 # x8 # x9 # x10 # x11 # x12 # x13 # x14 # x15 #
      x16 # xs) =
    xs @ [x0, x1, x2, x3, x4, x5, x6, x7, x8, x9, x10, x11, x12, x13, x14, x15, x16]"
  "rot 18 (x0 # x1 # x2 # x3 # x4 # x5 # x6 # x7 # x8 # x9 # x10 # x11 # x12 # x13 # x14 # x15 #
      x16 # x17 # xs) =
    xs @ [x0, x1, x2, x3, x4, x5, x6, x7, x8, x9, x10, x11, x12, x13, x14, x15, x16, x17]"
  "rot 19 (x0 # x1 # x2 # x3 # x4 # x5 # x6 # x7 # x8 # x9 # x10 # x11 # x12 # x13 # x14 # x15 #
      x16 # x17 # x18 # xs) =
    xs @ [x0, x1, x2, x3, x4, x5, x6, x7, x8, x9, x10, x11, x12, x13, x14, x15, x16, x17, x18]"
  "rot 22 (x0 # x1 # x2 # x3 # x4 # x5 # x6 # x7 # x8 # x9 # x10 # x11 # x12 # x13 # x14 # x15 #
      x16 # x17 # x18 # x19 # x20 # x21 # xs) =
    xs @ [x0, x1, x2, x3, x4, x5, x6, x7, x8, x9, x10, x11, x12, x13, x14, x15, x16, x17, x18,
      x19, x20, x21]"
  "rot 25 (x0 # x1 # x2 # x3 # x4 # x5 # x6 # x7 # x8 # x9 # x10 # x11 # x12 # x13 # x14 # x15 #
      x16 # x17 # x18 # x19 # x20 # x21 # x22 # x23 # x24 # xs) =
    xs @ [x0, x1, x2, x3, x4, x5, x6, x7, x8, x9, x10, x11, x12, x13, x14, x15, x16, x17, x18,
      x19, x20, x21, x22, x23, x24]"
  "shift 3 (x0 # x1 # x2 # xs) =
    xs @ [False, False, False]"
  "shift 10 (x0 # x1 # x2 # x3 # x4 # x5 # x6 # x7 # x8 # x9 # xs) =
    xs @ [False, False, False, False, False, False, False, False, False, False]"
  by (simp_all add: rot_def shift_def numeral_eq_Suc)

lemma schedule_rule:
  "bits_schedule (numeral n) (x0 # x1 # x2 # x3 # x4 # x5 # x6 # x7 # x8 # x9 # x10 # x11 # x12
      # x13 # x14 # x15 # ws) =
    bits_schedule (pred_numeral n) (add_bits (add_bits (add_bits (bits_sigma1 x1) x6)
      (bits_sigma0 x14)) x15 #
      x0 # x1 # x2 # x3 # x4 # x5 # x6 # x7 # x8 # x9 # x10 # x11 # x12 # x13 # x14 # x15 # ws)"
  by (simp add: numeral_eq_Suc)

text \<open>The bits of a literal.\<close>

fun num_bits :: "nat \<Rightarrow> num \<Rightarrow> bool list" where
  "num_bits 0 w = []"
| "num_bits (Suc n) num.One = True # replicate n False"
| "num_bits (Suc n) (num.Bit0 w) = False # num_bits n w"
| "num_bits (Suc n) (num.Bit1 w) = True # num_bits n w"

lemma num_bits_nth:
  "length (num_bits n w) = n \<and> (\<forall>i<n. num_bits n w ! i = bit (numeral w :: int) i)"
  by (induction n w rule: num_bits.induct) (auto simp: nth_Cons bit_Suc bit_0 split: nat.split)

lemma num_bits_bits: "num_bits n w = map (bit (numeral w :: u32)) [0..<n]" if "n \<le> 32"
proof (rule nth_equalityI)
  show "length (num_bits n w) = length (map (bit (numeral w :: u32)) [0..<n])"
    by (simp add: num_bits_nth)
  show "num_bits n w ! i = map (bit (numeral w :: u32)) [0..<n] ! i"
    if "i < length (num_bits n w)" for i
    using that \<open>n \<le> 32\<close> num_bits_nth [of n w]
      bit_word_of_int_iff [of "numeral w" i, where 'a = 32] by simp
qed

lemma bits_of_literal:
  "bits_of (numeral w) = num_bits 32 w" "bits_of 0 = replicate 32 False"
  "bits_of 1 = num_bits 32 num.One"
  using num_bits_bits [of 32 num.One] num_bits_bits [of 32 w]
  by (simp_all add: bits_of_def list_eq_iff_nth_eq)

lemma num_bits_rules:
  "num_bits (numeral n) num.One = True # replicate (pred_numeral n) False"
  "num_bits (numeral n) (num.Bit0 w) = False # num_bits (pred_numeral n) w"
  "num_bits (numeral n) (num.Bit1 w) = True # num_bits (pred_numeral n) w"
  "replicate (numeral n) b = b # replicate (pred_numeral n) b"
  by (simp_all add: numeral_eq_Suc)

lemmas bits_rules = bit_rules rotation_rules schedule_rule bits_schedule.simps(1)
  bits_compress_def bits_sigma0_def bits_sigma1_def bits_Sigma0_def bits_Sigma1_def
  bits_round.simps(1) round_end.simps(1) round_constants_def bits_of_literal num_bits.simps(1)
  num_bits_rules pred_numeral_simps BitM.simps replicate.simps(1) foldl.simps rev.simps append.simps
  list.map zip_Cons_Cons zip_Nil case_prod_conv

lemma message_words_length: "length (message_words bs) = length bs div 4"
  by (induction bs rule: message_words.induct) simp_all

lemma sha256_block:
  assumes "length m < 56"
  shows "sha256 m = concat (map (\<lambda>bs. be_bytes 4 (word_of bs))
    (bits_compress (map bits_of initial_hash) (map bits_of (message_words (pad_message m)))))"
proof -
  have "119 - length m = 64 + (55 - length m)" using assms by simp
  then have "(119 - length m mod 64) mod 64 = 55 - length m" using assms
    by (simp only: mod_less mod_add_self1 less_imp_diff_less)
  then have "length (message_words (pad_message m)) = 16"
    using assms by (simp add: message_words_length pad_message_def be_bytes_def)
  then show ?thesis
    by (simp add: sha256_def hash_blocks.simps [of _ "message_words _"]
        hash_blocks.simps [of _ "[]"] bits_compress_map word_of_bits_of o_def)
qed

lemma upt_literals:
  "[0..<4] = [0, 1, 2, 3]" "[0..<8] = [0, 1, 2, 3, 4, 5, 6, 7]"
  "[0..<32] = [0, 1, 2, 3, 4, 5, 6, 7, 8, 9, 10, 11, 12, 13, 14, 15, 16, 17, 18, 19, 20, 21, 22,
    23, 24, 25, 26, 27, 28, 29, 30, 31]"
  by (simp_all add: upt_rec)

lemmas message_rules = byte_string_def pad_message_def be_bytes_def bits_of_def upt_literals
  num_bits_rules(4) word_rcat_def initial_hash_def


end
