(* ===== verification/Sighash.thy ===== *)
theory Sighash
  imports Sha256
begin

text \<open>
  The discriminators of the instructions, as the program has them: eight bytes of a hash of the name
  of the function in \<^verbatim>\<open>lib.rs\<close>. For SHA-256, which Anchor uses, they are evaluated here, block by
  block, on the bits of the words.
\<close>

text \<open>
  Anchor finds an instruction by eight bytes of a hash of its name. The hash is an argument; Anchor's
  is SHA-256.
\<close>

definition sighash :: "(bytes \<Rightarrow> bytes) \<Rightarrow> string \<Rightarrow> bytes" where
  "sighash H name = take 8 (H (byte_string (''global:'' @ name)))"

section \<open>The names of the program\<close>

lemma sighashes_admin:
  "sighash sha256 ''initialize_config'' = [208, 127, 21, 1, 194, 190, 196, 70]"
  "sighash sha256 ''update_config'' = [29, 158, 252, 191, 10, 83, 219, 99]"
  "sighash sha256 ''propose_admin'' = [121, 214, 199, 212, 87, 39, 117, 234]"
  "sighash sha256 ''accept_admin'' = [112, 42, 45, 90, 116, 181, 13, 170]"
  "sighash sha256 ''cancel_admin_transfer'' = [38, 131, 157, 31, 240, 137, 44, 215]"
  apply (simp_all add: sighash_def sha256_block message_rules)
  apply (simp_all only: bits_rules)
  apply (simp_all add: word_of_def)
  done

lemma sighashes_wager:
  "sighash sha256 ''create_wager'' = [210, 82, 178, 75, 253, 34, 84, 120]"
  "sighash sha256 ''stake_side'' = [87, 92, 180, 95, 96, 113, 66, 242]"
  "sighash sha256 ''unstake_side'' = [118, 120, 14, 146, 82, 45, 4, 227]"
  "sighash sha256 ''resolve'' = [246, 150, 236, 206, 108, 63, 58, 10]"
  "sighash sha256 ''concede'' = [19, 182, 3, 3, 43, 35, 60, 202]"
  apply (simp_all add: sighash_def sha256_block message_rules)
  apply (simp_all only: bits_rules)
  apply (simp_all add: word_of_def)
  done

lemma sighashes_end:
  "sighash sha256 ''refund_side'' = [82, 211, 109, 116, 111, 44, 242, 156]"
  "sighash sha256 ''cancel_propose'' = [26, 234, 145, 66, 243, 176, 98, 167]"
  "sighash sha256 ''cancel_clear'' = [145, 6, 252, 203, 185, 13, 229, 32]"
  "sighash sha256 ''cancel_accept'' = [238, 198, 11, 182, 13, 108, 81, 95]"
  "sighash sha256 ''close_expired'' = [138, 186, 164, 245, 32, 116, 162, 62]"
  apply (simp_all add: sighash_def sha256_block message_rules)
  apply (simp_all only: bits_rules)
  apply (simp_all add: word_of_def)
  done

lemmas sighashes = sighashes_admin sighashes_wager sighashes_end

end
