(* ===== verification/Dispatch.thy ===== *)
theory Dispatch
  imports Client_Admin Client_Wager Program Reference_Wire Sighash
begin

text \<open>
  From the instruction a client sends to the call the program executes. The program's entry
  (\<^verbatim>\<open>#[program]\<close>, \<^verbatim>\<open>#[derive(Accounts)]\<close>) finds the instruction by the first eight bytes of the
  data, reads its arguments from the rest, and takes one account after the other, in the order of
  the declaration. Nothing here is shared with the client but the encodings of the library types:
  the address is the one of \<^verbatim>\<open>declare_id!\<close>, the discriminators are hashed from the names of the
  functions in \<^verbatim>\<open>lib.rs\<close>, and accounts and arguments are read in the order of the program's structs.
  The client has literals and lists of its own for all of them, and the two have to agree.
\<close>

section \<open>The program's side\<close>

definition DECLARED_ID :: pubkey where
  "DECLARED_ID = pubkey_literal ''Hv4f6R9GgZ9nvK8HvA3KYwxPTrmiqyiE9KFvrENjgD67''"

text \<open>
  The attribute \<^verbatim>\<open>#[event_cpi]\<close> appends two accounts, the event authority and the program, for
  the call by which the program logs its events. The first has to be the address derived from
  this seed; the program can only be called if it is among the accounts of the instruction.
\<close>

definition EVENT_AUTHORITY_SEED :: bytes where
  "EVENT_AUTHORITY_SEED = byte_string ''__event_authority''"

definition event_authority :: "env \<Rightarrow> pubkey" where
  "event_authority E = fst (find_pda E [EVENT_AUTHORITY_SEED])"

definition event_cpi_ok :: "env \<Rightarrow> pubkey \<Rightarrow> pubkey list \<Rightarrow> bool" where
  "event_cpi_ok E k ks \<longleftrightarrow> k = event_authority E \<and> DECLARED_ID \<in> set ks"

text \<open>
  The accounts of an instruction in the order of its struct. An optional account is left out by
  passing the address of the program.
\<close>

definition optional_key :: "pubkey \<Rightarrow> pubkey option" where
  "optional_key k = (if k = DECLARED_ID then None else Some k)"

definition read_initialize_config :: "pubkey list \<Rightarrow> initialize_config_accounts option" where
  "read_initialize_config ks =
    (if length ks < 5 then None else Some
      \<lparr>ic_authority = ks ! 0, ic_config = ks ! 1, ic_program = ks ! 2, ic_program_data = ks ! 3,
      ic_system_program = ks ! 4\<rparr>)"

definition read_update_config :: "pubkey list \<Rightarrow> update_config_accounts option" where
  "read_update_config ks =
    (if length ks < 2 then None else Some
      \<lparr>uc_admin = ks ! 0, uc_config = ks ! 1\<rparr>)"

definition read_propose_admin :: "env \<Rightarrow> pubkey list \<Rightarrow> propose_admin_accounts option" where
  "read_propose_admin E ks =
    (if length ks < 6 \<or> \<not> event_cpi_ok E (ks ! 4) ks then None else Some
      \<lparr>pa_admin = ks ! 0, pa_config = ks ! 1, pa_admin_transfer = ks ! 2,
      pa_system_program = ks ! 3\<rparr>)"

definition read_accept_admin :: "env \<Rightarrow> pubkey list \<Rightarrow> accept_admin_accounts option" where
  "read_accept_admin E ks =
    (if length ks < 6 \<or> \<not> event_cpi_ok E (ks ! 4) ks then None else Some
      \<lparr>aa_new_admin = ks ! 0, aa_config = ks ! 1, aa_admin_transfer = ks ! 2,
      aa_previous_admin = ks ! 3\<rparr>)"

definition read_cancel_admin_transfer :: "env \<Rightarrow> pubkey list \<Rightarrow> cancel_admin_transfer_accounts option" where
  "read_cancel_admin_transfer E ks =
    (if length ks < 5 \<or> \<not> event_cpi_ok E (ks ! 3) ks then None else Some
      \<lparr>ct_admin = ks ! 0, ct_config = ks ! 1, ct_admin_transfer = ks ! 2\<rparr>)"

definition read_create_wager :: "env \<Rightarrow> pubkey list \<Rightarrow> create_wager_accounts option" where
  "read_create_wager E ks =
    (if length ks < 10 \<or> \<not> event_cpi_ok E (ks ! 8) ks then None else Some
      \<lparr>cw_payer = ks ! 0, cw_config = ks ! 1, cw_wager = ks ! 2, cw_mint = ks ! 3,
      cw_vault = ks ! 4, cw_token_program = ks ! 5, cw_associated_token_program = ks ! 6,
      cw_system_program = ks ! 7\<rparr>)"

definition read_stake_side :: "env \<Rightarrow> pubkey list \<Rightarrow> stake_side_accounts option" where
  "read_stake_side E ks =
    (if length ks < 11 \<or> \<not> event_cpi_ok E (ks ! 9) ks then None else Some
      \<lparr>ss_staker = ks ! 0, ss_payer = ks ! 1, ss_config = ks ! 2, ss_wager = ks ! 3,
      ss_counter = ks ! 4, ss_staker_token = ks ! 5, ss_vault = ks ! 6,
      ss_token_program = ks ! 7, ss_system_program = ks ! 8\<rparr>)"

definition read_unstake_side :: "env \<Rightarrow> pubkey list \<Rightarrow> unstake_side_accounts option" where
  "read_unstake_side E ks =
    (if length ks < 9 \<or> \<not> event_cpi_ok E (ks ! 7) ks then None else Some
      \<lparr>us_staker = ks ! 0, us_config = ks ! 1, us_wager = ks ! 2, us_counter = ks ! 3,
      us_staker_token = ks ! 4, us_vault = ks ! 5, us_token_program = ks ! 6\<rparr>)"

definition read_resolve :: "env \<Rightarrow> pubkey list \<Rightarrow> resolve_accounts option" where
  "read_resolve E ks =
    (if length ks < 13 \<or> \<not> event_cpi_ok E (ks ! 11) ks then None else Some
      \<lparr>rs_resolver = ks ! 0, rs_config = ks ! 1, rs_wager = ks ! 2, rs_winner = ks ! 3,
      rs_winner_token = ks ! 4, rs_fee_token = ks ! 5, rs_vault = ks ! 6, rs_counter_a = ks ! 7,
      rs_counter_b = ks ! 8, rs_rent_collector = ks ! 9, rs_token_program = ks ! 10\<rparr>)"

definition read_concede :: "env \<Rightarrow> pubkey list \<Rightarrow> concede_accounts option" where
  "read_concede E ks =
    (if length ks < 13 \<or> \<not> event_cpi_ok E (ks ! 11) ks then None else Some
      \<lparr>cc_conceder = ks ! 0, cc_config = ks ! 1, cc_wager = ks ! 2, cc_winner = ks ! 3,
      cc_winner_token = ks ! 4, cc_fee_token = ks ! 5, cc_vault = ks ! 6, cc_counter_a = ks ! 7,
      cc_counter_b = ks ! 8, cc_rent_collector = ks ! 9, cc_token_program = ks ! 10\<rparr>)"

definition read_refund_side :: "env \<Rightarrow> pubkey list \<Rightarrow> refund_side_accounts option" where
  "read_refund_side E ks =
    (if length ks < 10 \<or> \<not> event_cpi_ok E (ks ! 8) ks then None else Some
      \<lparr>rf_cranker = ks ! 0, rf_config = ks ! 1, rf_wager = ks ! 2, rf_side = ks ! 3,
      rf_side_token = ks ! 4, rf_counter = ks ! 5, rf_vault = ks ! 6,
      rf_token_program = ks ! 7\<rparr>)"

definition read_cancel_propose :: "env \<Rightarrow> pubkey list \<Rightarrow> cancel_propose_accounts option" where
  "read_cancel_propose E ks =
    (if length ks < 4 \<or> \<not> event_cpi_ok E (ks ! 2) ks then None else Some
      \<lparr>cp_participant = ks ! 0, cp_wager = ks ! 1\<rparr>)"

definition read_cancel_clear :: "env \<Rightarrow> pubkey list \<Rightarrow> cancel_clear_accounts option" where
  "read_cancel_clear E ks =
    (if length ks < 4 \<or> \<not> event_cpi_ok E (ks ! 2) ks then None else Some
      \<lparr>cl_participant = ks ! 0, cl_wager = ks ! 1\<rparr>)"

definition read_cancel_accept :: "env \<Rightarrow> pubkey list \<Rightarrow> cancel_accept_accounts option" where
  "read_cancel_accept E ks =
    (if length ks < 15 \<or> \<not> event_cpi_ok E (ks ! 13) ks then None else Some
      \<lparr>ac_acceptor = ks ! 0, ac_config = ks ! 1, ac_wager = ks ! 2, ac_side_a = ks ! 3,
      ac_side_b = ks ! 4, ac_side_a_token = ks ! 5, ac_side_b_token = ks ! 6,
      ac_counter_a = ks ! 7, ac_counter_b = ks ! 8, ac_fee_token = ks ! 9, ac_vault = ks ! 10,
      ac_rent_collector = ks ! 11, ac_token_program = ks ! 12\<rparr>)"

definition read_close_expired :: "env \<Rightarrow> pubkey list \<Rightarrow> close_expired_accounts option" where
  "read_close_expired E ks =
    (if length ks < 8 \<or> \<not> event_cpi_ok E (ks ! 6) ks then None else Some
      \<lparr>ce_cranker = ks ! 0, ce_wager = ks ! 1, ce_vault = ks ! 2,
      ce_fee_token = optional_key (ks ! 3), ce_rent_collector = ks ! 4,
      ce_token_program = ks ! 5\<rparr>)"

definition with_data :: "'a reader \<Rightarrow> bytes \<Rightarrow> ('a \<Rightarrow> 'b option) \<Rightarrow> 'b option" where
  "with_data r bs f = (case r bs of None \<Rightarrow> None | Some (x, _) \<Rightarrow> f x)"

definition decode ::
  "(bytes \<Rightarrow> bytes) \<Rightarrow> env \<Rightarrow> borsh \<Rightarrow> wire_instruction \<Rightarrow> call option"
where
  "decode H E B ix =
    (let d = take 8 (ix_data ix); data = drop 8 (ix_data ix); ks = map am_key (ix_accounts ix) in
     if ix_program ix \<noteq> DECLARED_ID then None
     else if d = sighash H ''initialize_config'' then
       with_data (get_initialize_config_args B) data (\<lambda>x.
         map_option (\<lambda>a. Initialize_Config a x) (read_initialize_config ks))
     else if d = sighash H ''update_config'' then
       with_data (get_update_config_args B) data (\<lambda>x.
         map_option (\<lambda>a. Update_Config a x) (read_update_config ks))
     else if d = sighash H ''propose_admin'' then
       with_data (get (b_key B)) data (\<lambda>x.
         map_option (\<lambda>a. Propose_Admin a x) (read_propose_admin E ks))
     else if d = sighash H ''accept_admin'' then map_option Accept_Admin (read_accept_admin E ks)
     else if d = sighash H ''cancel_admin_transfer'' then
       map_option Cancel_Admin_Transfer (read_cancel_admin_transfer E ks)
     else if d = sighash H ''create_wager'' then
       with_data (get_create_wager_args B) data (\<lambda>x.
         map_option (\<lambda>a. Create_Wager a x) (read_create_wager E ks))
     else if d = sighash H ''stake_side'' then map_option Stake_Side (read_stake_side E ks)
     else if d = sighash H ''unstake_side'' then map_option Unstake_Side (read_unstake_side E ks)
     else if d = sighash H ''resolve'' then
       with_data (get (b_key B)) data (\<lambda>x. map_option (\<lambda>a. Resolve a x) (read_resolve E ks))
     else if d = sighash H ''concede'' then map_option Concede (read_concede E ks)
     else if d = sighash H ''refund_side'' then map_option Refund_Side (read_refund_side E ks)
     else if d = sighash H ''cancel_propose'' then
       map_option Cancel_Propose (read_cancel_propose E ks)
     else if d = sighash H ''cancel_clear'' then map_option Cancel_Clear (read_cancel_clear E ks)
     else if d = sighash H ''cancel_accept'' then
       map_option Cancel_Accept (read_cancel_accept E ks)
     else if d = sighash H ''close_expired'' then
       map_option Close_Expired (read_close_expired E ks)
     else None)"

section \<open>The client's side\<close>

text \<open>One use of a builder: the accounts given and the argument.\<close>

datatype request =
    Req_Initialize_Config initialize_config_keys initialize_config_args
  | Req_Update_Config update_config_keys update_config_args
  | Req_Propose_Admin propose_admin_keys pubkey
  | Req_Accept_Admin accept_admin_keys
  | Req_Cancel_Admin_Transfer cancel_admin_transfer_keys
  | Req_Create_Wager create_wager_keys create_wager_args
  | Req_Stake_Side stake_side_keys
  | Req_Unstake_Side unstake_side_keys
  | Req_Resolve resolve_keys pubkey
  | Req_Concede concede_keys
  | Req_Refund_Side refund_side_keys
  | Req_Cancel_Propose cancel_propose_keys
  | Req_Cancel_Clear cancel_clear_keys
  | Req_Cancel_Accept cancel_accept_keys
  | Req_Close_Expired close_expired_keys

fun build :: "borsh \<Rightarrow> request \<Rightarrow> account_meta list \<Rightarrow> wire_instruction" where
  "build B (Req_Initialize_Config k args) r =
    initialize_config_instruction B (with_remaining (initialize_config_with_accounts (initialize_config_data args) k) r)"
| "build B (Req_Update_Config k args) r =
    update_config_instruction B (with_remaining (update_config_with_accounts (update_config_data args) k) r)"
| "build B (Req_Propose_Admin k new_admin) r =
    propose_admin_instruction B (with_remaining (propose_admin_with_accounts (propose_admin_data new_admin) k) r)"
| "build B (Req_Accept_Admin k) r =
    accept_admin_instruction B (with_remaining (accept_admin_with_accounts (accept_admin_data ()) k) r)"
| "build B (Req_Cancel_Admin_Transfer k) r =
    cancel_admin_transfer_instruction B (with_remaining (cancel_admin_transfer_with_accounts (cancel_admin_transfer_data ()) k) r)"
| "build B (Req_Create_Wager k args) r =
    create_wager_instruction B (with_remaining (create_wager_with_accounts (create_wager_data args) k) r)"
| "build B (Req_Stake_Side k) r =
    stake_side_instruction B (with_remaining (stake_side_with_accounts (stake_side_data ()) k) r)"
| "build B (Req_Unstake_Side k) r =
    unstake_side_instruction B (with_remaining (unstake_side_with_accounts (unstake_side_data ()) k) r)"
| "build B (Req_Resolve k winner) r =
    resolve_instruction B (with_remaining (resolve_with_accounts (resolve_data winner) k) r)"
| "build B (Req_Concede k) r =
    concede_instruction B (with_remaining (concede_with_accounts (concede_data ()) k) r)"
| "build B (Req_Refund_Side k) r =
    refund_side_instruction B (with_remaining (refund_side_with_accounts (refund_side_data ()) k) r)"
| "build B (Req_Cancel_Propose k) r =
    cancel_propose_instruction B (with_remaining (cancel_propose_with_accounts (cancel_propose_data ()) k) r)"
| "build B (Req_Cancel_Clear k) r =
    cancel_clear_instruction B (with_remaining (cancel_clear_with_accounts (cancel_clear_data ()) k) r)"
| "build B (Req_Cancel_Accept k) r =
    cancel_accept_instruction B (with_remaining (cancel_accept_with_accounts (cancel_accept_data ()) k) r)"
| "build B (Req_Close_Expired k) r =
    close_expired_instruction B (with_remaining (close_expired_with_accounts (close_expired_data ()) k) r)"

text \<open>The call a request stands for: every account under its own name,
  the programs at their addresses.\<close>

fun meant :: "request \<Rightarrow> call" where
  "meant (Req_Initialize_Config k args) = Initialize_Config
    \<lparr>ic_authority = ick_authority k, ic_config = ick_config k, ic_program = PROGRAM_ID,
    ic_program_data = ick_program_data k, ic_system_program = SYSTEM_PROGRAM_ID\<rparr> args"
| "meant (Req_Update_Config k args) = Update_Config
    \<lparr>uc_admin = uck_admin k, uc_config = uck_config k\<rparr> args"
| "meant (Req_Propose_Admin k new_admin) = Propose_Admin
    \<lparr>pa_admin = pak_admin k, pa_config = pak_config k, pa_admin_transfer = pak_admin_transfer k,
    pa_system_program = SYSTEM_PROGRAM_ID\<rparr> new_admin"
| "meant (Req_Accept_Admin k) = Accept_Admin
    \<lparr>aa_new_admin = aak_new_admin k, aa_config = aak_config k,
    aa_admin_transfer = aak_admin_transfer k, aa_previous_admin = aak_previous_admin k\<rparr>"
| "meant (Req_Cancel_Admin_Transfer k) = Cancel_Admin_Transfer
    \<lparr>ct_admin = ctk_admin k, ct_config = ctk_config k, ct_admin_transfer = ctk_admin_transfer k\<rparr>"
| "meant (Req_Create_Wager k args) = Create_Wager
    \<lparr>cw_payer = cwk_payer k, cw_config = cwk_config k, cw_wager = cwk_wager k,
    cw_mint = cwk_mint k, cw_vault = cwk_vault k, cw_token_program = TOKEN_PROGRAM_ID,
    cw_associated_token_program = ASSOCIATED_TOKEN_PROGRAM_ID,
    cw_system_program = SYSTEM_PROGRAM_ID\<rparr> args"
| "meant (Req_Stake_Side k) = Stake_Side
    \<lparr>ss_staker = ssk_staker k, ss_payer = ssk_payer k, ss_config = ssk_config k,
    ss_wager = ssk_wager k, ss_counter = ssk_counter k, ss_staker_token = ssk_staker_token k,
    ss_vault = ssk_vault k, ss_token_program = TOKEN_PROGRAM_ID,
    ss_system_program = SYSTEM_PROGRAM_ID\<rparr>"
| "meant (Req_Unstake_Side k) = Unstake_Side
    \<lparr>us_staker = usk_staker k, us_config = usk_config k, us_wager = usk_wager k,
    us_counter = usk_counter k, us_staker_token = usk_staker_token k, us_vault = usk_vault k,
    us_token_program = TOKEN_PROGRAM_ID\<rparr>"
| "meant (Req_Resolve k winner) = Resolve
    \<lparr>rs_resolver = rsk_resolver k, rs_config = rsk_config k, rs_wager = rsk_wager k,
    rs_winner = rsk_winner k, rs_winner_token = rsk_winner_token k,
    rs_fee_token = rsk_fee_token k, rs_vault = rsk_vault k, rs_counter_a = rsk_counter_a k,
    rs_counter_b = rsk_counter_b k, rs_rent_collector = rsk_rent_collector k,
    rs_token_program = TOKEN_PROGRAM_ID\<rparr> winner"
| "meant (Req_Concede k) = Concede
    \<lparr>cc_conceder = cck_conceder k, cc_config = cck_config k, cc_wager = cck_wager k,
    cc_winner = cck_winner k, cc_winner_token = cck_winner_token k,
    cc_fee_token = cck_fee_token k, cc_vault = cck_vault k, cc_counter_a = cck_counter_a k,
    cc_counter_b = cck_counter_b k, cc_rent_collector = cck_rent_collector k,
    cc_token_program = TOKEN_PROGRAM_ID\<rparr>"
| "meant (Req_Refund_Side k) = Refund_Side
    \<lparr>rf_cranker = rfk_cranker k, rf_config = rfk_config k, rf_wager = rfk_wager k,
    rf_side = rfk_side k, rf_side_token = rfk_side_token k, rf_counter = rfk_counter k,
    rf_vault = rfk_vault k, rf_token_program = TOKEN_PROGRAM_ID\<rparr>"
| "meant (Req_Cancel_Propose k) = Cancel_Propose
    \<lparr>cp_participant = cpk_participant k, cp_wager = cpk_wager k\<rparr>"
| "meant (Req_Cancel_Clear k) = Cancel_Clear
    \<lparr>cl_participant = clk_participant k, cl_wager = clk_wager k\<rparr>"
| "meant (Req_Cancel_Accept k) = Cancel_Accept
    \<lparr>ac_acceptor = ack_acceptor k, ac_config = ack_config k, ac_wager = ack_wager k,
    ac_side_a = ack_side_a k, ac_side_b = ack_side_b k, ac_side_a_token = ack_side_a_token k,
    ac_side_b_token = ack_side_b_token k, ac_counter_a = ack_counter_a k,
    ac_counter_b = ack_counter_b k, ac_fee_token = ack_fee_token k, ac_vault = ack_vault k,
    ac_rent_collector = ack_rent_collector k, ac_token_program = TOKEN_PROGRAM_ID\<rparr>"
| "meant (Req_Close_Expired k) = Close_Expired
    \<lparr>ce_cranker = cek_cranker k, ce_wager = cek_wager k, ce_vault = cek_vault k,
    ce_fee_token = (if cek_fee_token k = PROGRAM_ID then None else Some (cek_fee_token k)),
    ce_rent_collector = cek_rent_collector k, ce_token_program = TOKEN_PROGRAM_ID\<rparr>"

text \<open>The event authority a request gives.\<close>

fun event_keys :: "request \<Rightarrow> pubkey option" where
  "event_keys (Req_Initialize_Config k _) = None"
| "event_keys (Req_Update_Config k _) = None"
| "event_keys (Req_Propose_Admin k _) = Some (pak_event_authority k)"
| "event_keys (Req_Accept_Admin k) = Some (aak_event_authority k)"
| "event_keys (Req_Cancel_Admin_Transfer k) = Some (ctk_event_authority k)"
| "event_keys (Req_Create_Wager k _) = Some (cwk_event_authority k)"
| "event_keys (Req_Stake_Side k) = Some (ssk_event_authority k)"
| "event_keys (Req_Unstake_Side k) = Some (usk_event_authority k)"
| "event_keys (Req_Resolve k _) = Some (rsk_event_authority k)"
| "event_keys (Req_Concede k) = Some (cck_event_authority k)"
| "event_keys (Req_Refund_Side k) = Some (rfk_event_authority k)"
| "event_keys (Req_Cancel_Propose k) = Some (cpk_event_authority k)"
| "event_keys (Req_Cancel_Clear k) = Some (clk_event_authority k)"
| "event_keys (Req_Cancel_Accept k) = Some (ack_event_authority k)"
| "event_keys (Req_Close_Expired k) = Some (cek_event_authority k)"

text \<open>Vectors of resolvers that fit the format.\<close>

fun request_fits :: "request \<Rightarrow> bool" where
  "request_fits (Req_Initialize_Config _ args) = vec_fits (ia_resolvers args)"
| "request_fits (Req_Update_Config _ args) = opt_vec_fits (ua_resolvers args)"
| "request_fits _ = True"

lemmas discriminators =
  initialize_config_discriminator_def update_config_discriminator_def
  propose_admin_discriminator_def accept_admin_discriminator_def
  cancel_admin_transfer_discriminator_def create_wager_discriminator_def
  stake_side_discriminator_def unstake_side_discriminator_def resolve_discriminator_def
  concede_discriminator_def refund_side_discriminator_def cancel_propose_discriminator_def
  cancel_clear_discriminator_def cancel_accept_discriminator_def close_expired_discriminator_def

lemmas instructions =
  initialize_config_instruction_def update_config_instruction_def propose_admin_instruction_def
  accept_admin_instruction_def cancel_admin_transfer_instruction_def
  create_wager_instruction_def stake_side_instruction_def unstake_side_instruction_def
  resolve_instruction_def concede_instruction_def refund_side_instruction_def
  cancel_propose_instruction_def cancel_clear_instruction_def cancel_accept_instruction_def
  close_expired_instruction_def

lemmas account_readers =
  read_initialize_config_def read_update_config_def read_propose_admin_def read_accept_admin_def
  read_cancel_admin_transfer_def read_create_wager_def read_stake_side_def read_unstake_side_def
  read_resolve_def read_concede_def read_refund_side_def read_cancel_propose_def
  read_cancel_clear_def read_cancel_accept_def read_close_expired_def optional_key_def

text \<open>
  The request names the event authority, and the program is among its accounts. The two
  instructions that log no event need neither.
\<close>

definition logs_events :: "env \<Rightarrow> borsh \<Rightarrow> request \<Rightarrow> account_meta list \<Rightarrow> bool" where
  "logs_events E B q r \<longleftrightarrow> (case event_keys q of
     None \<Rightarrow> True
   | Some k \<Rightarrow> event_cpi_ok E k (map am_key (ix_accounts (build B q r))))"

section \<open>The two sides agree\<close>

lemma addresses_agree: "DECLARED_ID = PROGRAM_ID"
  by (simp add: DECLARED_ID_def PROGRAM_ID_def)

context wire_format
begin

lemmas get_put_all = get_put get_put_create_wager_args get_put_initialize_config_args
  get_put_update_config_args

lemmas get_put_end = get_put_all [where rest = "[]", simplified]

lemma request_decoded:
  assumes "request_fits q"
  shows "decode sha256 E B (build B q r) = (if logs_events E B q r then Some (meant q) else None)"
  using assms
  by (cases q) (simp_all add: decode_def instructions built_metas built_data account_readers
      with_data_def discriminators sighashes get_put_end logs_events_def addresses_agree Let_def)

end

section \<open>Flags\<close>

definition signer_keys :: "wire_instruction \<Rightarrow> pubkey set" where
  "signer_keys ix = {am_key m | m. m \<in> set (ix_accounts ix) \<and> am_signer m}"

definition writable_keys :: "wire_instruction \<Rightarrow> pubkey set" where
  "writable_keys ix = {am_key m | m. m \<in> set (ix_accounts ix) \<and> am_writable m}"

definition flagged_signers :: "account_meta list \<Rightarrow> pubkey set" where
  "flagged_signers ms = set (map am_key (filter am_signer ms))"

definition flagged_writable :: "account_meta list \<Rightarrow> pubkey set" where
  "flagged_writable ms = set (map am_key (filter am_writable ms))"

lemma signer_keys_flagged: "signer_keys ix = flagged_signers (ix_accounts ix)"
  by (auto simp: signer_keys_def flagged_signers_def)

lemma writable_keys_flagged: "writable_keys ix = flagged_writable (ix_accounts ix)"
  by (auto simp: writable_keys_def flagged_writable_def)

text \<open>The metas a request sends, without the bytes.\<close>

fun request_signers :: "request \<Rightarrow> pubkey set" where
  "request_signers (Req_Initialize_Config k _) = {ick_authority k}"
| "request_signers (Req_Update_Config k _) = {uck_admin k}"
| "request_signers (Req_Propose_Admin k _) = {pak_admin k}"
| "request_signers (Req_Accept_Admin k) = {aak_new_admin k}"
| "request_signers (Req_Cancel_Admin_Transfer k) = {ctk_admin k}"
| "request_signers (Req_Create_Wager k _) = {cwk_payer k}"
| "request_signers (Req_Stake_Side k) = {ssk_staker k, ssk_payer k}"
| "request_signers (Req_Unstake_Side k) = {usk_staker k}"
| "request_signers (Req_Resolve k _) = {rsk_resolver k}"
| "request_signers (Req_Concede k) = {cck_conceder k}"
| "request_signers (Req_Refund_Side k) = {rfk_cranker k}"
| "request_signers (Req_Cancel_Propose k) = {cpk_participant k}"
| "request_signers (Req_Cancel_Clear k) = {clk_participant k}"
| "request_signers (Req_Cancel_Accept k) = {ack_acceptor k}"
| "request_signers (Req_Close_Expired k) = {cek_cranker k}"

fun request_writable :: "request \<Rightarrow> pubkey set" where
  "request_writable (Req_Initialize_Config k _) = {ick_authority k, ick_config k}"
| "request_writable (Req_Update_Config k _) = {uck_config k}"
| "request_writable (Req_Propose_Admin k _) = {pak_admin k, pak_admin_transfer k}"
| "request_writable (Req_Accept_Admin k) =
    {aak_config k, aak_admin_transfer k, aak_previous_admin k}"
| "request_writable (Req_Cancel_Admin_Transfer k) = {ctk_admin k, ctk_admin_transfer k}"
| "request_writable (Req_Create_Wager k _) = {cwk_payer k, cwk_wager k, cwk_vault k}"
| "request_writable (Req_Stake_Side k) =
    {ssk_payer k, ssk_config k, ssk_wager k, ssk_counter k, ssk_staker_token k, ssk_vault k}"
| "request_writable (Req_Unstake_Side k) =
    {usk_config k, usk_wager k, usk_counter k, usk_staker_token k, usk_vault k}"
| "request_writable (Req_Resolve k _) =
    {rsk_config k, rsk_wager k, rsk_winner_token k, rsk_fee_token k, rsk_vault k, rsk_counter_a k, rsk_counter_b k, rsk_rent_collector k}"
| "request_writable (Req_Concede k) =
    {cck_config k, cck_wager k, cck_winner_token k, cck_fee_token k, cck_vault k, cck_counter_a k, cck_counter_b k, cck_rent_collector k}"
| "request_writable (Req_Refund_Side k) =
    {rfk_config k, rfk_wager k, rfk_side_token k, rfk_counter k, rfk_vault k}"
| "request_writable (Req_Cancel_Propose k) = {cpk_wager k}"
| "request_writable (Req_Cancel_Clear k) = {clk_wager k}"
| "request_writable (Req_Cancel_Accept k) =
    {ack_config k, ack_wager k, ack_side_a_token k, ack_side_b_token k, ack_counter_a k, ack_counter_b k, ack_fee_token k, ack_vault k, ack_rent_collector k}"
| "request_writable (Req_Close_Expired k) =
    {cek_wager k, cek_vault k, cek_fee_token k, cek_rent_collector k}"

lemma build_signers: "signer_keys (build B q r) = request_signers q \<union> flagged_signers r"
  by (cases q) (simp_all add: signer_keys_flagged flagged_signers_def instructions built_metas)

lemma build_writable: "writable_keys (build B q r) = request_writable q \<union> flagged_writable r"
  by (cases q) (auto simp: writable_keys_flagged flagged_writable_def instructions built_metas)

end
