(* ===== verification/Footprint.thy ===== *)
theory Footprint
  imports Program
begin

text \<open>
  What an instruction may write, and whose signatures it asks for. The accounts structs declare
  both: \<^verbatim>\<open>mut\<close>, \<^verbatim>\<open>init\<close> and \<^verbatim>\<open>close\<close> mark the accounts an instruction may write (\<open>mutable_keys\<close>), and the
  type \<^verbatim>\<open>Signer\<close> those that have to sign (\<open>signer_fields\<close>). Every handler stays within the first and
  looks at no signature but the second.
\<close>

section \<open>The declarations\<close>

fun mutable_keys :: "call \<Rightarrow> pubkey set" where
  "mutable_keys (Initialize_Config a _) = {ic_authority a, ic_config a}"
| "mutable_keys (Update_Config a _) = {uc_config a}"
| "mutable_keys (Create_Wager a _) = {cw_payer a, cw_wager a, cw_vault a}"
| "mutable_keys (Stake_Side a) =
    {ss_payer a, ss_config a, ss_wager a, ss_counter a, ss_staker_token a, ss_vault a}"
| "mutable_keys (Unstake_Side a) =
    {us_config a, us_wager a, us_counter a, us_staker_token a, us_vault a}"
| "mutable_keys (Propose_Admin a _) = {pa_admin a, pa_admin_transfer a}"
| "mutable_keys (Accept_Admin a) = {aa_config a, aa_admin_transfer a, aa_previous_admin a}"
| "mutable_keys (Cancel_Admin_Transfer a) = {ct_admin a, ct_admin_transfer a}"
| "mutable_keys (Resolve a _) =
    {rs_config a, rs_wager a, rs_winner_token a, rs_fee_token a, rs_vault a, rs_counter_a a,
     rs_counter_b a, rs_rent_collector a}"
| "mutable_keys (Concede a) =
    {cc_config a, cc_wager a, cc_winner_token a, cc_fee_token a, cc_vault a, cc_counter_a a,
     cc_counter_b a, cc_rent_collector a}"
| "mutable_keys (Refund_Side a) =
    {rf_config a, rf_wager a, rf_side_token a, rf_counter a, rf_vault a}"
| "mutable_keys (Cancel_Propose a) = {cp_wager a}"
| "mutable_keys (Cancel_Clear a) = {cl_wager a}"
| "mutable_keys (Cancel_Accept a) =
    {ac_config a, ac_wager a, ac_side_a_token a, ac_side_b_token a, ac_counter_a a,
     ac_counter_b a, ac_fee_token a, ac_vault a, ac_rent_collector a}"
| "mutable_keys (Close_Expired a) =
    {ce_wager a, ce_vault a, ce_rent_collector a} \<union> set_option (ce_fee_token a)"

fun signer_fields :: "call \<Rightarrow> pubkey set" where
  "signer_fields (Initialize_Config a _) = {ic_authority a}"
| "signer_fields (Update_Config a _) = {uc_admin a}"
| "signer_fields (Create_Wager a _) = {cw_payer a}"
| "signer_fields (Stake_Side a) = {ss_staker a, ss_payer a}"
| "signer_fields (Unstake_Side a) = {us_staker a}"
| "signer_fields (Propose_Admin a _) = {pa_admin a}"
| "signer_fields (Accept_Admin a) = {aa_new_admin a}"
| "signer_fields (Cancel_Admin_Transfer a) = {ct_admin a}"
| "signer_fields (Resolve a _) = {rs_resolver a}"
| "signer_fields (Concede a) = {cc_conceder a}"
| "signer_fields (Refund_Side a) = {rf_cranker a}"
| "signer_fields (Cancel_Propose a) = {cp_participant a}"
| "signer_fields (Cancel_Clear a) = {cl_participant a}"
| "signer_fields (Cancel_Accept a) = {ac_acceptor a}"
| "signer_fields (Close_Expired a) = {ce_cranker a}"

section \<open>What changed\<close>

text \<open>The addresses whose data, token account or lamports differ.\<close>

definition ledger_touched :: "ledger \<Rightarrow> ledger \<Rightarrow> pubkey set" where
  "ledger_touched L L' = {k. tokens L' k \<noteq> tokens L k \<or> lamports L' k \<noteq> lamports L k}"

definition touched :: "world \<Rightarrow> world \<Rightarrow> pubkey set" where
  "touched W W' = {k. accts W' k \<noteq> accts W k} \<union> ledger_touched (ledger W) (ledger W')"

named_theorems touch_rules \<open>what the parts of an instruction touch\<close>

lemma ledger_touched_refl [touch_rules]: "ledger_touched L L \<subseteq> S"
  by (simp add: ledger_touched_def)

lemma ledger_touched_trans:
  "ledger_touched L L1 \<subseteq> S \<Longrightarrow> ledger_touched L1 L2 \<subseteq> S \<Longrightarrow> ledger_touched L L2 \<subseteq> S"
  by (fastforce simp: ledger_touched_def)

lemma touched_ledger [touch_rules]:
  "ledger_touched (ledger W) L \<subseteq> S \<Longrightarrow> touched W (W\<lparr>ledger := L\<rparr>) \<subseteq> S"
  by (simp add: touched_def)

lemma touched_put [touch_rules]:
  "k \<in> S \<Longrightarrow> touched W W1 \<subseteq> S \<Longrightarrow> touched W (put_acct k d W1) \<subseteq> S"
  by (auto simp: touched_def)

lemma touched_emit [touch_rules]: "touched W W1 \<subseteq> S \<Longrightarrow> touched W (emit_cpi e W1) \<subseteq> S"
  by (simp add: touched_def)

lemma touched_refl [touch_rules]: "touched W W \<subseteq> S"
  by (simp add: touched_def ledger_touched_def)

lemma touched_close [touch_rules]:
  "k \<in> S \<Longrightarrow> d \<in> S \<Longrightarrow> touched W W1 \<subseteq> S \<Longrightarrow> touched W (close_acct k d W1) \<subseteq> S"
  by (auto simp: touched_def ledger_touched_def drain_lamports_def split: if_splits)

context runtime
begin

lemma transfer_touches:
  assumes "spl_transfer E f t a n L = Inr L'" "f \<in> S" "t \<in> S"
  shows "ledger_touched L L' \<subseteq> S"
proof
  fix x assume "x \<in> ledger_touched L L'"
  then have "x = f \<or> x = t"
    using transfer_tokens [OF assms(1)] transfer_frame [OF assms(1), of x]
    by (auto simp: ledger_touched_def move_tokens_other)
  with assms(2,3) show "x \<in> S" by auto
qed

lemma payment_touches:
  assumes "(if 0 < n then transfer_with_seeds E s a f t n L else Inr L) = Inr L'"
    "f \<in> S" "0 < n \<Longrightarrow> t \<in> S"
  shows "ledger_touched L L' \<subseteq> S"
proof (cases "0 < n")
  case True
  with assms(1) have "spl_transfer E f t a n L = Inr L'" by (simp add: transfer_with_seeds_Inr)
  then show ?thesis by (rule transfer_touches) (use assms True in simp_all)
next
  case False
  with assms(1) show ?thesis by (simp add: ledger_touched_refl)
qed

lemma close_touches:
  assumes "spl_close_account E k d a L = Inr L'" "k \<in> S" "d \<in> S"
  shows "ledger_touched L L' \<subseteq> S"
  using close_effect [OF assms(1)] assms(2,3)
  by (auto simp: ledger_touched_def drain_lamports_def split: if_splits)

lemma create_account_touches:
  assumes "create_account E p k n L = Inr L'" "p \<in> S" "k \<in> S"
  shows "ledger_touched L L' \<subseteq> S"
  using create_account_effect [OF assms(1)] assms(2,3) by (auto simp: ledger_touched_def)

lemma create_ata_touches:
  assumes "create_ata E p wallet m L = Inr L'" "p \<in> S" "ata_address E wallet m \<in> S"
  shows "ledger_touched L L' \<subseteq> S"
  using create_ata_effect [OF assms(1)] assms(2,3)
  by (auto simp: ledger_touched_def split: if_splits)

lemma pay_winner_touches:
  assumes "pay_winner_and_close_vault E wk seeds vault wt ft rc p f L = Inr (surplus, L')"
    "{vault, wt, ft, rc} \<subseteq> S"
  shows "ledger_touched L L' \<subseteq> S"
proof -
  obtain L1 L2 L3 where
    "spl_transfer E vault wt wk p L = Inr L1"
    "(if 0 < f then transfer_with_seeds E seeds wk vault ft f L1 else Inr L1) = Inr L2"
    "(if 0 < surplus then transfer_with_seeds E seeds wk vault ft surplus L2 else Inr L2) = Inr L3"
    "spl_close_account E vault rc wk L3 = Inr L'"
    using assms(1) by (auto simp: pay_winner_and_close_vault_def Let_def result_simps)
  then show ?thesis
    using assms(2) transfer_touches payment_touches close_touches
    by (meson insert_subset ledger_touched_trans)
qed

text \<open>The accounts created on demand.\<close>

lemma init_transfer_touches:
  assumes "init_if_needed_transfer E p k s W = Inr (t, W1)" "p \<in> S" "k \<in> S"
  shows "touched W W1 \<subseteq> S"
  using assms(1) unfolding init_if_needed_transfer_Inr
proof (elim conjE disjE exE)
  fix L assume "create_account E p k (8 + ADMIN_TRANSFER_INIT_SPACE) (ledger W) = Inr L"
    and W1: "W1 = W\<lparr>ledger := L\<rparr>"
  then show ?thesis
    unfolding W1 by (intro touched_ledger create_account_touches [OF _ assms(2,3)])
qed (simp add: touched_refl)

lemma init_counter_touches:
  assumes "init_if_needed_counter E p k s W = Inr (x, W1)" "p \<in> S" "k \<in> S"
  shows "touched W W1 \<subseteq> S"
  using assms(1) unfolding init_if_needed_counter_Inr
proof (elim conjE disjE exE)
  fix L assume "create_account E p k (8 + COUNTER_INIT_SPACE) (ledger W) = Inr L"
    and W1: "W1 = W\<lparr>ledger := L\<rparr>"
  then show ?thesis
    unfolding W1 by (intro touched_ledger create_account_touches [OF _ assms(2,3)])
qed (simp add: touched_refl)

lemma init_ata_touches:
  assumes "init_if_needed_ata E p k m wallet W1 = Inr W2" "touched W W1 \<subseteq> S" "p \<in> S" "k \<in> S"
  shows "touched W W2 \<subseteq> S"
  using assms(1) unfolding init_if_needed_ata_Inr
proof (elim conjE disjE exE)
  fix L assume "create_ata E p wallet m (ledger W1) = Inr L" and k: "k = ata_address E wallet m"
    and W2: "W2 = W1\<lparr>ledger := L\<rparr>"
  then have "ledger_touched (ledger W1) L \<subseteq> S"
    using create_ata_touches [OF _ assms(3)] assms(4) by simp
  with assms(2) W2 show ?thesis
    using ledger_touched_trans [of "ledger W" "ledger W1" S L] by (simp add: touched_def)
qed (use assms(2) in simp)

section \<open>The handlers stay within\<close>

lemma initialize_config_touches:
  assumes "handle_initialize_config E sg a args W = Inr W'"
  shows "touched W W' \<subseteq> {ic_authority a, ic_config a}"
  using assms
  by (rule initialize_config_success)
    (hypsubst, intro touch_rules, simp, rule create_account_touches, assumption; simp)

lemma update_config_touches:
  assumes "handle_update_config E sg a args W = Inr W'"
  shows "touched W W' \<subseteq> {uc_config a}"
  using assms by (rule update_config_success) (hypsubst, intro touch_rules, simp)

lemma propose_admin_touches:
  assumes "handle_propose_admin E sg a new_admin W = Inr W'"
  shows "touched W W' \<subseteq> {pa_admin a, pa_admin_transfer a}"
  using assms
proof (rule propose_admin_success)
  fix c t W1
  assume "validate_propose_admin E sg a W = Inr (c, t, W1)"
    and W': "W' = put_acct (pa_admin_transfer a)
      (TransferAcc \<lparr>at_proposed = new_admin, at_bump = snd (find_pda E admin_transfer_seeds)\<rparr>)
      (emit_cpi (AdminTransferProposed new_admin) W1)"
  then have "init_if_needed_transfer E (pa_admin a) (pa_admin_transfer a) admin_transfer_seeds W =
      Inr (t, W1)" unfolding validate_propose_admin_Inr by (elim conjE)
  then have "touched W W1 \<subseteq> {pa_admin a, pa_admin_transfer a}"
    by (rule init_transfer_touches) simp_all
  then show ?thesis unfolding W' by (intro touch_rules) simp_all
qed

lemma accept_admin_touches:
  assumes "handle_accept_admin E sg a W = Inr W'"
  shows "touched W W' \<subseteq> {aa_config a, aa_admin_transfer a, aa_previous_admin a}"
  using assms
  by (rule accept_admin_success)
    (hypsubst, intro touch_rules; simp add: validate_accept_admin_Inr)

lemma cancel_admin_transfer_touches:
  assumes "handle_cancel_admin_transfer E sg a W = Inr W'"
  shows "touched W W' \<subseteq> {ct_admin a, ct_admin_transfer a}"
  using assms
  by (rule cancel_admin_transfer_success) (hypsubst, intro touch_rules; simp)

lemma create_wager_touches:
  assumes "handle_create_wager E sg a args W = Inr W'"
  shows "touched W W' \<subseteq> {cw_payer a, cw_wager a, cw_vault a}"
  using assms
proof (rule create_wager_success)
  let ?S = "{cw_payer a, cw_wager a, cw_vault a}"
  fix c W2
  assume v: "validate_create_wager E sg a args W = Inr (c, W2)"
    and W': "W' = put_acct (cw_wager a) (WagerAcc (new_wager E c args))
      (emit_cpi (WagerCreated (cw_wager a) (ca_side_a args) (ca_side_b args) (ca_stake args)
        (c_mint c) (ca_resolver args) (ca_terms_hash args) (ca_deadline_fund args)
        (ca_deadline_resolve args) (ca_nonce args)) W2)"
  obtain W1 where w: "init_account E (cw_payer a) (cw_wager a) (8 + WAGER_INIT_SPACE) W = Inr W1"
    and t: "init_if_needed_ata E (cw_payer a) (cw_vault a) (cw_mint a) (cw_wager a) W1 = Inr W2"
    using v by (auto simp: validate_create_wager_Inr)
  have "touched W W1 \<subseteq> ?S"
    using w create_account_touches [of "cw_payer a" "cw_wager a" _ "ledger W" _ ?S]
    by (auto simp: init_account_Inr intro: touched_ledger [THEN subsetD])
  then have "touched W W2 \<subseteq> ?S" using init_ata_touches [OF t] by simp
  then show ?thesis unfolding W' by (intro touch_rules) simp_all
qed

lemma stake_side_touches:
  assumes "handle_stake_side E sg a W = Inr W'"
  shows "touched W W' \<subseteq>
    {ss_payer a, ss_config a, ss_wager a, ss_counter a, ss_staker_token a, ss_vault a}" (is "_ \<subseteq> ?S")
  using assms
proof (rule stake_side_success)
  fix c w x W1 L
  assume "validate_stake_side E sg a W = Inr (c, w, x, W1)"
    and t: "spl_transfer E (ss_staker_token a) (ss_vault a) (ss_staker a) (w_stake w)
      (ledger W1) = Inr L"
    and W': "W' = put_acct (ss_counter a) (CounterAcc (x\<lparr>x_count := x_count x + 1,
        x_bump := snd (find_pda E (counter_seeds (ss_staker a)))\<rparr>))
      (put_acct (ss_wager a) (WagerAcc (stake_in (ss_staker a) w))
      (put_acct (ss_config a) (ConfigAcc (c\<lparr>c_total_open_value :=
        c_total_open_value c + w_stake w\<rparr>))
      (emit_cpi (SideStaked (ss_wager a) (ss_staker a) (ss_staker a = w_side_a w) (w_stake w)
        (w_state (stake_in (ss_staker a) w) = Active))
        (W1\<lparr>ledger := L\<rparr>))))"
  then have "init_if_needed_counter E (ss_payer a) (ss_counter a) (counter_seeds (ss_staker a)) W =
      Inr (x, W1)" by (simp add: validate_stake_side_Inr)
  then have "touched W W1 \<subseteq> ?S" by (rule init_counter_touches) simp_all
  moreover have "ledger_touched (ledger W1) L \<subseteq> ?S" by (rule transfer_touches [OF t]) simp_all
  ultimately have "touched W (W1\<lparr>ledger := L\<rparr>) \<subseteq> ?S"
    using ledger_touched_trans [of "ledger W" "ledger W1" ?S L] by (simp add: touched_def)
  then show ?thesis
    unfolding W' by (intro touched_put touched_emit) simp_all
qed

lemma unstake_side_touches:
  assumes "handle_unstake_side E sg a W = Inr W'"
  shows "touched W W' \<subseteq> {us_config a, us_wager a, us_counter a, us_staker_token a, us_vault a}"
  using assms
  by (rule unstake_side_success)
    (hypsubst, intro touch_rules, simp_all, rule transfer_touches, assumption; simp)

lemma refund_side_touches:
  assumes "handle_refund_side E sg a W = Inr W'"
  shows "touched W W' \<subseteq> {rf_config a, rf_wager a, rf_side_token a, rf_counter a, rf_vault a}"
  using assms
  by (rule refund_side_success)
    (hypsubst, intro touch_rules, simp_all, rule transfer_touches, assumption; simp)

lemma cancel_propose_touches:
  assumes "handle_cancel_propose E sg a W = Inr W'"
  shows "touched W W' \<subseteq> {cp_wager a}"
  using assms by (rule cancel_propose_success) (hypsubst, intro touch_rules, simp)

lemma cancel_clear_touches:
  assumes "handle_cancel_clear E sg a W = Inr W'"
  shows "touched W W' \<subseteq> {cl_wager a}"
  using assms by (rule cancel_clear_success) (hypsubst, intro touch_rules, simp)

lemma resolve_touches:
  assumes "handle_resolve E sg a winner W = Inr W'"
  shows "touched W W' \<subseteq>
    {rs_config a, rs_wager a, rs_winner_token a, rs_fee_token a, rs_vault a, rs_counter_a a,
     rs_counter_b a, rs_rent_collector a}"
  using assms
  by (rule resolve_success)
    (hypsubst, intro touch_rules, simp_all, rule pay_winner_touches, assumption, simp)

lemma concede_touches:
  assumes "handle_concede E sg a W = Inr W'"
  shows "touched W W' \<subseteq>
    {cc_config a, cc_wager a, cc_winner_token a, cc_fee_token a, cc_vault a, cc_counter_a a,
     cc_counter_b a, cc_rent_collector a}"
  using assms
  by (rule concede_success)
    (hypsubst, intro touch_rules, simp_all, rule pay_winner_touches, assumption, simp)

lemma cancel_accept_touches:
  assumes "handle_cancel_accept E sg a W = Inr W'"
  shows "touched W W' \<subseteq>
    {ac_config a, ac_wager a, ac_side_a_token a, ac_side_b_token a, ac_counter_a a,
     ac_counter_b a, ac_fee_token a, ac_vault a, ac_rent_collector a}" (is "_ \<subseteq> ?S")
  using assms
proof (rule cancel_accept_success)
  fix c w xa xb L1 L2 v L3 L4
  assume t: "spl_transfer E (ac_vault a) (ac_side_a_token a) (ac_wager a) (w_stake w) (ledger W) = Inr L1"
      "spl_transfer E (ac_vault a) (ac_side_b_token a) (ac_wager a) (w_stake w) L1 = Inr L2"
    and p: "(if 0 < t_amount v then transfer_with_seeds E (signer_seeds w) (ac_wager a) (ac_vault a)
        (ac_fee_token a) (t_amount v) L2 else Inr L2) = Inr L3"
    and cl: "spl_close_account E (ac_vault a) (ac_rent_collector a) (ac_wager a) L3 = Inr L4"
    and W': "W' = put_acct (ac_counter_b a) (CounterAcc (xb\<lparr>x_count := saturating_sub (x_count xb) 1\<rparr>))
      (put_acct (ac_counter_a a) (CounterAcc (xa\<lparr>x_count := saturating_sub (x_count xa) 1\<rparr>))
      (close_acct (ac_wager a) (ac_rent_collector a)
      (put_acct (ac_wager a) (WagerAcc (w\<lparr>w_state := Cancelled, w_refunded_a := True,
        w_refunded_b := True\<rparr>))
      (put_acct (ac_config a) (ConfigAcc (c\<lparr>c_total_open_value :=
        saturating_sub (c_total_open_value c) (saturating_mul (w_stake w) 2)\<rparr>))
      (emit_cpi (WagerClosed (ac_wager a) (t_amount v))
      (emit_cpi (WagerCancelled (ac_wager a)) (W\<lparr>ledger := L4\<rparr>)))))))"
  have "ledger_touched (ledger W) L1 \<subseteq> ?S" by (rule transfer_touches [OF t(1)]) simp_all
  moreover have "ledger_touched L1 L2 \<subseteq> ?S" by (rule transfer_touches [OF t(2)]) simp_all
  moreover have "ledger_touched L2 L3 \<subseteq> ?S" by (rule payment_touches [OF p]) simp_all
  moreover have "ledger_touched L3 L4 \<subseteq> ?S" by (rule close_touches [OF cl]) simp_all
  ultimately have "ledger_touched (ledger W) L4 \<subseteq> ?S" by (meson ledger_touched_trans)
  then show ?thesis unfolding W' by (intro touch_rules) simp_all
qed

lemma close_expired_touches:
  assumes "handle_close_expired E sg a W = Inr W'"
  shows "touched W W' \<subseteq>
    {ce_wager a, ce_vault a, ce_rent_collector a} \<union> set_option (ce_fee_token a)" (is "_ \<subseteq> ?S")
  using assms
proof (rule close_expired_success)
  fix w v L1 L2
  assume fee: "0 < t_amount v \<Longrightarrow> ce_fee_token a = Some (w_fee_destination w)"
    and p: "(if 0 < t_amount v then transfer_with_seeds E (signer_seeds w) (ce_wager a) (ce_vault a)
        (w_fee_destination w) (t_amount v) (ledger W) else Inr (ledger W)) = Inr L1"
    and cl: "spl_close_account E (ce_vault a) (ce_rent_collector a) (ce_wager a) L1 = Inr L2"
    and W': "W' = close_acct (ce_wager a) (ce_rent_collector a)
      (emit_cpi (WagerClosed (ce_wager a) (t_amount v)) (W\<lparr>ledger := L2\<rparr>))"
  have "ledger_touched (ledger W) L1 \<subseteq> ?S" by (rule payment_touches [OF p]) (simp_all add: fee)
  moreover have "ledger_touched L1 L2 \<subseteq> ?S" by (rule close_touches [OF cl]) simp_all
  ultimately have "ledger_touched (ledger W) L2 \<subseteq> ?S" by (rule ledger_touched_trans)
  then show ?thesis unfolding W' by (intro touch_rules) simp_all
qed

lemmas handlers_touch = initialize_config_touches update_config_touches create_wager_touches
  stake_side_touches unstake_side_touches propose_admin_touches accept_admin_touches
  cancel_admin_transfer_touches resolve_touches concede_touches refund_side_touches
  cancel_propose_touches cancel_clear_touches cancel_accept_touches close_expired_touches

lemma exec_touches: "exec E sg c W = Inr W' \<Longrightarrow> touched W W' \<subseteq> mutable_keys c"
  by (cases c) (simp_all only: exec.simps mutable_keys.simps handlers_touch)

end

section \<open>Signatures\<close>

text \<open>A handler gives the same result whatever other signatures the transaction has.\<close>

lemma admin_signers:
  "ic_authority a \<in> S \<Longrightarrow>
    handle_initialize_config E (sg \<inter> S) a iargs W = handle_initialize_config E sg a iargs W"
  "uc_admin b \<in> S \<Longrightarrow>
    handle_update_config E (sg \<inter> S) b uargs W = handle_update_config E sg b uargs W"
  "pa_admin c \<in> S \<Longrightarrow>
    handle_propose_admin E (sg \<inter> S) c n W = handle_propose_admin E sg c n W"
  "aa_new_admin d \<in> S \<Longrightarrow> handle_accept_admin E (sg \<inter> S) d W = handle_accept_admin E sg d W"
  "ct_admin e \<in> S \<Longrightarrow>
    handle_cancel_admin_transfer E (sg \<inter> S) e W = handle_cancel_admin_transfer E sg e W"
  by (simp_all add: handle_initialize_config_def validate_initialize_config_def
      handle_update_config_def validate_update_config_def handle_propose_admin_def
      validate_propose_admin_def handle_accept_admin_def validate_accept_admin_def
      handle_cancel_admin_transfer_def validate_cancel_admin_transfer_def)

lemma staking_signers:
  "cw_payer a \<in> S \<Longrightarrow>
    handle_create_wager E (sg \<inter> S) a args W = handle_create_wager E sg a args W"
  "ss_staker b \<in> S \<Longrightarrow> ss_payer b \<in> S \<Longrightarrow>
    handle_stake_side E (sg \<inter> S) b W = handle_stake_side E sg b W"
  "us_staker c \<in> S \<Longrightarrow> handle_unstake_side E (sg \<inter> S) c W = handle_unstake_side E sg c W"
  by (simp_all add: handle_create_wager_def validate_create_wager_def handle_stake_side_def
      validate_stake_side_def transfer_signed_def handle_unstake_side_def
      validate_unstake_side_def)

lemma ending_signers:
  "rs_resolver a \<in> S \<Longrightarrow>
    handle_resolve E (sg \<inter> S) a winner W = handle_resolve E sg a winner W"
  "cc_conceder b \<in> S \<Longrightarrow> handle_concede E (sg \<inter> S) b W = handle_concede E sg b W"
  "rf_cranker c \<in> S \<Longrightarrow> handle_refund_side E (sg \<inter> S) c W = handle_refund_side E sg c W"
  "ce_cranker d \<in> S \<Longrightarrow> handle_close_expired E (sg \<inter> S) d W = handle_close_expired E sg d W"
  by (simp_all add: handle_resolve_def validate_resolve_def handle_concede_def
      validate_concede_def handle_refund_side_def validate_refund_side_def
      handle_close_expired_def validate_close_expired_def)

lemma cancel_signers:
  "cp_participant a \<in> S \<Longrightarrow>
    handle_cancel_propose E (sg \<inter> S) a W = handle_cancel_propose E sg a W"
  "cl_participant b \<in> S \<Longrightarrow>
    handle_cancel_clear E (sg \<inter> S) b W = handle_cancel_clear E sg b W"
  "ac_acceptor c \<in> S \<Longrightarrow>
    handle_cancel_accept E (sg \<inter> S) c W = handle_cancel_accept E sg c W"
  by (simp_all add: handle_cancel_propose_def validate_cancel_propose_def
      handle_cancel_clear_def validate_cancel_clear_def handle_cancel_accept_def
      validate_cancel_accept_def)

lemma exec_signers: "signer_fields c \<subseteq> S \<Longrightarrow> exec E (sg \<inter> S) c W = exec E sg c W"
  by (cases c) (simp_all add: admin_signers staking_signers ending_signers cancel_signers)

lemma exec_signed: "exec E sg c W = Inr W' \<Longrightarrow> signer_fields c \<subseteq> sg"
  by (cases c) (auto elim!: initialize_config_success update_config_success
      propose_admin_success accept_admin_success cancel_admin_transfer_success
      create_wager_success stake_side_success unstake_side_success resolve_success
      concede_success refund_side_success close_expired_success cancel_propose_success
      cancel_clear_success cancel_accept_success
      simp: validate_update_config_Inr validate_propose_admin_Inr validate_accept_admin_Inr
      validate_cancel_admin_transfer_Inr validate_create_wager_Inr validate_stake_side_Inr
      validate_unstake_side_Inr validate_resolve_Inr validate_concede_Inr
      validate_refund_side_Inr validate_close_expired_Inr validate_cancel_propose_Inr
      validate_cancel_clear_Inr validate_cancel_accept_Inr)

end
