(* ===== verification/Delivery.thy ===== *)
theory Delivery
  imports Dispatch Footprint Scenario
begin

text \<open>
  The client and the program together: a request built by the client arrives as the call it
  stands for, under the signatures and within the writable accounts its metas ask for.
\<close>

section \<open>Delivery\<close>

text \<open>
  The runtime hands an instruction the signatures its metas flag, of those the transaction has.
  An account declared as mutable has to be flagged as writable; otherwise, and when the bytes do
  not decode, the instruction is refused.
\<close>

definition deliver ::
  "(bytes \<Rightarrow> bytes) \<Rightarrow> env \<Rightarrow> borsh \<Rightarrow> pubkey set \<Rightarrow> wire_instruction \<Rightarrow> world \<Rightarrow>
    (error + world) option"
where
  "deliver H E B sg ix W = (case decode H E B ix of
     None \<Rightarrow> None
   | Some c \<Rightarrow> if mutable_keys c \<subseteq> writable_keys ix then Some (exec E (sg \<inter> signer_keys ix) c W)
       else None)"

text \<open>The flags of the client are those of the program's declarations.\<close>

lemma request_signers_declared: "request_signers q = signer_fields (meant q)"
  by (cases q) simp_all

lemma request_writable_declared: "mutable_keys (meant q) \<subseteq> request_writable q"
  by (cases q) auto

lemma deliver_built:
  assumes "wire_format B" "request_fits q"
  shows "deliver sha256 E B sg (build B q r) W =
    (if logs_events E B q r then Some (exec E sg (meant q) W) else None)"
  using wire_format.request_decoded [OF assms]
  using request_writable_declared [of q]
  by (simp add: deliver_def exec_signers build_signers build_writable request_signers_declared
      le_supI1)

section \<open>A request of the scenario\<close>

definition resolve_request :: "pubkey \<Rightarrow> request" where
  "resolve_request authority = Req_Resolve
    \<lparr>rsk_resolver = judge, rsk_config = config1, rsk_wager = wager1, rsk_winner = alice,
     rsk_winner_token = usd_of alice, rsk_fee_token = usd_of treasury, rsk_vault = vault1,
     rsk_counter_a = counter_of alice, rsk_counter_b = counter_of bob,
     rsk_rent_collector = collector, rsk_event_authority = authority, rsk_program = PROGRAM_ID\<rparr> alice"

lemma resolve_request_meant [simp]: "meant (resolve_request k) = Resolve (resolve_args alice) alice"
  by (simp add: resolve_request_def resolve_args_def)

lemma resolve_request_fits [simp]: "request_fits (resolve_request k)"
  by (simp add: resolve_request_def)

lemma resolve_request_logs [simp]:
  "logs_events ref_env ref_borsh (resolve_request k) [] \<longleftrightarrow> k = event_authority ref_env"
  by (auto simp: logs_events_def event_cpi_ok_def resolve_request_def instructions built_metas
      addresses_agree)

lemma event_authority_even: "event_authority ref_env \<noteq> 7"
  by (simp add: event_authority_def EVENT_AUTHORITY_SEED_def byte_string_def ref_pda_def
      ref_hash_def)

lemma resolve_request_runs: "\<exists>W'. exec ref_env people (meant (resolve_request k)) world_locked = Inr W'"
  using resolve_runs by simp

section \<open>Properties\<close>

text \<open>
  C15. A request built by the client, with whatever accounts appended, is decoded by the program as
  the call it stands for, every account under its own name and the argument unchanged, and is
  executed as that call, refused neither for a signature nor for an account it did not flag;
  provided that it names the event authority and the program, where the instruction logs events.
  Otherwise it is refused. The discriminators of the program are hashed, those of the client literals.
\<close>

theorem requests_arrive:
  assumes "wire_format B" "request_fits q"
  shows "decode sha256 E B (build B q r) = (if logs_events E B q r then Some (meant q) else None) \<and>
    deliver sha256 E B sg (build B q r) W =
      (if logs_events E B q r then Some (exec E sg (meant q) W) else None)"
  using wire_format.request_decoded [OF assms] deliver_built [OF assms] by blast

theorem requests_arrive_witness:
  "deliver sha256 ref_env ref_borsh people
      (build ref_borsh (resolve_request (event_authority ref_env)) []) world_locked =
      Some (handle_resolve ref_env people (resolve_args alice) alice world_locked) \<and>
    deliver sha256 ref_env ref_borsh people (build ref_borsh (resolve_request 7) []) world_locked =
      None"
  using requests_arrive [OF ref_wire.wire_format_axioms resolve_request_fits, of ref_env _ "[]" people
    world_locked] event_authority_even by simp

text \<open>
  C18. The flags of the client's metas are right: an instruction it builds succeeds only under all the
  signatures it flags, and changes the data, the token account and the lamports of no address but
  those it flags as writable.
\<close>

theorem flags_are_right:
  assumes "chain E" "exec E sg (meant q) W = Inr W'"
  shows "signer_keys (build B q []) \<subseteq> sg \<and> touched W W' \<subseteq> writable_keys (build B q [])"
  using exec_signed [OF assms(2)] request_writable_declared
    runtime.exec_touches [OF chain.axioms(1) [OF assms(1)] assms(2)]
  by (auto simp: build_signers build_writable request_signers_declared
      flagged_signers_def flagged_writable_def)

theorem flags_are_right_witness:
  "\<exists>W'. exec ref_env people (meant (resolve_request (event_authority ref_env))) world_locked = Inr W' \<and>
    signer_keys (build ref_borsh (resolve_request (event_authority ref_env)) []) \<subseteq> people \<and>
    touched world_locked W' \<subseteq> writable_keys (build ref_borsh (resolve_request (event_authority ref_env)) [])"
  using resolve_request_runs flags_are_right [OF ref.chain_axioms] by blast

text \<open>
  C24. An instruction writes only the accounts its struct declares as mutable, initialized or closed:
  data, token accounts and lamports of every other address stay. It needs the signatures of the
  accounts declared as signers, and looks at no other.
\<close>

theorem writes_are_declared:
  assumes "chain E" "exec E sg c W = Inr W'"
  shows "touched W W' \<subseteq> mutable_keys c \<and> signer_fields c \<subseteq> sg \<and>
    exec E (signer_fields c) c W = Inr W'"
proof -
  have sub: "signer_fields c \<subseteq> sg" by (rule exec_signed [OF assms(2)])
  then have "sg \<inter> signer_fields c = signer_fields c" by blast
  then show ?thesis
    using sub exec_signers [OF order_refl, of E sg c W] assms(2)
      runtime.exec_touches [OF chain.axioms(1) [OF assms(1)] assms(2)] by simp
qed

theorem writes_are_declared_witness:
  "touched world_open world_half \<subseteq> mutable_keys (stake_call alice) \<and>
    exec ref_env (signer_fields (stake_call alice)) (stake_call alice) world_open = Inr world_half"
  using writes_are_declared [OF ref.chain_axioms run_half] by blast

end
