(* ===== verification/Storage.thy ===== *)
theory Storage
  imports Footprint Reference_Wire Scenario
begin

text \<open>
  The space of the program's accounts. An account is created with the space its \<^verbatim>\<open>init\<close> attribute
  asks for, and keeps that space: what a handler writes later has to fit it. Every handler is
  followed through the accounts it creates and rewrites; that the space asked for is the length of
  the bytes written is then a fact about the format.
\<close>

section \<open>Created with the right space, rewritten in place\<close>

text \<open>
  The bytes of an account's data are preceded by eight bytes of discriminator.
\<close>

definition fills :: "env \<Rightarrow> pubkey set \<Rightarrow> world \<Rightarrow> world \<Rightarrow> bool" where
  "fills E sg W W' \<longleftrightarrow> (\<forall>k d. accts W' k = Some d \<longrightarrow> (case accts W k of
     None \<Rightarrow> \<exists>p \<in> sg. \<exists>L. create_account E p k (8 + account_space d) (ledger W) = Inr L
   | Some d0 \<Rightarrow> account_space d = account_space d0))"

named_theorems fill_rules \<open>how the parts of an instruction use the space of accounts\<close>

lemma fills_same [fill_rules]: "accts W' = accts W \<Longrightarrow> fills E sg W W'"
  by (simp add: fills_def split: option.split)

lemma fills_ledger [fill_rules]: "fills E sg W W1 \<Longrightarrow> fills E sg W (W1\<lparr>ledger := L\<rparr>)"
  by (simp add: fills_def)

lemma fills_emit [fill_rules]: "fills E sg W W1 \<Longrightarrow> fills E sg W (emit_cpi e W1)"
  by (simp add: fills_def)

lemma fills_close [fill_rules]: "fills E sg W W1 \<Longrightarrow> fills E sg W (close_acct k dest W1)"
  by (simp add: fills_def)

lemma fills_put:
  "accts W k = Some d0 \<Longrightarrow> account_space d = account_space d0 \<Longrightarrow> fills E sg W W1 \<Longrightarrow>
    fills E sg W (put_acct k d W1)"
  by (simp add: fills_def)

lemma fills_rewrite [fill_rules]:
  "accts W k = Some (ConfigAcc c) \<Longrightarrow> fills E sg W W1 \<Longrightarrow>
    fills E sg W (put_acct k (ConfigAcc c') W1)"
  "accts W k = Some (WagerAcc w) \<Longrightarrow> fills E sg W W1 \<Longrightarrow>
    fills E sg W (put_acct k (WagerAcc w') W1)"
  "accts W k = Some (TransferAcc t) \<Longrightarrow> fills E sg W W1 \<Longrightarrow>
    fills E sg W (put_acct k (TransferAcc t') W1)"
  "accts W k = Some (CounterAcc x) \<Longrightarrow> fills E sg W W1 \<Longrightarrow>
    fills E sg W (put_acct k (CounterAcc x') W1)"
  by (simp_all add: fills_put)

lemma fills_new:
  "accts W k = None \<Longrightarrow> p \<in> sg \<Longrightarrow>
    create_account E p k (8 + account_space d) (ledger W) = Inr L \<Longrightarrow> fills E sg W W1 \<Longrightarrow>
    fills E sg W (put_acct k d W1)"
  by (auto simp: fills_def)

section \<open>The handlers\<close>

lemma initialize_config_fills:
  "handle_initialize_config E sg a args W = Inr W' \<Longrightarrow> fills E sg W W'"
  by (erule initialize_config_success)
    (hypsubst, rule fills_new [where p = "ic_authority a"]; simp add: fills_same)

lemma update_config_fills:
  "handle_update_config E sg a args W = Inr W' \<Longrightarrow> fills E sg W W'"
  by (erule update_config_success)
    (hypsubst, intro fill_rules; simp add: validate_update_config_Inr)

lemma propose_admin_fills:
  assumes "handle_propose_admin E sg a new_admin W = Inr W'"
  shows "fills E sg W W'"
  using assms
proof (rule propose_admin_success)
  fix c t W1
  assume v: "validate_propose_admin E sg a W = Inr (c, t, W1)"
    and W': "W' = put_acct (pa_admin_transfer a)
      (TransferAcc \<lparr>at_proposed = new_admin, at_bump = snd (find_pda E admin_transfer_seeds)\<rparr>)
      (emit_cpi (AdminTransferProposed new_admin) W1)"
  from v have sig: "pa_admin a \<in> sg" and init: "init_if_needed_transfer E (pa_admin a)
      (pa_admin_transfer a) admin_transfer_seeds W = Inr (t, W1)"
    unfolding validate_propose_admin_Inr by blast+
  from init have "fills E sg W W1" by (auto simp: init_if_needed_transfer_Inr intro: fills_same)
  then have rest: "fills E sg W (emit_cpi (AdminTransferProposed new_admin) W1)"
    by (rule fills_emit)
  from init consider
      L where "accts W (pa_admin_transfer a) = None" "create_account E (pa_admin a)
        (pa_admin_transfer a) (8 + ADMIN_TRANSFER_INIT_SPACE) (ledger W) = Inr L"
    | "accts W (pa_admin_transfer a) = Some (TransferAcc t)"
    by (auto simp: init_if_needed_transfer_Inr)
  then show ?thesis
    unfolding W' using rest by cases (auto intro: fills_new [OF _ sig] fills_rewrite)
qed

lemma accept_admin_fills: "handle_accept_admin E sg a W = Inr W' \<Longrightarrow> fills E sg W W'"
  by (erule accept_admin_success)
    (hypsubst, intro fill_rules; simp add: validate_accept_admin_Inr)

lemma cancel_admin_transfer_fills:
  "handle_cancel_admin_transfer E sg a W = Inr W' \<Longrightarrow> fills E sg W W'"
  by (erule cancel_admin_transfer_success)
    (hypsubst, rule fills_close, simp add: fills_same)

lemma create_wager_fills:
  assumes "handle_create_wager E sg a args W = Inr W'"
  shows "fills E sg W W'"
  using assms
proof (rule create_wager_success)
  fix c W2
  assume v: "validate_create_wager E sg a args W = Inr (c, W2)"
    and W': "W' = put_acct (cw_wager a) (WagerAcc (new_wager E c args))
      (emit_cpi (WagerCreated (cw_wager a) (ca_side_a args) (ca_side_b args) (ca_stake args)
        (c_mint c) (ca_resolver args) (ca_terms_hash args) (ca_deadline_fund args)
        (ca_deadline_resolve args) (ca_nonce args)) W2)"
  from v obtain L where "cw_payer a \<in> sg"
    "create_account E (cw_payer a) (cw_wager a) (8 + WAGER_INIT_SPACE) (ledger W) = Inr L"
    by (auto simp: validate_create_wager_Inr init_account_Inr)
  then show ?thesis
    unfolding W' using create_wager_accts [OF v]
    by (intro fills_new fills_same) simp_all
qed

lemma stake_side_fills:
  assumes "handle_stake_side E sg a W = Inr W'"
  shows "fills E sg W W'"
  using assms
proof (rule stake_side_success)
  fix c w x W1 L
  assume v: "validate_stake_side E sg a W = Inr (c, w, x, W1)"
    and W': "W' = put_acct (ss_counter a) (CounterAcc (x\<lparr>x_count := x_count x + 1,
        x_bump := snd (find_pda E (counter_seeds (ss_staker a)))\<rparr>))
      (put_acct (ss_wager a) (WagerAcc (stake_in (ss_staker a) w))
      (put_acct (ss_config a) (ConfigAcc (c\<lparr>c_total_open_value :=
        c_total_open_value c + w_stake w\<rparr>))
      (emit_cpi (SideStaked (ss_wager a) (ss_staker a) (ss_staker a = w_side_a w) (w_stake w)
        (w_state (stake_in (ss_staker a) w) = Active))
        (W1\<lparr>ledger := L\<rparr>))))" (is "_ = put_acct _ ?x ?W2")
  from v have sig: "ss_payer a \<in> sg" and init: "init_if_needed_counter E (ss_payer a)
      (ss_counter a) (counter_seeds (ss_staker a)) W = Inr (x, W1)"
    and k: "accts W (ss_wager a) = Some (WagerAcc w)" "accts W (ss_config a) = Some (ConfigAcc c)"
    by (simp_all add: validate_stake_side_Inr)
  from init have "fills E sg W W1" by (auto simp: init_if_needed_counter_Inr intro: fills_same)
  then have rest: "fills E sg W ?W2"
    by (intro fills_rewrite(1) [OF k(2)] fills_rewrite(2) [OF k(1)] fills_emit fills_ledger)
  from init consider
      L where "accts W (ss_counter a) = None" "create_account E (ss_payer a)
        (ss_counter a) (8 + COUNTER_INIT_SPACE) (ledger W) = Inr L"
    | "accts W (ss_counter a) = Some (CounterAcc x)"
    by (auto simp: init_if_needed_counter_Inr)
  then show ?thesis
    unfolding W' using rest by cases (auto intro: fills_new [OF _ sig] fills_rewrite)
qed

lemma unstake_side_fills: "handle_unstake_side E sg a W = Inr W' \<Longrightarrow> fills E sg W W'"
  by (erule unstake_side_success)
    (hypsubst, intro fill_rules; simp add: validate_unstake_side_Inr)

lemma refund_side_fills: "handle_refund_side E sg a W = Inr W' \<Longrightarrow> fills E sg W W'"
  by (erule refund_side_success)
    (hypsubst, intro fill_rules; simp add: validate_refund_side_Inr)

lemma resolve_fills: "handle_resolve E sg a winner W = Inr W' \<Longrightarrow> fills E sg W W'"
  by (erule resolve_success) (hypsubst, intro fill_rules; simp add: validate_resolve_Inr)

lemma concede_fills: "handle_concede E sg a W = Inr W' \<Longrightarrow> fills E sg W W'"
  by (erule concede_success) (hypsubst, intro fill_rules; simp add: validate_concede_Inr)

lemma cancel_propose_fills: "handle_cancel_propose E sg a W = Inr W' \<Longrightarrow> fills E sg W W'"
  by (erule cancel_propose_success)
    (hypsubst, intro fill_rules; simp add: validate_cancel_propose_Inr)

lemma cancel_clear_fills: "handle_cancel_clear E sg a W = Inr W' \<Longrightarrow> fills E sg W W'"
  by (erule cancel_clear_success)
    (hypsubst, intro fill_rules; simp add: validate_cancel_clear_Inr)

lemma cancel_accept_fills: "handle_cancel_accept E sg a W = Inr W' \<Longrightarrow> fills E sg W W'"
  by (erule cancel_accept_success)
    (hypsubst, intro fill_rules; simp add: validate_cancel_accept_Inr)

lemma close_expired_fills: "handle_close_expired E sg a W = Inr W' \<Longrightarrow> fills E sg W W'"
  by (erule close_expired_success) (hypsubst, intro fill_rules; simp)

lemmas handlers_fill = initialize_config_fills update_config_fills create_wager_fills
  stake_side_fills unstake_side_fills propose_admin_fills accept_admin_fills
  cancel_admin_transfer_fills resolve_fills concede_fills refund_side_fills
  cancel_propose_fills cancel_clear_fills cancel_accept_fills close_expired_fills

lemma exec_fills: "exec E sg c W = Inr W' \<Longrightarrow> fills E sg W W'"
  by (cases c) (simp_all only: exec.simps handlers_fill)

section \<open>The bytes\<close>

lemma stored_account_fits:
  assumes "inv E W" "accts W k = Some d"
  shows "account_fits d"
  using assms by (cases d)
    (auto simp: inv_def config_ok_def config_wf_def allowlist_fits_def RESOLVER_ALLOWLIST_LEN_def)

lemma wager1_opened:
  "accts world_ready wager1 = None" "accts world_open wager1 = Some (WagerAcc bet)"
  by (simp_all add: at_ready at_open evaluate)

section \<open>Properties\<close>

text \<open>
  C25. What an instruction stores has the space it needs, and the client can read it: an account
  it adds was created, at the expense of a signer, with exactly the space of the discriminator and of
  the bytes written at the end; an account it rewrites has as many bytes as before; and the
  reader of the client gives the data back.
\<close>

theorem accounts_fill_their_space:
  assumes "wire_format B" "chain E" "reachable E W" "real_signers E sg"
    "exec E sg c W = Inr W'" "accts W' k = Some d"
  shows "(case accts W k of
      None \<Rightarrow> \<exists>p \<in> sg. \<exists>L.
        create_account E p k (8 + length (put_account B d)) (ledger W) = Inr L
    | Some d0 \<Rightarrow> length (put_account B d) = length (put_account B d0)) \<and>
    get_account_like B d (put_account B d) = Some (d, [])"
proof -
  note inv = reachable_inv [OF assms(2,3)]
  have "account_fits d"
    using program.keeps_inv [OF assms(2,4) inv assms(5)] assms(6) by (rule stored_account_fits)
  moreover have "account_fits d0" if "accts W k = Some d0" for d0
    using inv that by (rule stored_account_fits)
  moreover have "case accts W k of
      None \<Rightarrow> \<exists>p \<in> sg. \<exists>L. create_account E p k (8 + account_space d) (ledger W) = Inr L
    | Some d0 \<Rightarrow> account_space d = account_space d0"
    using exec_fills [OF assms(5)] assms(6) unfolding fills_def by blast
  ultimately show ?thesis
    using wire_format.account_width [OF assms(1)]
      wire_format.account_reads_back [OF assms(1), of d "[]"]
    by (simp split: option.splits)
qed

theorem accounts_fill_their_space_witness:
  "(\<exists>p \<in> people. \<exists>L. create_account ref_env p wager1
      (8 + length (put_account ref_borsh (WagerAcc bet))) (ledger world_ready) = Inr L) \<and>
    length (put_account ref_borsh (WagerAcc locked_bet)) =
      length (put_account ref_borsh (WagerAcc (bet\<lparr>w_funded_a := True\<rparr>)))"
  using accounts_fill_their_space [OF ref_wire.wire_format_axioms ref.chain_axioms
      reachable_worlds(2) people_real run_open, of wager1 "WagerAcc bet"]
    accounts_fill_their_space [OF ref_wire.wire_format_axioms ref.chain_axioms
      reachable_worlds(4) people_real run_locked locked_wager]
  by (simp add: wager1_opened half_wager del: ref_env_simps)

end
