(* ===== verification/Endgame.thy ===== *)
theory Endgame
  imports Lifecycle Scenario
begin

text \<open>
  The end of a wager. After its resolve deadline no instruction on it leads back: each
  refunds a side, withdraws the cancel proposal, or closes it, so that at most four can follow,
  whatever else happens on the chain meanwhile.
\<close>

section \<open>What is left to do\<close>

definition togo :: "wager \<Rightarrow> nat" where
  "togo w = 1 + (if open_a w then 1 else 0) + (if open_b w then 1 else 0) +
    (if w_cancel_proposed_by w = default_key then 0 else 1)"

definition left_at :: "world \<Rightarrow> pubkey \<Rightarrow> nat" where
  "left_at W k = (case accts W k of Some (WagerAcc w) \<Rightarrow> togo w | _ \<Rightarrow> 0)"

definition late :: "i64 \<Rightarrow> wager \<Rightarrow> bool" where
  "late now w \<longleftrightarrow> w_deadline_fund w <s now \<and> w_deadline_resolve w <s now"

lemma togo_le: "togo w \<le> 4"
  by (simp add: togo_def)

lemma togo_pos: "0 < togo w"
  by (simp add: togo_def)

lemma late_terms: "terms_of w' = terms_of w \<Longrightarrow> late now w' \<longleftrightarrow> late now w"
  by (cases w; cases w') (simp add: late_def terms_of_def)

lemma late_later: "late now w \<Longrightarrow> now \<le>s t \<Longrightarrow> late t w"
  by (auto simp: late_def intro: signed.less_le_trans)

text \<open>Each step of a late wager leaves less to do.\<close>

lemma refund_togo: "side_in s w \<Longrightarrow> togo (mark_refunded s w) < togo w"
  by (auto simp: togo_def mark_refunded_def side_in_def open_a_def open_b_def split: if_splits)

lemma late_step_less:
  assumes "life_step now sg w r" "late now w"
  shows "(case r of None \<Rightarrow> 0 | Some w' \<Rightarrow> togo w') < togo w"
  using assms
proof (cases rule: life_step.cases)
  case (refunded s)
  then show ?thesis by (simp add: refund_togo)
next
  case (cleared s)
  then show ?thesis by (simp add: togo_def open_a_def open_b_def)
qed (use assms(2) in \<open>auto simp: late_def togo_pos signed.not_less [symmetric]\<close>)

section \<open>Histories\<close>

text \<open>
  What happens on the chain while the wager \<open>k\<close> exists, up to its closing: instructions, time,
  and whatever changes the ledger or the recorded upgrade authorities. The number counts the
  instructions on \<open>k\<close>.
\<close>

inductive history :: "env \<Rightarrow> pubkey \<Rightarrow> world \<Rightarrow> nat \<Rightarrow> world \<Rightarrow> bool" for E k W0 where
  start: "history E k W0 0 W0"
| own: "history E k W0 n W \<Longrightarrow> accts W k = Some (WagerAcc w) \<Longrightarrow> exec E sg c W = Inr W' \<Longrightarrow>
    call_wager c = Some k \<Longrightarrow> history E k W0 (Suc n) W'"
| other: "history E k W0 n W \<Longrightarrow> accts W k = Some (WagerAcc w) \<Longrightarrow> exec E sg c W = Inr W' \<Longrightarrow>
    call_wager c \<noteq> Some k \<Longrightarrow> history E k W0 n W'"
| world: "history E k W0 n W \<Longrightarrow> clock W \<le>s t \<Longrightarrow>
    history E k W0 n (W\<lparr>clock := t, ledger := L, program_data := p\<rparr>)"

definition all_late :: "world \<Rightarrow> pubkey \<Rightarrow> bool" where
  "all_late W k \<longleftrightarrow> (case accts W k of Some (WagerAcc w) \<Rightarrow> late (clock W) w | _ \<Rightarrow> True)"

lemma own_step:
  assumes "exec E sg c W = Inr W'" "call_wager c = Some k" "accts W k = Some (WagerAcc w)"
    and late: "late (clock W) w"
  shows "all_late W' k" and "left_at W' k < left_at W k"
proof -
  have now: "clock W' = clock W" using program.keeps_time [OF assms(1)] by simp
  obtain r where r: "accts W' k = map_option WagerAcc r" and step: "life_step (clock W) sg w r"
    using exec_follows [OF assms(1,3)] assms(2) by (auto simp: follows_def)
  show "left_at W' k < left_at W k"
    using late_step_less [OF step late] r assms(3) by (cases r) (simp_all add: left_at_def)
  show "all_late W' k"
  proof (cases r)
    case (Some w')
    then have "terms_of w' = terms_of w" using step life_step_forward(1) by blast
    with Some r now late late_terms [of w' w] show ?thesis by (simp add: all_late_def)
  qed (use r in \<open>simp add: all_late_def\<close>)
qed

lemma history_left:
  assumes "history E k W0 n W" "all_late W0 k"
  shows "all_late W k \<and> n + left_at W k \<le> left_at W0 k"
  using assms
proof induction
  case (own n W w sg c W')
  then have "late (clock W) w" by (simp add: all_late_def)
  with own show ?case using own_step [OF own.hyps(3,4,2)] by simp
next
  case (other n W w sg c W')
  then have "accts W' k = accts W k" "clock W' = clock W"
    using exec_follows [OF other.hyps(3,2)] program.keeps_time [OF other.hyps(3)] by simp_all
  with other show ?case by (simp add: all_late_def left_at_def)
next
  case (world n W t L p)
  then show ?case
    by (auto simp: all_late_def left_at_def split: option.splits account_data.splits
        intro: late_later)
qed simp

section \<open>Property\<close>

text \<open>
  C14. After its resolve deadline a wager comes to its end: of the instructions on it at most as
  many succeed as it has stakes in, proposals open and closings ahead, at most four, whatever
  happens to the rest of the chain; every one that succeeds leaves one less to do.
\<close>

theorem wind_up_terminates:
  assumes "chain E" "reachable E W" "accts W k = Some (WagerAcc w)"
    and "w_deadline_resolve w <s clock W" "history E k W n W'"
  shows "n + left_at W' k \<le> togo w \<and> togo w \<le> 4"
proof -
  have "w_deadline_fund w <s w_deadline_resolve w"
    using reachable_inv [OF assms(1,2)] assms(3)
    by (auto simp: inv_def wagers_ok_def terms_wf_def)
  then have "w_deadline_fund w <s clock W" using assms(4) signed.less_trans by blast
  with assms(3,4) have "all_late W k" by (simp add: all_late_def late_def)
  then show ?thesis
    using history_left [OF assms(5)] assms(3) togo_le by (simp add: left_at_def)
qed

theorem wind_up_terminates_witness: "2 + left_at world_back2 wager1 \<le> togo locked_bet"
proof -
  have "history ref_env wager1 world_expired (Suc (Suc 0)) world_back2"
    using history.own [OF history.own [OF history.start expired_wager run_back1] back1_wager run_back2]
    by (simp add: refund_args_def)
  moreover have "w_deadline_resolve locked_bet <s clock world_expired"
    by (simp add: at_expired evaluate word_sless_alt)
  ultimately show ?thesis
    using wind_up_terminates [OF ref.chain_axioms reachable_worlds(8) expired_wager, of 2]
    by (simp add: numeral_2_eq_2)
qed

end
