(* ===== verification/Spec2Isabelle.thy ===== *)
theory Spec2Isabelle
  imports Refinement Administration Delivery Storage Endgame
begin

text \<open>
  The Shake escrow rail, a Solana program in Rust with Anchor
  (\<^verbatim>\<open>src/programs/shake-escrow\<close>), and what it guarantees.

  \<^bold>\<open>The program.\<close> Two wallets stake equal amounts of one token on a wager; a resolver named at
  creation picks the winner among the two; a participant may concede, both may cancel by
  consent, and after the deadline anyone may refund the stakes and close the wager. The
  state is four kinds of accounts at derived addresses (\<^verbatim>\<open>state.rs\<close>): the configuration, one
  record per wager, one exposure counter per wallet and an optional offer of the admin role.
  The money is in token accounts of the SPL token program: each wager has a vault, the canonical
  token account of the wager's address. An instruction is a struct of accounts with constraints,
  which Anchor checks before the handler runs (one \<open>validate_...\<close> definition each), and the
  handler (one \<open>handle_...\<close> definition each); the checks stand in the order of the source, so the
  first that fails is the error. \<^verbatim>\<open>lib.rs\<close> dispatches (\<open>exec\<close>).

  \<^bold>\<open>The theories.\<close>
  \<^item> \<open>Prelude\<close>: machine words, keys, \<open>require\<close>, \<open>try_bind\<close> (the question mark) and \<open>ok_or\<close>, checked
    and saturating arithmetic, and the collections \<open>result_simps\<close> and \<open>result_errors\<close>.
  \<^item> \<open>Shake_Error\<close> (\<^verbatim>\<open>error.rs\<close>) and \<open>Shake_State\<close> (\<^verbatim>\<open>constants.rs\<close>, \<^verbatim>\<open>state.rs\<close>, \<^verbatim>\<open>events.rs\<close>, the seeds
    of the addresses).
  \<^item> \<open>Runtime\<close>: the world (\<open>accts\<close>, \<open>ledger\<close>, \<open>clock\<close>, \<open>program_data\<close>, \<open>events\<close>), the account attributes of
    Anchor over it, and the interface \<open>env\<close> to code outside the repository.
  \<^item> \<open>Books\<close>: the invariant \<open>inv\<close> (accounts well-formed, books exact, vaults backed) and the locale
    \<open>instruction\<close>, the contract every handler meets by an interpretation.
  \<^item> \<open>Payout\<close> (\<^verbatim>\<open>payout.rs\<close>), \<open>Config_Admin\<close> (\<^verbatim>\<open>initialize_config.rs\<close>, \<^verbatim>\<open>update_config.rs\<close>,
    \<^verbatim>\<open>admin_transfer.rs\<close>), \<open>Create_Wager\<close> (\<^verbatim>\<open>create_wager.rs\<close>), \<open>Staking\<close> (\<^verbatim>\<open>stake_side.rs\<close>,
    \<^verbatim>\<open>unstake_side.rs\<close>), \<open>Settlement\<close> (\<^verbatim>\<open>resolve.rs\<close>, \<^verbatim>\<open>concede.rs\<close>), \<open>Timeouts\<close> (\<^verbatim>\<open>refund_side.rs\<close>,
    \<^verbatim>\<open>close_expired.rs\<close>), \<open>Cancel\<close> (\<^verbatim>\<open>cancel.rs\<close>): accounts, handlers, when each succeeds, and that it
    keeps the invariant.
  \<^item> \<open>Program\<close> (\<^verbatim>\<open>lib.rs\<close>): \<open>call\<close>, \<open>exec\<close>, and \<open>reachable\<close>: the worlds that atomic transactions, the
    passing of time, what other programs may do to token accounts, and program upgrades lead to
    from a world without accounts.
  \<^item> \<open>Lifecycle\<close>: the state machine of one wager (\<open>life_step\<close>), which every instruction refines.
    \<open>Custody\<close>: which balances an instruction may raise or lower. \<open>Exits\<close>: the windows in time, and
    that the exits succeed. \<open>Governance\<close>: what the admin can change. \<open>Faults\<close>: no panic.
  \<^item> \<open>Rail_Spec\<close>: the specification of the program without Solana. A wager is a slip with the set of
    sides that paid and the set that got their stake back; numbers are unbounded; an act is allowed
    or not, and has an effect on slips, balances, counts and the sum at stake (\<open>rail_step\<close>). \<open>rail_of\<close>
    reads a world as a rail, and every instruction on a wager, with whatever accounts, is the step
    it names. \<open>Availability\<close>: the converse. On its canonical accounts (\<open>instruction_for\<close>) an instruction
    succeeds whenever the rail allows its act, as long as the token accounts outside the program
    are in order (\<open>rail_ready\<close>).
  \<^item> \<open>Footprint\<close>: what an instruction writes and whose signatures it asks for. \<open>Endgame\<close>: a wager past its
    deadline comes to its end.
  \<^item> \<open>Wire\<close>: the bytes of accounts, arguments and events, written in the order of the one side's
    declarations and read in that of the other's, with the locale \<open>wire_format\<close> for the Borsh encodings
    of the library types (\<open>Reference_Wire\<close> is the format itself). \<open>Client\<close>, \<open>Client_Admin\<close> and
    \<open>Client_Wager\<close>: the instruction builders of \<^verbatim>\<open>trident-tests/fuzz_0/types.rs\<close>. \<open>Sha256\<close>: the hash
    behind the discriminators, on words, and an equivalent computation on bits that evaluates; \<open>Sighash\<close>:
    the discriminators of the names in \<^verbatim>\<open>lib.rs\<close>. \<open>Dispatch\<close>: how the program decodes what a client
    sends, with its own address, discriminators and orders of accounts and arguments, and the accounts
    of \<^verbatim>\<open>#[event_cpi]\<close>. \<open>Delivery\<close>: client and program agree, on accounts, arguments and flags.
    \<open>Storage\<close>: what the handlers write fits the space their \<^verbatim>\<open>init\<close> attributes asked for.
  \<^item> \<open>Reference_Runtime\<close> and \<open>Scenario\<close>: a concrete \<open>env\<close> that satisfies every assumption made on it,
    and transactions computed on it from an empty chain; the witnesses use them.
  \<^item> \<open>Effects\<close>, \<open>Guarantees\<close>, \<open>Administration\<close>, \<open>Refinement\<close>, \<open>Delivery\<close>, \<open>Storage\<close> (and \<open>Payout\<close>,
    \<open>Endgame\<close>): the properties. \<open>Effects\<close> says exactly what a successful settlement, stake, unstake,
    refund, cancel and close do; \<open>Guarantees\<close> what holds of all instructions and all reachable worlds,
    after the promises of the README (nothing drainable, funds do not strand as long as the token
    accounts allow the exit, the resolver's only power); \<open>Administration\<close> the limits of the admin, what
    an update sets and what a wager takes over at creation; \<open>Refinement\<close> that transactions are runs of
    the rail, that what the rail allows is done, and that staking can be undone.

  \<^bold>\<open>Conventions.\<close> A 64-bit amount is a word, and arithmetic on it is that of the source: checked
  where the source checks, saturating where it saturates, and otherwise a panic on overflow, as
  the release profile of \<^verbatim>\<open>Cargo.toml\<close> sets \<^verbatim>\<open>overflow-checks\<close>. An error is the left value of a sum: one
  of the program's, one of Anchor's, the number of a failed call, a missing signature, or a
  panic. A failed instruction has no effect, because the runtime drops the whole transaction.
  The handlers have no loops but a copy of at most four resolvers, so there is no fuel.
  Signatures are a set of keys: \<open>real_signers\<close> says that no derived address is among them, since
  nobody has a key for it.

  \<^bold>\<open>What is assumed.\<close> The locales \<open>runtime\<close> and \<open>chain\<close> state the documented behaviour of code outside
  the repository: address derivation gives the derived address again, with no collision between
  exposure counters; a transfer moves exactly its amount between accounts of one mint, and
  succeeds when balances, owner, and freezing allow; closing a token account needs it empty;
  Anchor refuses an instruction that lists one mutable account twice. Properties on balances
  take that the mint staked is not wrapped SOL (\<open>token_stakes\<close>), whose balances follow lamports.
  Properties that an exit succeeds take that the token accounts it uses exist and are not
  frozen, that the vault has no close authority of its own, that the fee account can receive a surplus
  and that the rent collector is another account (\<open>exit_ready\<close>): a missing or frozen account of a side
  makes the refund of that side wait, a frozen vault every exit, until it is thawed. That no
  instruction panics takes that the clock is past the epoch.

  On the wire, \<open>wire_format\<close> says that a value is read back from its bytes and that types of fixed size
  have their width; a vector has to have fewer than \<open>2 ^ 32\<close> elements, as its length is written in
  32 bits. Anchor's discriminators are the first eight bytes of SHA-256 of \<^verbatim>\<open>global:\<close> and the name of the
  function; the hash is an argument of \<open>decode\<close>, and the properties are about SHA-256 as its standard
  defines it.

  \<^bold>\<open>Not modelled.\<close> Compute limits, the rent a new account needs, the texts of messages; the account
  discriminators, which Anchor writes in front of the data (the types of \<open>account_data\<close> stand for them);
  the order in which the checks of \<^verbatim>\<open>#[event_cpi]\<close> and those of the other accounts fail, as an undecoded
  instruction is just refused; the tests and their storage of addresses (\<^verbatim>\<open>fuzz_accounts.rs\<close>).
\<close>

end
